(* ===== verification/Disco_Prelude.thy ===== *)
theory Disco_Prelude
  imports Complex_Main "HOL-Library.AList" "HOL-Library.Multiset" "HOL-Library.Signed_Division"
begin

text \<open>
  Shared vocabulary of the development: Go maps as association lists with distinct keys,
  64-bit integers with their wrap-around, instants and durations in nanoseconds, the
  functions of Go's \<^verbatim>\<open>strings\<close>, \<^verbatim>\<open>strconv\<close>, \<^verbatim>\<open>fmt\<close> and \<^verbatim>\<open>net\<close>
  packages that the program uses, the interface \<open>keyed_store\<close> that the program's maps
  implement and the interface \<open>transition_system\<close> behind every reachability argument.

  Go maps. A map is the list of its entries, \<open>map_of\<close> reads it, \<open>AList.update\<close> and
  \<open>AList.delete\<close> write it. The order of the list is the order in which a
  \<^verbatim>\<open>range\<close> loop visits the entries. Go leaves that order open and may change it from
  one loop to the next, so statements about loops hold for every list with the same entries,
  and the state machines of the development contain a step that reorders the entries.

  Time. An instant is its distance from the Unix epoch in nanoseconds, a duration is a number
  of nanoseconds in the range of a 64-bit integer. \<^verbatim>\<open>time.Now()\<close> is an argument
  \<open>now\<close> of the operation that calls it; an operation that reads the clock more than once
  is given one reading.
\<close>

named_theorems gomap_simps \<open>lookups, domains and key-distinctness of Go maps\<close>
named_theorems go_strings \<open>the modelled functions of Go's string packages\<close>

section \<open>Go maps\<close>

type_synonym ('k, 'v) gomap = "('k \<times> 'v) list"

abbreviation gm_wf :: "('k, 'v) gomap \<Rightarrow> bool" where
  "gm_wf m \<equiv> distinct (map fst m)"

text \<open>The entries in another order: what Go may do to a map between two range loops.\<close>

definition reordered :: "('k, 'v) gomap \<Rightarrow> ('k, 'v) gomap \<Rightarrow> bool" where
  "reordered m m' \<longleftrightarrow> mset m' = mset m"

section \<open>Fixed-width integers and time\<close>

type_synonym time = int
type_synonym duration = int

text \<open>Reduction to a signed 64-bit integer, and the saturation \<^verbatim>\<open>time.Sub\<close> documents.\<close>

definition wrap64 :: "int \<Rightarrow> int" where
  "wrap64 x = (x + 2 ^ 63) mod 2 ^ 64 - 2 ^ 63"

definition clamp64 :: "int \<Rightarrow> int" where
  "clamp64 x = (if x < - (2 ^ 63) then - (2 ^ 63) else if x > 2 ^ 63 - 1 then 2 ^ 63 - 1 else x)"

abbreviation in_int64 :: "int \<Rightarrow> bool" where
  "in_int64 x \<equiv> - (2 ^ 63) \<le> x \<and> x < 2 ^ 63"

abbreviation Microsecond :: duration where "Microsecond \<equiv> 1000"
abbreviation Millisecond :: duration where "Millisecond \<equiv> 1000000"
abbreviation Second :: duration where "Second \<equiv> 1000000000"
abbreviation Minute :: duration where "Minute \<equiv> 60000000000"
abbreviation Hour :: duration where "Hour \<equiv> 3600000000000"

definition time_Unix :: "int \<Rightarrow> time" where
  "time_Unix sec = sec * Second"

definition unix_secs :: "time \<Rightarrow> int" where
  "unix_secs t = t div Second"

definition time_Sub :: "time \<Rightarrow> time \<Rightarrow> duration" where
  "time_Sub t u = clamp64 (t - u)"

text \<open>
  \<^verbatim>\<open>int(d.Seconds())\<close>: the conversion truncates towards zero. Go computes the seconds in
  floating point; the result is this quotient whenever \<open>d\<close> is shorter than \<open>2 ^ 24\<close>
  seconds (194 days), beyond which the fraction may round up to the next second.
\<close>

definition dur_secs :: "duration \<Rightarrow> int" where
  "dur_secs d = d sdiv Second"

text \<open>
  Finite values of Go's \<^verbatim>\<open>float64\<close> are rational numbers; the rounding of the operations is in the
  theory \<open>Go_Float\<close>, and infinities and NaN are written out where the code can produce them. The conversion to a 64-bit integer truncates; Go leaves the result
  for values out of range to the platform, and on amd64 it is the least integer.
\<close>

type_synonym float64 = rat

definition float_trunc :: "float64 \<Rightarrow> int" where
  "float_trunc f = (if f < 0 then - \<lfloor>- f\<rfloor> else \<lfloor>f\<rfloor>)"

definition float_to_int64 :: "float64 \<Rightarrow> int" where
  "float_to_int64 f =
     (let i = float_trunc f in if - (2 ^ 63) \<le> i \<and> i < 2 ^ 63 then i else - (2 ^ 63))"

text \<open>
  Values of \<^verbatim>\<open>encoding/json\<close>: what the program hands to \<^verbatim>\<open>json.Marshal\<close> and
  what \<^verbatim>\<open>json.Unmarshal\<close> puts into an empty interface (numbers are floats there). An
  object lists its fields in the order of the encoded text.
\<close>

datatype json = JNull | JBool bool | JInt int | JNum float64 | JStr string | JArr "json list"
  | JObj "(string \<times> json) list"

section \<open>Strings\<close>

definition HasPrefix :: "string \<Rightarrow> string \<Rightarrow> bool" where
  "HasPrefix s p \<longleftrightarrow> take (length p) s = p"

definition HasSuffix :: "string \<Rightarrow> string \<Rightarrow> bool" where
  "HasSuffix s p \<longleftrightarrow> length p \<le> length s \<and> drop (length s - length p) s = p"

definition TrimPrefix :: "string \<Rightarrow> string \<Rightarrow> string" where
  "TrimPrefix s p = (if HasPrefix s p then drop (length p) s else s)"

definition TrimSuffix :: "string \<Rightarrow> string \<Rightarrow> string" where
  "TrimSuffix s p = (if HasSuffix s p then take (length s - length p) s else s)"

text \<open>\<^verbatim>\<open>strings.TrimSpace\<close> on ASCII text, which is all the program trims.\<close>

definition is_space :: "char \<Rightarrow> bool" where
  "is_space c \<longleftrightarrow> c \<in> {CHR 0x09, CHR 0x0A, CHR 0x0B, CHR 0x0C, CHR 0x0D, CHR '' ''}"

definition TrimSpace :: "string \<Rightarrow> string" where
  "TrimSpace s = rev (dropWhile is_space (rev (dropWhile is_space s)))"

text \<open>\<^verbatim>\<open>strings.Split\<close> with a one-byte separator, and \<^verbatim>\<open>strings.Join\<close>.\<close>

fun split_on :: "char \<Rightarrow> string \<Rightarrow> string list" where
  "split_on c [] = [[]]"
| "split_on c (x # xs) =
     (if x = c then [] # split_on c xs
      else (case split_on c xs of [] \<Rightarrow> [[x]] | p # ps \<Rightarrow> (x # p) # ps))"

fun join_with :: "string \<Rightarrow> string list \<Rightarrow> string" where
  "join_with sep [] = []"
| "join_with sep [x] = x"
| "join_with sep (x # y # ys) = x @ sep @ join_with sep (y # ys)"

text \<open>Decimal printing (\<^verbatim>\<open>%d\<close>) and \<^verbatim>\<open>strconv.Atoi\<close>.\<close>

fun dec_nat :: "nat \<Rightarrow> string" where
  "dec_nat n = (if n < 10 then [char_of (48 + n)] else dec_nat (n div 10) @ [char_of (48 + n mod 10)])"

declare dec_nat.simps [simp del]

definition itoa :: "int \<Rightarrow> string" where
  "itoa i = (if i < 0 then CHR ''-'' # dec_nat (nat (- i)) else dec_nat (nat i))"

definition is_digit :: "char \<Rightarrow> bool" where
  "is_digit c \<longleftrightarrow> 48 \<le> (of_char c :: nat) \<and> (of_char c :: nat) \<le> 57"

definition digit_val :: "char \<Rightarrow> nat" where
  "digit_val c = of_char c - 48"

definition digits_val :: "string \<Rightarrow> nat" where
  "digits_val s = foldl (\<lambda>acc c. acc * 10 + digit_val c) 0 s"

text \<open>
  \<open>Atoi s = (value, ok)\<close>. A syntax error yields 0, a value out of the range of a 64-bit
  integer yields the nearest bound; in both cases the error is set (\<open>ok\<close> is \<open>False\<close>).
\<close>

definition Atoi :: "string \<Rightarrow> int \<times> bool" where
  "Atoi s =
     (let neg = (case s of c # _ \<Rightarrow> c = CHR ''-'' | [] \<Rightarrow> False);
          ds = (case s of c # cs \<Rightarrow> if c = CHR ''-'' \<or> c = CHR ''+'' then cs else s | [] \<Rightarrow> [])
      in if ds = [] \<or> \<not> list_all is_digit ds then (0, False)
         else let v = (if neg then - int (digits_val ds) else int (digits_val ds))
              in (clamp64 v, clamp64 v = v))"

text \<open>
  \<^verbatim>\<open>net.SplitHostPort\<close>. The port starts after the last colon; a bracketed host ends at the
  first closing bracket, which must stand right before that colon; a host without brackets
  has no colon.
\<close>

fun index_byte :: "string \<Rightarrow> char \<Rightarrow> nat option" where
  "index_byte [] c = None"
| "index_byte (x # xs) c = (if x = c then Some 0 else map_option Suc (index_byte xs c))"

definition last_index_byte :: "string \<Rightarrow> char \<Rightarrow> nat option" where
  "last_index_byte s c = map_option (\<lambda>i. length s - 1 - i) (index_byte (rev s) c)"

datatype addr_error = MissingPort | TooManyColons | MissingBracket | UnexpectedOpen | UnexpectedClose

fun addr_error_text :: "addr_error \<Rightarrow> string" where
  "addr_error_text MissingPort = ''missing port in address''"
| "addr_error_text TooManyColons = ''too many colons in address''"
| "addr_error_text MissingBracket = ''missing ']' in address''"
| "addr_error_text UnexpectedOpen = ''unexpected '[' in address''"
| "addr_error_text UnexpectedClose = ''unexpected ']' in address''"

definition split_tail :: "string \<Rightarrow> nat \<Rightarrow> nat \<Rightarrow> nat \<Rightarrow> string \<Rightarrow> addr_error + string \<times> string" where
  "split_tail hp i j k host =
     (if CHR ''['' \<in> set (drop j hp) then Inl UnexpectedOpen
      else if CHR '']'' \<in> set (drop k hp) then Inl UnexpectedClose
      else Inr (host, drop (Suc i) hp))"

definition SplitHostPort :: "string \<Rightarrow> addr_error + string \<times> string" where
  "SplitHostPort hp =
     (case last_index_byte hp CHR '':'' of
        None \<Rightarrow> Inl MissingPort
      | Some i \<Rightarrow>
          if hp ! 0 = CHR ''['' then
            (case index_byte hp CHR '']'' of
               None \<Rightarrow> Inl MissingBracket
             | Some e \<Rightarrow>
                 if Suc e = length hp then Inl MissingPort
                 else if Suc e = i then split_tail hp i 1 (Suc e) (drop 1 (take e hp))
                 else if hp ! Suc e = CHR '':'' then Inl TooManyColons
                 else Inl MissingPort)
          else if CHR '':'' \<in> set (take i hp) then Inl TooManyColons
          else split_tail hp i 0 0 (take i hp))"

section \<open>Lemmas on Go maps\<close>

declare map_of_eq_Some_iff [simp del] Some_eq_map_of_iff [simp del]

lemma map_of_gm_put [gomap_simps, simp]: "map_of (AList.update k v m) = (map_of m)(k \<mapsto> v)"
  by (rule update_conv')

lemma map_of_gm_del [gomap_simps, simp]: "map_of (AList.delete k m) = (map_of m)(k := None)"
  by (rule delete_conv')

lemma gm_wf_put [gomap_simps, simp]: "gm_wf m \<Longrightarrow> gm_wf (AList.update k v m)"
  by (rule distinct_update)

lemma gm_wf_del [gomap_simps, simp]: "gm_wf m \<Longrightarrow> gm_wf (AList.delete k m)"
  by (rule distinct_delete)

lemma gm_wf_filter [gomap_simps, simp]: "gm_wf m \<Longrightarrow> gm_wf (filter P m)"
  by (rule distinct_map_filter)

lemma gm_wf_map_snd [gomap_simps]: "map (fst \<circ> (\<lambda>(k, v). (k, f k v))) m = map fst m"
  by (induction m) auto

lemma map_of_map_snd [gomap_simps]:
  "map_of (map (\<lambda>(k, v). (k, f k v)) m) k = map_option (f k) (map_of m k)"
  by (induction m) auto

lemma map_of_gm_filter [gomap_simps]:
  "gm_wf m \<Longrightarrow> map_of (filter P m) k =
     (case map_of m k of None \<Rightarrow> None | Some v \<Rightarrow> if P (k, v) then Some v else None)"
proof (induction m)
  case Nil
  then show ?case by simp
next
  case (Cons e m)
  obtain k' v' where e: "e = (k', v')" by (cases e)
  with Cons.prems have "map_of m k' = None" by (simp add: map_of_eq_None_iff)
  moreover have "map_of (filter P m) k =
      (case map_of m k of None \<Rightarrow> None | Some v \<Rightarrow> if P (k, v) then Some v else None)"
    using Cons by simp
  ultimately show ?case using e by (cases "k' = k") simp_all
qed

lemma gm_in_iff: "gm_wf m \<Longrightarrow> (k, v) \<in> set m \<longleftrightarrow> map_of m k = Some v"
  by (simp add: map_of_eq_Some_iff)

lemma list_all_gm: "gm_wf m \<Longrightarrow> list_all P m \<longleftrightarrow> (\<forall>k v. map_of m k = Some v \<longrightarrow> P (k, v))"
  by (auto simp: list_all_iff map_of_eq_Some_iff)

lemma reordered_refl [simp]: "reordered m m"
  by (simp add: reordered_def)

lemma reordered_set: "reordered m m' \<Longrightarrow> set m' = set m"
  unfolding reordered_def by (rule mset_eq_setD)

lemma reordered_wf: "reordered m m' \<Longrightarrow> gm_wf m' \<longleftrightarrow> gm_wf m"
  unfolding reordered_def by (rule mset_eq_imp_distinct_iff) simp

lemma reordered_map_of: "reordered m m' \<Longrightarrow> gm_wf m \<Longrightarrow> map_of m' = map_of m"
  by (rule map_of_inject_set [THEN iffD2]) (simp_all add: reordered_wf reordered_set)

lemma find_SomeD: "find P xs = Some x \<Longrightarrow> x \<in> set xs \<and> P x"
  by (induction xs) (auto split: if_splits)

section \<open>The interface of a keyed store\<close>

text \<open>
  Most of the program's state is a map behind a mutex: an entry is written under its key,
  read back by the key and removed by the key. The laws below are what the clients of such a
  store use; the last-write-wins lemma is the shape of every loop that fills a map.
\<close>

locale keyed_store =
  fixes look :: "'s \<Rightarrow> 'k \<Rightarrow> 'v option"
    and put :: "'k \<Rightarrow> 'v \<Rightarrow> 's \<Rightarrow> 's"
    and del :: "'k \<Rightarrow> 's \<Rightarrow> 's"
    and inv :: "'s \<Rightarrow> bool"
  assumes look_put: "inv s \<Longrightarrow> look (put k v s) = (look s)(k \<mapsto> v)"
    and look_del: "inv s \<Longrightarrow> look (del k s) = (look s)(k := None)"
    and inv_put: "inv s \<Longrightarrow> inv (put k v s)"
    and inv_del: "inv s \<Longrightarrow> inv (del k s)"
begin

lemma read_own_write: "inv s \<Longrightarrow> look (put k v s) k = Some v"
  by (simp add: look_put)

lemma write_frame: "inv s \<Longrightarrow> k' \<noteq> k \<Longrightarrow> look (put k v s) k' = look s k'"
  by (simp add: look_put)

lemma removed: "inv s \<Longrightarrow> look (del k s) k = None"
  by (simp add: look_del)

lemma remove_frame: "inv s \<Longrightarrow> k' \<noteq> k \<Longrightarrow> look (del k s) k' = look s k'"
  by (simp add: look_del)

lemma inv_fold: "inv s \<Longrightarrow> inv (fold (\<lambda>x. put (f x) (g x)) xs s)"
  by (induction xs arbitrary: s) (auto simp: inv_put)

lemma look_fold:
  "inv s \<Longrightarrow> look (fold (\<lambda>x. put (f x) (g x)) xs s) = look s ++ map_of (rev (map (\<lambda>x. (f x, g x)) xs))"
proof (induction xs arbitrary: s)
  case Nil
  then show ?case by simp
next
  case (Cons x xs)
  then have "look (fold (\<lambda>x. put (f x) (g x)) (x # xs) s) =
      look (put (f x) (g x) s) ++ map_of (rev (map (\<lambda>x. (f x, g x)) xs))"
    by (simp add: inv_put)
  also have "\<dots> = look s ++ map_of (rev (map (\<lambda>x. (f x, g x)) (x # xs)))"
    using Cons.prems by (auto simp: look_put fun_eq_iff map_add_def map_of_append split: option.splits)
  finally show ?case .
qed

lemma last_write_wins:
  assumes "inv s" and "x \<in> set xs" and "\<forall>y \<in> set xs. f y = f x \<longrightarrow> g y = g x"
  shows "look (fold (\<lambda>x. put (f x) (g x)) xs s) (f x) = Some (g x)"
proof -
  have "map_of (rev (map (\<lambda>x. (f x, g x)) xs)) (f x) = Some (g x)"
  proof (cases "map_of (rev (map (\<lambda>x. (f x, g x)) xs)) (f x)")
    case None
    with assms(2) show ?thesis by (auto simp: map_of_eq_None_iff image_iff)
  next
    case (Some v)
    then have "(f x, v) \<in> set (rev (map (\<lambda>x. (f x, g x)) xs))"
      by (rule map_of_SomeD)
    with assms(3) Some show ?thesis by auto
  qed
  with assms(1) show ?thesis by (simp add: look_fold)
qed

end

interpretation gm: keyed_store map_of AList.update AList.delete gm_wf
  by unfold_locales simp_all

text \<open>A range loop that rebuilds a map entry by entry, transforming the values.\<close>

lemma map_of_rev_gm: "gm_wf m \<Longrightarrow> map_of (rev m) = map_of m"
  by (rule reordered_map_of) (simp_all add: reordered_def)

lemma gm_rebuild:
  assumes "gm_wf m"
  shows "map_of (fold (\<lambda>(k, v). AList.update k (g k v)) m []) k = map_option (g k) (map_of m k)"
    and "gm_wf (fold (\<lambda>(k, v). AList.update k (g k v)) m [])"
proof -
  let ?f = "\<lambda>x. AList.update (fst x) (g (fst x) (snd x))"
  have eq: "(\<lambda>(k, v). AList.update k (g k v)) = ?f" by (simp add: fun_eq_iff split_beta)
  show "gm_wf (fold (\<lambda>(k, v). AList.update k (g k v)) m [])"
    unfolding eq by (rule gm.inv_fold) simp
  have "(\<lambda>x. (fst x, g (fst x) (snd x))) = (\<lambda>(k, v). (k, g k v))"
    by (simp add: fun_eq_iff split_beta)
  then have "map_of (fold ?f m []) k = map_of (rev (map (\<lambda>(k, v). (k, g k v)) m)) k"
    using gm.look_fold [where f = fst and g = "\<lambda>x. g (fst x) (snd x)" and s = "[]" and xs = m] by simp
  also have "\<dots> = map_option (g k) (map_of m k)"
    using assms by (simp add: map_of_rev_gm gm_wf_map_snd map_of_map_snd)
  finally show "map_of (fold (\<lambda>(k, v). AList.update k (g k v)) m []) k = map_option (g k) (map_of m k)"
    unfolding eq .
qed

section \<open>Transition systems and their invariants\<close>

text \<open>
  A component whose operations interleave is a set of initial states and a step relation. A
  predicate that the initial states satisfy and every step keeps holds in every reachable
  state; a state function that no step decreases never falls below its initial value.
\<close>

inductive reach :: "('s \<Rightarrow> bool) \<Rightarrow> ('s \<Rightarrow> 's \<Rightarrow> bool) \<Rightarrow> 's \<Rightarrow> bool"
  for init :: "'s \<Rightarrow> bool" and step :: "'s \<Rightarrow> 's \<Rightarrow> bool" where
  reach_init: "init s \<Longrightarrow> reach init step s"
| reach_step: "reach init step s \<Longrightarrow> step s t \<Longrightarrow> reach init step t"

locale transition_system =
  fixes init :: "'s \<Rightarrow> bool" and step :: "'s \<Rightarrow> 's \<Rightarrow> bool" and inv :: "'s \<Rightarrow> bool"
  assumes inv_init: "init s \<Longrightarrow> inv s"
    and inv_step: "inv s \<Longrightarrow> step s t \<Longrightarrow> inv t"
begin

lemma reach_inv: "reach init step s \<Longrightarrow> inv s"
  by (induction rule: reach.induct) (blast intro: inv_init inv_step)+

lemma steps_inv: "inv s \<Longrightarrow> step\<^sup>*\<^sup>* s t \<Longrightarrow> inv t"
  by (rotate_tac, induction rule: rtranclp_induct) (blast intro: inv_step)+

end

section \<open>Lemmas on 64-bit integers and time\<close>

lemma clamp64_id: "in_int64 x \<Longrightarrow> clamp64 x = x"
  by (auto simp: clamp64_def)

lemma clamp64_range: "in_int64 (clamp64 x)"
  by (auto simp: clamp64_def)

lemma wrap64_range: "in_int64 (wrap64 x)"
  using pos_mod_bound [of "2 ^ 64" "x + 2 ^ 63"] pos_mod_sign [of "2 ^ 64" "x + 2 ^ 63"]
  by (simp add: wrap64_def)

lemma wrap64_id: "in_int64 x \<Longrightarrow> wrap64 x = x"
  by (auto simp: wrap64_def)

lemma clamp64_mono: "x \<le> y \<Longrightarrow> clamp64 x \<le> clamp64 y"
  by (auto simp: clamp64_def)

lemma dur_secs_nonneg: "0 \<le> d \<Longrightarrow> dur_secs d = d div Second"
  by (cases "d = 0") (auto simp: dur_secs_def signed_divide_int_def)

section \<open>Lemmas on strings\<close>

lemma HasSuffix_append [go_strings, simp]: "HasSuffix (s @ p) p"
  by (simp add: HasSuffix_def)

lemma TrimSuffix_append [go_strings, simp]: "TrimSuffix (s @ p) p = s"
  by (simp add: TrimSuffix_def)

lemma HasSuffix_iff: "HasSuffix s p \<longleftrightarrow> (\<exists>q. s = q @ p)"
  by (metis HasSuffix_append HasSuffix_def append_take_drop_id)

lemma HasPrefix_iff: "HasPrefix s p \<longleftrightarrow> (\<exists>q. s = p @ q)"
  by (metis HasPrefix_def append_eq_conv_conj append_take_drop_id)

lemma split_on_not_Nil [simp]: "split_on c s \<noteq> []"
  by (induction s) (auto split: list.splits)

lemma split_on_plain: "c \<notin> set s \<Longrightarrow> split_on c s = [s]"
  by (induction s) auto

lemma split_on_append: "c \<notin> set s \<Longrightarrow> split_on c (s @ c # t) = s # split_on c t"
  by (induction s) auto

lemma join_split: "join_with [c] (split_on c s) = s"
proof (induction s)
  case Nil
  then show ?case by simp
next
  case (Cons x xs)
  obtain p ps where "split_on c xs = p # ps"
    by (cases "split_on c xs") auto
  with Cons show ?case by (cases ps) auto
qed

lemma split_join:
  "xs \<noteq> [] \<Longrightarrow> \<forall>x \<in> set xs. c \<notin> set x \<Longrightarrow> split_on c (join_with [c] xs) = xs"
  by (induction "[c]" xs rule: join_with.induct) (auto simp: split_on_plain split_on_append)

lemma digit_char: "d < 10 \<Longrightarrow> is_digit (char_of (48 + d)) \<and> digit_val (char_of (48 + d)) = d"
  by (simp add: is_digit_def digit_val_def)

lemma dec_nat_digits: "list_all is_digit (dec_nat n)"
proof (induction n rule: dec_nat.induct)
  case (1 n)
  then show ?case
    by (subst dec_nat.simps) (auto simp: digit_char)
qed

lemma dec_nat_not_Nil [simp]: "dec_nat n \<noteq> []"
  by (subst dec_nat.simps) simp

lemma digits_val_snoc: "digits_val (s @ [c]) = digits_val s * 10 + digit_val c"
  by (simp add: digits_val_def)

lemma digits_val_dec_nat: "digits_val (dec_nat n) = n"
proof (induction n rule: dec_nat.induct)
  case (1 n)
  show ?case
  proof (cases "n < 10")
    case True
    then show ?thesis
      by (subst dec_nat.simps) (simp add: digits_val_def digit_char)
  next
    case False
    with 1 have "digits_val (dec_nat (n div 10)) = n div 10" by simp
    with False show ?thesis
      by (subst dec_nat.simps) (simp add: digits_val_snoc digit_char)
  qed
qed

lemma is_digit_not_special:
  "is_digit c \<Longrightarrow> c \<noteq> CHR ''-'' \<and> c \<noteq> CHR ''+'' \<and> c \<noteq> CHR '':'' \<and> c \<noteq> CHR ''['' \<and> c \<noteq> CHR '']''"
  by (auto simp: is_digit_def)

lemma Atoi_itoa: "in_int64 n \<Longrightarrow> Atoi (itoa n) = (n, True)"
proof -
  assume n: "in_int64 n"
  show ?thesis
  proof (cases "n < 0")
    case True
    with n show ?thesis
      by (simp add: Atoi_def itoa_def dec_nat_digits digits_val_dec_nat clamp64_id)
  next
    case False
    obtain c cs where d: "dec_nat (nat n) = c # cs"
      by (cases "dec_nat (nat n)") auto
    with dec_nat_digits [of "nat n"] have "is_digit c" by simp
    with False n d show ?thesis
      using dec_nat_digits [of "nat n"] digits_val_dec_nat [of "nat n"]
      by (simp add: Atoi_def itoa_def clamp64_id is_digit_not_special)
  qed
qed

lemma itoa_chars: "x \<in> set (itoa n) \<Longrightarrow> is_digit x \<or> x = CHR ''-''"
  using dec_nat_digits by (auto simp: itoa_def list_all_iff split: if_splits)

lemma itoa_plain: "CHR '':'' \<notin> set (itoa n) \<and> CHR ''['' \<notin> set (itoa n) \<and> CHR '']'' \<notin> set (itoa n)"
  using itoa_chars is_digit_not_special by fastforce

lemma index_byte_None: "index_byte s c = None \<longleftrightarrow> c \<notin> set s"
  by (induction s) auto

lemma index_byte_append: "c \<notin> set s \<Longrightarrow> index_byte (s @ c # t) c = Some (length s)"
  by (induction s) auto

lemma last_index_byte_append: "c \<notin> set t \<Longrightarrow> last_index_byte (s @ c # t) c = Some (length s)"
  using index_byte_append [of c "rev t" "rev s"] by (simp add: last_index_byte_def)

lemma SplitHostPort_plain:
  assumes "CHR '':'' \<notin> set h" "CHR ''['' \<notin> set h" "CHR '']'' \<notin> set h"
    and "CHR '':'' \<notin> set p" "CHR ''['' \<notin> set p" "CHR '']'' \<notin> set p"
  shows "SplitHostPort (h @ CHR '':'' # p) = Inr (h, p)"
proof -
  have "(h @ CHR '':'' # p) ! 0 \<noteq> CHR ''[''"
    using assms(2) by (cases h) auto
  with assms show ?thesis
    by (simp add: SplitHostPort_def last_index_byte_append split_tail_def)
qed

lemma last_index_byte_None: "c \<notin> set s \<Longrightarrow> last_index_byte s c = None"
  by (simp add: last_index_byte_def index_byte_None)

lemma SplitHostPort_no_colon: "CHR '':'' \<notin> set hp \<Longrightarrow> SplitHostPort hp = Inl MissingPort"
  by (simp add: SplitHostPort_def last_index_byte_None)

text \<open>The \<^verbatim>\<open>host:port\<close> text that the daemon writes for a service is read back unchanged.\<close>

lemma host_port_roundtrip:
  assumes "CHR '':'' \<notin> set h" "CHR ''['' \<notin> set h" "CHR '']'' \<notin> set h" and "in_int64 n"
  shows "SplitHostPort (h @ '':'' @ itoa n) = Inr (h, itoa n) \<and> Atoi (itoa n) = (n, True)"
  using assms SplitHostPort_plain [of h "itoa n"] itoa_plain [of n] by (simp add: Atoi_itoa)

end
