(* ===== verification/Nss_Protocol.thy ===== *)
theory Nss_Protocol
  imports Disco_Prelude
begin

text \<open>
  The query and response types of the daemon's Unix socket and the host record of the
  daemon's cache (\<^verbatim>\<open>internal/nss/protocol.go\<close>). Go's string constants are kept as strings,
  since the wire and the comparisons of the code use the strings themselves.
\<close>

section \<open>Message types\<close>

type_synonym MessageType = string

abbreviation QueryByName :: MessageType where "QueryByName \<equiv> ''QUERY_BY_NAME''"
abbreviation QueryByAddr :: MessageType where "QueryByAddr \<equiv> ''QUERY_BY_ADDR''"
abbreviation QueryList :: MessageType where "QueryList \<equiv> ''LIST''"
abbreviation QueryListHosts :: MessageType where "QueryListHosts \<equiv> ''LIST_HOSTS''"
abbreviation QueryListServices :: MessageType where "QueryListServices \<equiv> ''LIST_SERVICES''"
abbreviation HostsList :: MessageType where "HostsList \<equiv> ''HOSTS_LIST''"
abbreviation HostsShow :: MessageType where "HostsShow \<equiv> ''HOSTS_SHOW''"
abbreviation HostsForget :: MessageType where "HostsForget \<equiv> ''HOSTS_FORGET''"
abbreviation HostsMarkLost :: MessageType where "HostsMarkLost \<equiv> ''HOSTS_MARK_LOST''"
abbreviation ServicesList :: MessageType where "ServicesList \<equiv> ''SERVICES_LIST''"
abbreviation ServicesShow :: MessageType where "ServicesShow \<equiv> ''SERVICES_SHOW''"
abbreviation ServicesForget :: MessageType where "ServicesForget \<equiv> ''SERVICES_FORGET''"
abbreviation ServiceAnnounce :: MessageType where "ServiceAnnounce \<equiv> ''SERVICE_ANNOUNCE''"
abbreviation LocationList :: MessageType where "LocationList \<equiv> ''LOCATION_LIST''"
abbreviation LocationShow :: MessageType where "LocationShow \<equiv> ''LOCATION_SHOW''"
abbreviation ResponseOK :: MessageType where "ResponseOK \<equiv> ''OK''"
abbreviation ResponseNotFound :: MessageType where "ResponseNotFound \<equiv> ''NOTFOUND''"
abbreviation ResponseError :: MessageType where "ResponseError \<equiv> ''ERROR''"

section \<open>Records\<close>

type_synonym HostStatus = string

abbreviation StatusHealthy :: HostStatus where "StatusHealthy \<equiv> ''healthy''"
abbreviation StatusStale :: HostStatus where "StatusStale \<equiv> ''stale''"
abbreviation StatusLost :: HostStatus where "StatusLost \<equiv> ''lost''"
abbreviation StatusStatic :: HostStatus where "StatusStatic \<equiv> ''static''"

record Query =
  q_Type :: MessageType
  q_Name :: string
  q_Addr :: string
  q_Family :: int
  q_Port :: int
  q_Aliases :: "string list"
  q_RequestID :: string

record HostHealth =
  hh_Hostname :: string
  hh_MachineID :: string
  hh_Addresses :: "string list"
  hh_Status :: string
  hh_Services :: "(string, string) gomap"
  hh_LastSeen :: int
  hh_LastSeenAgo :: string
  hh_IsStatic :: bool

record ServiceHealth =
  sh_Name :: string
  sh_Protocol :: string
  sh_Port :: int
  sh_Hosts :: "string list"
  sh_Aliases :: "string list"
  sh_Status :: string

text \<open>Coordinates are floating-point numbers that the daemon only stores and returns.\<close>

record LocationHealth =
  lh_SourceID :: string
  lh_Latitude :: float64
  lh_Longitude :: float64
  lh_Altitude :: float64
  lh_Satellites :: int
  lh_Fix :: bool
  lh_LastSeen :: int
  lh_LastSeenAgo :: string

text \<open>The \<^verbatim>\<open>Records\<close> bytes of a response hold an encoded document.\<close>

record Response =
  rsp_Type :: MessageType
  rsp_RequestID :: string
  rsp_Name :: string
  rsp_Aliases :: "string list"
  rsp_AddrType :: int
  rsp_AddrLen :: int
  rsp_Addrs :: "string list"
  rsp_Error :: string
  rsp_Records :: string
  rsp_Count :: int
  rsp_Hosts :: "HostHealth list"
  rsp_Services :: "ServiceHealth list"
  rsp_Locations :: "LocationHealth list"

record Record =
  r_Hostname :: string
  r_MachineID :: string
  r_Aliases :: "string list"
  r_Addresses :: "string list"
  r_Timestamp :: int
  r_FirstSeen :: int
  r_TTL :: int
  r_Services :: "(string, string) gomap"
  r_Status :: HostStatus
  r_IsStatic :: bool

text \<open>The zero values that Go's composite literals start from.\<close>

definition zero_Record :: Record where
  "zero_Record = \<lparr>r_Hostname = [], r_MachineID = [], r_Aliases = [], r_Addresses = [],
     r_Timestamp = 0, r_FirstSeen = 0, r_TTL = 0, r_Services = [], r_Status = [],
     r_IsStatic = False\<rparr>"

definition zero_Response :: Response where
  "zero_Response = \<lparr>rsp_Type = [], rsp_RequestID = [], rsp_Name = [], rsp_Aliases = [],
     rsp_AddrType = 0, rsp_AddrLen = 0, rsp_Addrs = [], rsp_Error = [], rsp_Records = [],
     rsp_Count = 0, rsp_Hosts = [], rsp_Services = [], rsp_Locations = []\<rparr>"

definition zero_Query :: Query where
  "zero_Query = \<lparr>q_Type = [], q_Name = [], q_Addr = [], q_Family = 0, q_Port = 0,
     q_Aliases = [], q_RequestID = []\<rparr>"

section \<open>Response constructors\<close>

definition NewOKResponse :: "string \<Rightarrow> string \<Rightarrow> string list \<Rightarrow> Response" where
  "NewOKResponse requestID name addrs =
     zero_Response\<lparr>rsp_Type := ResponseOK, rsp_RequestID := requestID, rsp_Name := name,
       rsp_Addrs := addrs\<rparr>"

definition NewNotFoundResponse :: "string \<Rightarrow> Response" where
  "NewNotFoundResponse requestID =
     zero_Response\<lparr>rsp_Type := ResponseNotFound, rsp_RequestID := requestID\<rparr>"

definition NewErrorResponse :: "string \<Rightarrow> string \<Rightarrow> Response" where
  "NewErrorResponse requestID errMsg =
     zero_Response\<lparr>rsp_Type := ResponseError, rsp_RequestID := requestID, rsp_Error := errMsg\<rparr>"

lemmas response_defs = NewOKResponse_def NewNotFoundResponse_def NewErrorResponse_def zero_Response_def

end
