(* ===== verification/Config.thy ===== *)
theory Config
  imports Disco_Prelude
begin

text \<open>
  The configuration of the daemon (\<^verbatim>\<open>internal/config\<close>): its sections as records, the
  defaults (\<open>SetDefaults\<close>) and the validation (\<open>Validate\<close>) that
  \<^verbatim>\<open>cmd/daemon/main.go\<close> runs before it creates the daemon. Reading and parsing the YAML
  file (\<^verbatim>\<open>Load\<close>) is the operating system's and the YAML package's work and is left out.
  Errors are the texts that the code builds.
\<close>

section \<open>Sections\<close>

record ServiceConfig =
  svc_Name :: string
  svc_Port :: int
  svc_Aliases :: "string list"

record DaemonConfig =
  dc_SocketPath :: string
  dc_BroadcastInterval :: duration
  dc_RecordTTL :: duration
  dc_PIDFile :: string

record NetworkConfig =
  nc_Interfaces :: "string list"
  nc_BroadcastAddr :: string
  nc_MaxBroadcastRate :: int

record DiscoveryConfig =
  disc_Enabled :: bool
  disc_DetectServices :: bool
  disc_ServicePortMapping :: "(string, int list) gomap"
  disc_ScanInterval :: duration

record SecurityConfig =
  sec_Enabled :: bool
  sec_KeyPath :: string
  sec_TrustedPeers :: string
  sec_RequireSigned :: bool

record LoggingConfig =
  lg_Level :: string
  lg_Format :: string
  lg_File :: string

record TimeSyncConfig =
  tsc_Enabled :: bool
  tsc_MinSources :: int
  tsc_MaxSourceSpread :: duration
  tsc_MaxStaleAge :: duration
  tsc_MaxDispersion :: float64
  tsc_StepThreshold :: duration
  tsc_SlewThreshold :: duration
  tsc_PollInterval :: duration
  tsc_RequireSigned :: bool
  tsc_AllowStepBackward :: bool

record HealthConfig =
  hc_GracePeriod :: duration
  hc_ExpireAfter :: duration
  hc_CleanupInterval :: duration

record DNSConfig =
  dns_Enabled :: bool
  dns_Port :: int
  dns_Domain :: string
  dns_BindAddresses :: "string list"
  dns_TTLHealthy :: int
  dns_TTLStale :: int

record StaticHostService =
  shs_Name :: string
  shs_Port :: int
  shs_Protocol :: string

record StaticHost =
  sth_Addresses :: "string list"
  sth_Services :: "StaticHostService list"

record Config =
  c_Daemon :: DaemonConfig
  c_Network :: NetworkConfig
  c_Discovery :: DiscoveryConfig
  c_Security :: SecurityConfig
  c_Logging :: LoggingConfig
  c_TimeSync :: TimeSyncConfig
  c_Health :: HealthConfig
  c_DNS :: DNSConfig
  c_StaticHosts :: "(string, StaticHost) gomap"
  c_Services :: "ServiceConfig list"

text \<open>The value that an empty configuration file is parsed to.\<close>

definition zero_Config :: Config where
  "zero_Config = \<lparr>
     c_Daemon = \<lparr>dc_SocketPath = [], dc_BroadcastInterval = 0, dc_RecordTTL = 0, dc_PIDFile = []\<rparr>,
     c_Network = \<lparr>nc_Interfaces = [], nc_BroadcastAddr = [], nc_MaxBroadcastRate = 0\<rparr>,
     c_Discovery = \<lparr>disc_Enabled = False, disc_DetectServices = False,
       disc_ServicePortMapping = [], disc_ScanInterval = 0\<rparr>,
     c_Security = \<lparr>sec_Enabled = False, sec_KeyPath = [], sec_TrustedPeers = [],
       sec_RequireSigned = False\<rparr>,
     c_Logging = \<lparr>lg_Level = [], lg_Format = [], lg_File = []\<rparr>,
     c_TimeSync = \<lparr>tsc_Enabled = False, tsc_MinSources = 0, tsc_MaxSourceSpread = 0,
       tsc_MaxStaleAge = 0, tsc_MaxDispersion = 0, tsc_StepThreshold = 0, tsc_SlewThreshold = 0,
       tsc_PollInterval = 0, tsc_RequireSigned = False, tsc_AllowStepBackward = False\<rparr>,
     c_Health = \<lparr>hc_GracePeriod = 0, hc_ExpireAfter = 0, hc_CleanupInterval = 0\<rparr>,
     c_DNS = \<lparr>dns_Enabled = False, dns_Port = 0, dns_Domain = [], dns_BindAddresses = [],
       dns_TTLHealthy = 0, dns_TTLStale = 0\<rparr>,
     c_StaticHosts = [], c_Services = []\<rparr>"

section \<open>Loading\<close>

text \<open>Reading the file and parsing YAML are arguments.\<close>

definition Load :: "(string \<Rightarrow> string + string) \<Rightarrow> (string \<Rightarrow> string + Config) \<Rightarrow> string \<Rightarrow> string + Config" where
  "Load readFile unmarshal path =
     (case readFile path of
        Inl err \<Rightarrow> Inl (''failed to read config file: '' @ err)
      | Inr data \<Rightarrow>
          (case unmarshal data of
             Inl err \<Rightarrow> Inl (''failed to parse config file: '' @ err)
           | Inr cfg \<Rightarrow> Inr cfg))"

section \<open>Defaults\<close>

definition or_default :: "'a \<Rightarrow> 'a \<Rightarrow> 'a \<Rightarrow> 'a" where
  "or_default zero d x = (if x = zero then d else x)"

definition SetDefaults_Daemon :: "DaemonConfig \<Rightarrow> DaemonConfig" where
  "SetDefaults_Daemon d = d\<lparr>
     dc_SocketPath := or_default [] ''/run/disco/disco.sock'' (dc_SocketPath d),
     dc_BroadcastInterval := or_default 0 (30 * Second) (dc_BroadcastInterval d),
     dc_RecordTTL := or_default 0 (3600 * Second) (dc_RecordTTL d)\<rparr>"

definition SetDefaults_Network :: "NetworkConfig \<Rightarrow> NetworkConfig" where
  "SetDefaults_Network n = n\<lparr>
     nc_BroadcastAddr := or_default [] ''255.255.255.255:5354'' (nc_BroadcastAddr n),
     nc_MaxBroadcastRate := or_default 0 10 (nc_MaxBroadcastRate n)\<rparr>"

definition SetDefaults_Discovery :: "DiscoveryConfig \<Rightarrow> DiscoveryConfig" where
  "SetDefaults_Discovery d = d\<lparr>
     disc_ScanInterval := or_default 0 (60 * Second) (disc_ScanInterval d)\<rparr>"

definition SetDefaults_Logging :: "LoggingConfig \<Rightarrow> LoggingConfig" where
  "SetDefaults_Logging l = l\<lparr>
     lg_Level := or_default [] ''info'' (lg_Level l),
     lg_Format := or_default [] ''text'' (lg_Format l)\<rparr>"

definition SetDefaults_TimeSync :: "TimeSyncConfig \<Rightarrow> TimeSyncConfig" where
  "SetDefaults_TimeSync t = t\<lparr>
     tsc_MinSources := or_default 0 2 (tsc_MinSources t),
     tsc_MaxSourceSpread := or_default 0 (100 * Millisecond) (tsc_MaxSourceSpread t),
     tsc_MaxStaleAge := or_default 0 (30 * Second) (tsc_MaxStaleAge t),
     tsc_MaxDispersion := or_default 0 1 (tsc_MaxDispersion t),
     tsc_StepThreshold := or_default 0 (128 * Millisecond) (tsc_StepThreshold t),
     tsc_SlewThreshold := or_default 0 (500 * Microsecond) (tsc_SlewThreshold t),
     tsc_PollInterval := or_default 0 (60 * Second) (tsc_PollInterval t)\<rparr>"

definition SetDefaults_Health :: "HealthConfig \<Rightarrow> HealthConfig" where
  "SetDefaults_Health h = h\<lparr>
     hc_GracePeriod := or_default 0 (60 * Second) (hc_GracePeriod h),
     hc_ExpireAfter := or_default 0 (3600 * Second) (hc_ExpireAfter h),
     hc_CleanupInterval := or_default 0 (30 * Second) (hc_CleanupInterval h)\<rparr>"

definition SetDefaults_DNS :: "DNSConfig \<Rightarrow> DNSConfig" where
  "SetDefaults_DNS d = d\<lparr>
     dns_Port := or_default 0 53 (dns_Port d),
     dns_Domain := or_default [] ''disco'' (dns_Domain d),
     dns_BindAddresses := or_default [] [''0.0.0.0''] (dns_BindAddresses d),
     dns_TTLHealthy := or_default 0 30 (dns_TTLHealthy d),
     dns_TTLStale := or_default 0 10 (dns_TTLStale d)\<rparr>"

definition SetDefaults :: "Config \<Rightarrow> Config" where
  "SetDefaults c = c\<lparr>
     c_Daemon := SetDefaults_Daemon (c_Daemon c),
     c_Network := SetDefaults_Network (c_Network c),
     c_Discovery := SetDefaults_Discovery (c_Discovery c),
     c_Logging := SetDefaults_Logging (c_Logging c),
     c_TimeSync := SetDefaults_TimeSync (c_TimeSync c),
     c_Health := SetDefaults_Health (c_Health c),
     c_DNS := SetDefaults_DNS (c_DNS c)\<rparr>"

section \<open>Validation\<close>

record ValidationWarning =
  vw_Field :: string
  vw_Message :: string

definition IsAbs :: "string \<Rightarrow> bool" where
  "IsAbs path \<longleftrightarrow> HasPrefix path ''/''"

definition validateDaemon :: "Config \<Rightarrow> string option" where
  "validateDaemon c =
     (let d = c_Daemon c in
      if dc_SocketPath d = [] then Some ''socket_path is required''
      else if \<not> IsAbs (dc_SocketPath d) then Some ''socket_path must be absolute path''
      else if dc_BroadcastInterval d < 5 * Second
        then Some ''broadcast_interval must be at least 5 seconds''
      else if dc_BroadcastInterval d > 1 * Hour then Some ''broadcast_interval cannot exceed 1 hour''
      else if dc_RecordTTL d < 60 * Second then Some ''record_ttl must be at least 60 seconds''
      else if dc_RecordTTL d > 24 * Hour then Some ''record_ttl cannot exceed 24 hours''
      else None)"

definition interfaces_warning :: ValidationWarning where
  "interfaces_warning = \<lparr>vw_Field = ''network.interfaces'',
     vw_Message = ''no interfaces specified, will broadcast on all available interfaces''\<rparr>"

definition validateNetwork :: "Config \<Rightarrow> string + ValidationWarning list" where
  "validateNetwork c =
     (let n = c_Network c in
      if nc_BroadcastAddr n = [] then Inl ''broadcast_addr is required''
      else (case SplitHostPort (nc_BroadcastAddr n) of
              Inl e \<Rightarrow> Inl (''invalid broadcast_addr: address '' @ nc_BroadcastAddr n @ '': '' @ addr_error_text e)
            | Inr (host, port) \<Rightarrow>
                if host = [] then Inl ''broadcast_addr missing host''
                else if port = [] then Inl ''broadcast_addr missing port''
                else if nc_MaxBroadcastRate n < 1 then Inl ''max_broadcast_rate must be at least 1''
                else if nc_MaxBroadcastRate n > 100 then Inl ''max_broadcast_rate cannot exceed 100''
                else if nc_Interfaces n = [] then Inr [interfaces_warning]
                else Inr []))"

fun validate_ports :: "string \<Rightarrow> int list \<Rightarrow> string option" where
  "validate_ports service [] = None"
| "validate_ports service (port # ports) =
     (if port < 1 \<or> port > 65535
      then Some (''invalid port '' @ itoa port @ '' for service '' @ service)
      else validate_ports service ports)"

fun validate_mapping :: "(string \<times> int list) list \<Rightarrow> string option" where
  "validate_mapping [] = None"
| "validate_mapping ((service, ports) # rest) =
     (if service = [] then Some ''service name cannot be empty''
      else if ports = [] then Some (''service '' @ service @ '' has no ports configured'')
      else (case validate_ports service ports of
              Some e \<Rightarrow> Some e
            | None \<Rightarrow> validate_mapping rest))"

definition validateDiscovery :: "Config \<Rightarrow> string option" where
  "validateDiscovery c =
     (let d = c_Discovery c in
      if \<not> disc_Enabled d then None
      else if disc_ScanInterval d < 10 * Second then Some ''scan_interval must be at least 10 seconds''
      else if disc_ScanInterval d > 10 * Minute then Some ''scan_interval cannot exceed 10 minutes''
      else if disc_ServicePortMapping d = []
        then Some ''service_port_mapping cannot be empty when discovery is enabled''
      else validate_mapping (disc_ServicePortMapping d))"

text \<open>The only check that writes: a missing peer file path is filled in.\<close>

definition validateSecurity :: "Config \<Rightarrow> Config \<times> string option" where
  "validateSecurity c =
     (let s = c_Security c in
      if \<not> sec_Enabled s then (c, None)
      else if sec_KeyPath s = [] then (c, Some ''key_path is required when security is enabled'')
      else if sec_TrustedPeers s = []
        then (c\<lparr>c_Security := s\<lparr>sec_TrustedPeers := ''/etc/disco/trusted_peers.json''\<rparr>\<rparr>, None)
      else (c, None))"

definition validLevels :: "string list" where
  "validLevels = [''debug'', ''info'', ''warn'', ''error'', ''fatal'']"

definition validateLogging :: "Config \<Rightarrow> string option" where
  "validateLogging c =
     (let l = c_Logging c in
      if lg_Level l = [] then None
      else if lg_Level l \<notin> set validLevels
        then Some (''invalid log level: '' @ lg_Level l @ '' (valid: debug, info, warn, error, fatal)'')
      else if lg_File l \<noteq> [] \<and> \<not> IsAbs (lg_File l) then Some ''log_file must be absolute path''
      else None)"

definition validateTimeSync :: "Config \<Rightarrow> string option" where
  "validateTimeSync c =
     (let t = c_TimeSync c in
      if \<not> tsc_Enabled t then None
      else if tsc_MinSources t < 1 then Some ''min_sources must be at least 1''
      else if tsc_MaxSourceSpread t < 1 * Millisecond then Some ''max_source_spread must be at least 1ms''
      else if tsc_MaxStaleAge t < 1 * Second then Some ''max_stale_age must be at least 1s''
      else if tsc_StepThreshold t < 1 * Millisecond then Some ''step_threshold must be at least 1ms''
      else None)"

text \<open>\<open>Validate\<close> returns the configuration it leaves behind and the warnings or the error.\<close>

definition Validate :: "Config \<Rightarrow> Config \<times> (string + ValidationWarning list)" where
  "Validate c =
     (case validateDaemon c of
        Some e \<Rightarrow> (c, Inl (''daemon config invalid: '' @ e))
      | None \<Rightarrow>
          (case validateNetwork c of
             Inl e \<Rightarrow> (c, Inl (''network config invalid: '' @ e))
           | Inr warns \<Rightarrow>
               (case validateDiscovery c of
                  Some e \<Rightarrow> (c, Inl (''discovery config invalid: '' @ e))
                | None \<Rightarrow>
                    (case validateSecurity c of
                       (c', Some e) \<Rightarrow> (c', Inl (''security config invalid: '' @ e))
                     | (c', None) \<Rightarrow>
                         (case validateLogging c' of
                            Some e \<Rightarrow> (c', Inl (''logging config invalid: '' @ e))
                          | None \<Rightarrow>
                              (case validateTimeSync c' of
                                 Some e \<Rightarrow> (c', Inl (''time_sync config invalid: '' @ e))
                               | None \<Rightarrow> (c', Inr warns)))))))"

section \<open>Lemmas\<close>

lemma or_default_idem [simp]: "or_default z d (or_default z d x) = or_default z d x"
  by (simp add: or_default_def)

lemmas SetDefaults_defs = SetDefaults_def SetDefaults_Daemon_def SetDefaults_Network_def SetDefaults_Discovery_def
  SetDefaults_Logging_def SetDefaults_TimeSync_def SetDefaults_Health_def SetDefaults_DNS_def

lemma SetDefaults_idem: "SetDefaults (SetDefaults c) = SetDefaults c"
  by (simp add: SetDefaults_defs)

text \<open>What a valid configuration guarantees to the components that read it.\<close>

definition config_ok :: "Config \<Rightarrow> bool" where
  "config_ok c \<longleftrightarrow> HasPrefix (dc_SocketPath (c_Daemon c)) ''/''
     \<and> 5 * Second \<le> dc_BroadcastInterval (c_Daemon c) \<and> dc_BroadcastInterval (c_Daemon c) \<le> Hour
     \<and> 60 * Second \<le> dc_RecordTTL (c_Daemon c) \<and> dc_RecordTTL (c_Daemon c) \<le> 24 * Hour
     \<and> (\<exists>host port. SplitHostPort (nc_BroadcastAddr (c_Network c)) = Inr (host, port) \<and> host \<noteq> [] \<and> port \<noteq> [])
     \<and> (disc_Enabled (c_Discovery c) \<longrightarrow> 10 * Second \<le> disc_ScanInterval (c_Discovery c)
          \<and> (\<forall>(svc, ports) \<in> set (disc_ServicePortMapping (c_Discovery c)). svc \<noteq> [] \<and> ports \<noteq> []
               \<and> (\<forall>p \<in> set ports. 1 \<le> p \<and> p \<le> 65535)))
     \<and> (sec_Enabled (c_Security c) \<longrightarrow> sec_KeyPath (c_Security c) \<noteq> [] \<and> sec_TrustedPeers (c_Security c) \<noteq> [])
     \<and> (tsc_Enabled (c_TimeSync c) \<longrightarrow> 1 \<le> tsc_MinSources (c_TimeSync c) \<and> Millisecond \<le> tsc_MaxSourceSpread (c_TimeSync c)
          \<and> Second \<le> tsc_MaxStaleAge (c_TimeSync c) \<and> Millisecond \<le> tsc_StepThreshold (c_TimeSync c))"

lemma validate_ports_None: "validate_ports svc ports = None \<longleftrightarrow> (\<forall>p \<in> set ports. 1 \<le> p \<and> p \<le> 65535)"
  by (induction ports) auto

lemma validate_mapping_None:
  "validate_mapping m = None \<longleftrightarrow>
     (\<forall>(svc, ports) \<in> set m. svc \<noteq> [] \<and> ports \<noteq> [] \<and> (\<forall>p \<in> set ports. 1 \<le> p \<and> p \<le> 65535))"
proof (induction m)
  case (Cons e m)
  obtain svc ports where "e = (svc, ports)" by (cases e)
  with Cons validate_ports_None [of svc ports] show ?case by (cases "validate_ports svc ports") auto
qed simp

lemma Validate_Inr:
  assumes "Validate c = (c', Inr warns)"
  shows "validateDaemon c = None" "validateNetwork c = Inr warns" "validateDiscovery c = None"
    "validateSecurity c = (c', None)" "validateLogging c' = None" "validateTimeSync c' = None"
  using assms by (auto simp: Validate_def split: option.splits sum.splits prod.splits)

lemma validateSecurity_frame:
  "validateSecurity c = (c', e) \<Longrightarrow> c_Daemon c' = c_Daemon c \<and> c_Network c' = c_Network c \<and> c_Discovery c' = c_Discovery c
     \<and> c_TimeSync c' = c_TimeSync c \<and> c_StaticHosts c' = c_StaticHosts c \<and> c_Logging c' = c_Logging c"
  by (auto simp: validateSecurity_def Let_def split: if_splits)

lemma Validate_ok:
  assumes "Validate c = (c', Inr warns)"
  shows "config_ok c'"
proof -
  note v = Validate_Inr [OF assms]
  note fr = validateSecurity_frame [OF v(4)]
  have "HasPrefix (dc_SocketPath (c_Daemon c')) ''/'' \<and> 5 * Second \<le> dc_BroadcastInterval (c_Daemon c')
      \<and> dc_BroadcastInterval (c_Daemon c') \<le> Hour \<and> 60 * Second \<le> dc_RecordTTL (c_Daemon c') \<and> dc_RecordTTL (c_Daemon c') \<le> 24 * Hour"
    using v(1) fr by (auto simp: validateDaemon_def IsAbs_def Let_def split: if_splits)
  moreover have "\<exists>host port. SplitHostPort (nc_BroadcastAddr (c_Network c')) = Inr (host, port) \<and> host \<noteq> [] \<and> port \<noteq> []"
    using v(2) fr by (auto simp: validateNetwork_def Let_def split: if_splits sum.splits)
  moreover have "disc_Enabled (c_Discovery c') \<Longrightarrow> 10 * Second \<le> disc_ScanInterval (c_Discovery c')
      \<and> validate_mapping (disc_ServicePortMapping (c_Discovery c')) = None"
    using v(3) fr by (auto simp: validateDiscovery_def Let_def split: if_splits)
  moreover have "sec_Enabled (c_Security c') \<Longrightarrow> sec_KeyPath (c_Security c') \<noteq> [] \<and> sec_TrustedPeers (c_Security c') \<noteq> []"
    using v(4) by (auto simp: validateSecurity_def Let_def split: if_splits)
  moreover have "tsc_Enabled (c_TimeSync c') \<Longrightarrow> 1 \<le> tsc_MinSources (c_TimeSync c') \<and> Millisecond \<le> tsc_MaxSourceSpread (c_TimeSync c')
      \<and> Second \<le> tsc_MaxStaleAge (c_TimeSync c') \<and> Millisecond \<le> tsc_StepThreshold (c_TimeSync c')"
    using v(6) by (auto simp: validateTimeSync_def Let_def split: if_splits)
  ultimately show ?thesis unfolding config_ok_def validate_mapping_None by blast
qed

end
