(* ===== verification/Record_Store.thy ===== *)
theory Record_Store
  imports Nss_Protocol Config
begin

text \<open>
  The daemon's cache: the health tracker that grades a record by its age
  (\<^verbatim>\<open>internal/daemon/health.go\<close>) and the record store with its alias index
  (\<^verbatim>\<open>internal/daemon/store.go\<close>). Every operation holds the store's mutex, so one operation
  is one step; the clock reading is an argument. The store's invariant, the laws of its
  operations, its refinement to a pair of maps and the state machine of interleaved operations
  follow the definitions.
\<close>

named_theorems store_defs \<open>the operations of the record store\<close>

section \<open>Health tracker\<close>

record HealthTracker =
  ht_config :: HealthConfig
  ht_staticHosts :: "(string, Record) gomap"

definition static_services :: "StaticHostService list \<Rightarrow> (string, string) gomap" where
  "static_services svcs =
     fold (\<lambda>svc. AList.update (shs_Name svc)
       (if shs_Protocol svc = [] then ''tcp'' else shs_Protocol svc)) svcs []"

definition static_record :: "string \<Rightarrow> StaticHost \<Rightarrow> Record" where
  "static_record hostname sh =
     zero_Record\<lparr>r_Hostname := hostname, r_Addresses := sth_Addresses sh,
       r_Services := static_services (sth_Services sh), r_IsStatic := True,
       r_Status := StatusStatic\<rparr>"

definition NewHealthTracker :: "HealthConfig \<Rightarrow> (string, StaticHost) gomap \<Rightarrow> HealthTracker" where
  "NewHealthTracker cfg staticHosts = \<lparr>ht_config = cfg,
     ht_staticHosts = fold (\<lambda>(hostname, sh). AList.update hostname (static_record hostname sh)) staticHosts []\<rparr>"

text \<open>\<^verbatim>\<open>time.Since(time.Unix(record.Timestamp, 0))\<close>\<close>

definition record_age :: "time \<Rightarrow> Record \<Rightarrow> duration" where
  "record_age now r = time_Sub now (time_Unix (r_Timestamp r))"

definition ComputeStatus :: "HealthTracker \<Rightarrow> time \<Rightarrow> Record \<Rightarrow> HostStatus" where
  "ComputeStatus ht now r =
     (if r_IsStatic r then StatusStatic
      else let age = record_age now r in
        if age < hc_GracePeriod (ht_config ht) then StatusHealthy
        else if age < hc_ExpireAfter (ht_config ht) then StatusStale
        else StatusLost)"

definition UpdateRecordStatus :: "HealthTracker \<Rightarrow> time \<Rightarrow> Record \<Rightarrow> Record" where
  "UpdateRecordStatus ht now r = r\<lparr>r_Status := ComputeStatus ht now r\<rparr>"

definition GetStaticHosts :: "HealthTracker \<Rightarrow> (string, Record) gomap" where
  "GetStaticHosts ht = fold (\<lambda>(k, v). AList.update k v) (ht_staticHosts ht) []"

definition IsStatic :: "HealthTracker \<Rightarrow> string \<Rightarrow> bool" where
  "IsStatic ht hostname \<longleftrightarrow> map_of (ht_staticHosts ht) hostname \<noteq> None"

definition ShouldExpire :: "HealthTracker \<Rightarrow> time \<Rightarrow> Record \<Rightarrow> bool" where
  "ShouldExpire ht now r \<longleftrightarrow>
     (if r_IsStatic r then False else record_age now r \<ge> hc_ExpireAfter (ht_config ht))"

section \<open>Record store\<close>

record RecordStore =
  rs_records :: "(string, Record) gomap"
  rs_aliasIndex :: "(string, string) gomap"
  rs_ttl :: duration
  rs_healthTracker :: HealthTracker

definition index_aliases :: "string \<Rightarrow> string list \<Rightarrow> (string, string) gomap \<Rightarrow> (string, string) gomap" where
  "index_aliases hostname aliases idx = fold (\<lambda>alias. AList.update alias hostname) aliases idx"

fun load_static :: "(string \<times> Record) list \<Rightarrow> RecordStore \<Rightarrow> RecordStore" where
  "load_static [] rs = rs"
| "load_static ((hostname, record) # rest) rs =
     load_static rest (rs\<lparr>rs_records := AList.update hostname record (rs_records rs),
       rs_aliasIndex := index_aliases hostname (r_Aliases record) (rs_aliasIndex rs)\<rparr>)"

definition NewRecordStore :: "duration \<Rightarrow> HealthConfig \<Rightarrow> (string, StaticHost) gomap \<Rightarrow> RecordStore" where
  "NewRecordStore ttl healthCfg staticHosts =
     (let ht = NewHealthTracker healthCfg staticHosts in
      load_static (GetStaticHosts ht)
        \<lparr>rs_records = [], rs_aliasIndex = [], rs_ttl = ttl, rs_healthTracker = ht\<rparr>)"

definition removeAliasesForHost :: "string \<Rightarrow> RecordStore \<Rightarrow> RecordStore" where
  "removeAliasesForHost hostname rs =
     rs\<lparr>rs_aliasIndex := filter (\<lambda>(alias, h). h \<noteq> hostname) (rs_aliasIndex rs)\<rparr>"

text \<open>The record under the name itself, else under the host that the name is an alias of.\<close>

definition find_record :: "RecordStore \<Rightarrow> string \<Rightarrow> Record option" where
  "find_record rs hostname =
     (case map_of (rs_records rs) hostname of
        Some record \<Rightarrow> Some record
      | None \<Rightarrow>
          (case map_of (rs_aliasIndex rs) hostname of
             Some canonical \<Rightarrow> map_of (rs_records rs) canonical
           | None \<Rightarrow> None))"

definition Get :: "RecordStore \<Rightarrow> time \<Rightarrow> string \<Rightarrow> Record option" where
  "Get rs now hostname =
     (case find_record rs hostname of
        None \<Rightarrow> None
      | Some record \<Rightarrow>
          if r_IsStatic record then Some record
          else if ComputeStatus (rs_healthTracker rs) now record = StatusLost then None
          else Some record)"

fun addr_loop :: "HealthTracker \<Rightarrow> time \<Rightarrow> string \<Rightarrow> (string \<times> Record) list \<Rightarrow> Record option" where
  "addr_loop ht now addr [] = None"
| "addr_loop ht now addr ((h, record) # rest) =
     (if r_IsStatic record then
        (if addr \<in> set (r_Addresses record) then Some record else addr_loop ht now addr rest)
      else if ComputeStatus ht now record = StatusLost then addr_loop ht now addr rest
      else if addr \<in> set (r_Addresses record) then Some record
      else addr_loop ht now addr rest)"

definition GetByAddr :: "RecordStore \<Rightarrow> time \<Rightarrow> string \<Rightarrow> Record option" where
  "GetByAddr rs now addr = addr_loop (rs_healthTracker rs) now addr (rs_records rs)"

definition AddOrUpdate :: "time \<Rightarrow> Record \<Rightarrow> RecordStore \<Rightarrow> RecordStore" where
  "AddOrUpdate now record rs =
     (if IsStatic (rs_healthTracker rs) (r_Hostname record) then rs
      else
        let hostname = r_Hostname record;
            r1 = (if r_TTL record = 0 then record\<lparr>r_TTL := dur_secs (rs_ttl rs)\<rparr> else record);
            now_s = unix_secs now;
            existing = map_of (rs_records rs) hostname;
            r2 = (case existing of
                    Some old \<Rightarrow> r1\<lparr>r_FirstSeen := r_FirstSeen old\<rparr>
                  | None \<Rightarrow> r1\<lparr>r_FirstSeen := now_s\<rparr>);
            rs1 = (case existing of Some old \<Rightarrow> removeAliasesForHost hostname rs | None \<Rightarrow> rs);
            r3 = UpdateRecordStatus (rs_healthTracker rs) now (r2\<lparr>r_Timestamp := now_s, r_IsStatic := False\<rparr>)
        in rs1\<lparr>rs_records := AList.update hostname r3 (rs_records rs1),
             rs_aliasIndex := index_aliases hostname (r_Aliases r3) (rs_aliasIndex rs1)\<rparr>)"

definition Delete :: "string \<Rightarrow> RecordStore \<Rightarrow> RecordStore" where
  "Delete hostname rs =
     (let rs1 = removeAliasesForHost hostname rs
      in rs1\<lparr>rs_records := AList.delete hostname (rs_records rs1)\<rparr>)"

text \<open>\<open>List\<close> only reads; \<open>ListAll\<close> refreshes the status of every record it returns.\<close>

definition ListRecords :: "RecordStore \<Rightarrow> time \<Rightarrow> Record list" where
  "ListRecords rs now =
     filter (\<lambda>record. r_IsStatic record \<or> ComputeStatus (rs_healthTracker rs) now record \<noteq> StatusLost)
       (map snd (rs_records rs))"

definition refresh_all :: "time \<Rightarrow> RecordStore \<Rightarrow> RecordStore" where
  "refresh_all now rs =
     rs\<lparr>rs_records := map (\<lambda>(h, record). (h, UpdateRecordStatus (rs_healthTracker rs) now record)) (rs_records rs)\<rparr>"

definition ListAll :: "time \<Rightarrow> RecordStore \<Rightarrow> RecordStore \<times> Record list" where
  "ListAll now rs = (let rs1 = refresh_all now rs in (rs1, map snd (rs_records rs1)))"

definition MarkLost :: "string \<Rightarrow> RecordStore \<Rightarrow> RecordStore" where
  "MarkLost hostname rs =
     (case map_of (rs_records rs) hostname of
        Some record \<Rightarrow>
          if r_IsStatic record then rs
          else rs\<lparr>rs_records := AList.update hostname (record\<lparr>r_Status := StatusLost\<rparr>) (rs_records rs)\<rparr>
      | None \<Rightarrow> rs)"

definition Forget :: "string \<Rightarrow> RecordStore \<Rightarrow> RecordStore" where
  "Forget hostname rs =
     (case map_of (rs_records rs) hostname of
        Some record \<Rightarrow>
          if r_IsStatic record then rs
          else let rs1 = removeAliasesForHost hostname rs
               in rs1\<lparr>rs_records := AList.delete hostname (rs_records rs1)\<rparr>
      | None \<Rightarrow> rs)"

section \<open>Records for the DNS server\<close>

record DNSServiceInfo =
  dsi_Port :: int
  dsi_Protocol :: string

record DNSRecord =
  dr_Hostname :: string
  dr_Aliases :: "string list"
  dr_Addresses :: "string list"
  dr_Services :: "(string, DNSServiceInfo) gomap"
  dr_Status :: string
  dr_LastSeen :: time
  dr_IsStatic :: bool

definition dns_service :: "string \<Rightarrow> DNSServiceInfo" where
  "dns_service svcValue =
     (case SplitHostPort svcValue of
        Inl err \<Rightarrow> \<lparr>dsi_Port = 0, dsi_Protocol = svcValue\<rparr>
      | Inr (host, portStr) \<Rightarrow> \<lparr>dsi_Port = fst (Atoi portStr), dsi_Protocol = ''tcp''\<rparr>)"

definition dns_record :: "Record \<Rightarrow> DNSRecord" where
  "dns_record record =
     \<lparr>dr_Hostname = r_Hostname record, dr_Aliases = r_Aliases record,
      dr_Addresses = r_Addresses record,
      dr_Services = fold (\<lambda>(name, v). AList.update name (dns_service v)) (r_Services record) [],
      dr_Status = r_Status record, dr_LastSeen = time_Unix (r_Timestamp record),
      dr_IsStatic = r_IsStatic record\<rparr>"

definition GetAllRecords :: "time \<Rightarrow> RecordStore \<Rightarrow> RecordStore \<times> DNSRecord list" where
  "GetAllRecords now rs =
     (let rs1 = refresh_all now rs
      in (rs1, map dns_record (filter (\<lambda>record. r_Status record \<noteq> StatusLost) (map snd (rs_records rs1)))))"

section \<open>Cleanup\<close>

text \<open>One tick of \<^verbatim>\<open>cleanupExpiredRecords\<close>: the loop visits the entries present at its start.\<close>

fun cleanup_loop :: "time \<Rightarrow> (string \<times> Record) list \<Rightarrow> RecordStore \<Rightarrow> RecordStore" where
  "cleanup_loop now [] rs = rs"
| "cleanup_loop now ((hostname, record) # rest) rs =
     (if ShouldExpire (rs_healthTracker rs) now record
      then let rs1 = removeAliasesForHost hostname rs
           in cleanup_loop now rest (rs1\<lparr>rs_records := AList.delete hostname (rs_records rs1)\<rparr>)
      else cleanup_loop now rest
             (rs\<lparr>rs_records := AList.update hostname
                (UpdateRecordStatus (rs_healthTracker rs) now record) (rs_records rs)\<rparr>))"

definition cleanup_tick :: "time \<Rightarrow> RecordStore \<Rightarrow> RecordStore" where
  "cleanup_tick now rs = cleanup_loop now (rs_records rs) rs"

definition cleanup_interval :: "HealthConfig \<Rightarrow> duration" where
  "cleanup_interval cfg = (if hc_CleanupInterval cfg = 0 then 30 * Second else hc_CleanupInterval cfg)"

section \<open>Abstract cache and invariant\<close>

text \<open>
  What the store promises, without its representation: a map from host names to records and a
  map from aliases to host names. The abstract operations are pointwise.
\<close>

record cache =
  ca_entries :: "string \<rightharpoonup> Record"
  ca_aliases :: "string \<rightharpoonup> string"

definition store_abs :: "RecordStore \<Rightarrow> cache" where
  "store_abs rs = \<lparr>ca_entries = map_of (rs_records rs), ca_aliases = map_of (rs_aliasIndex rs)\<rparr>"

definition drop_aliases :: "(string \<Rightarrow> bool) \<Rightarrow> (string \<rightharpoonup> string) \<Rightarrow> (string \<rightharpoonup> string)" where
  "drop_aliases gone A = (\<lambda>a. case A a of None \<Rightarrow> None | Some h \<Rightarrow> if gone h then None else Some h)"

text \<open>The record that an announcement of \<open>r\<close> leaves in a cache whose entry was \<open>old\<close>.\<close>

definition stored_record :: "HealthTracker \<Rightarrow> duration \<Rightarrow> time \<Rightarrow> Record \<Rightarrow> Record option \<Rightarrow> Record" where
  "stored_record ht ttl now r old = UpdateRecordStatus ht now
     (r\<lparr>r_TTL := (if r_TTL r = 0 then dur_secs ttl else r_TTL r),
        r_FirstSeen := (case old of Some o' \<Rightarrow> r_FirstSeen o' | None \<Rightarrow> unix_secs now),
        r_Timestamp := unix_secs now, r_IsStatic := False\<rparr>)"

definition spec_add :: "HealthTracker \<Rightarrow> duration \<Rightarrow> time \<Rightarrow> Record \<Rightarrow> cache \<Rightarrow> cache" where
  "spec_add ht ttl now r c =
     (if IsStatic ht (r_Hostname r) then c
      else \<lparr>ca_entries = (ca_entries c)(r_Hostname r \<mapsto>
              stored_record ht ttl now r (ca_entries c (r_Hostname r))),
            ca_aliases = (\<lambda>a. if a \<in> set (r_Aliases r) then Some (r_Hostname r)
              else drop_aliases (\<lambda>h. h = r_Hostname r) (ca_aliases c) a)\<rparr>)"

definition spec_remove :: "(string \<Rightarrow> bool) \<Rightarrow> cache \<Rightarrow> cache" where
  "spec_remove gone c = \<lparr>ca_entries = (\<lambda>h. if gone h then None else ca_entries c h),
     ca_aliases = drop_aliases gone (ca_aliases c)\<rparr>"

definition spec_refresh :: "HealthTracker \<Rightarrow> time \<Rightarrow> cache \<Rightarrow> cache" where
  "spec_refresh ht now c =
     c\<lparr>ca_entries := (\<lambda>h. map_option (UpdateRecordStatus ht now) (ca_entries c h))\<rparr>"

definition expired_host :: "HealthTracker \<Rightarrow> time \<Rightarrow> cache \<Rightarrow> string \<Rightarrow> bool" where
  "expired_host ht now c h \<longleftrightarrow>
     (case ca_entries c h of None \<Rightarrow> False | Some r \<Rightarrow> ShouldExpire ht now r)"

text \<open>
  The invariant of the store: both maps have one entry per key, a record is stored under its
  own name, exactly the records of configured hosts are static, and an alias leads to a record
  that lists it.
\<close>

definition record_ok :: "HealthTracker \<Rightarrow> string \<times> Record \<Rightarrow> bool" where
  "record_ok ht e \<longleftrightarrow> r_Hostname (snd e) = fst e \<and> (r_IsStatic (snd e) \<longleftrightarrow> IsStatic ht (fst e))"

definition alias_ok :: "(string, Record) gomap \<Rightarrow> string \<times> string \<Rightarrow> bool" where
  "alias_ok recs e \<longleftrightarrow>
     (case map_of recs (snd e) of None \<Rightarrow> False | Some r \<Rightarrow> fst e \<in> set (r_Aliases r))"

definition store_inv :: "RecordStore \<Rightarrow> bool" where
  "store_inv rs \<longleftrightarrow> gm_wf (rs_records rs) \<and> gm_wf (rs_aliasIndex rs)
     \<and> list_all (record_ok (rs_healthTracker rs)) (rs_records rs)
     \<and> list_all (alias_ok (rs_records rs)) (rs_aliasIndex rs)"

section \<open>Basic facts\<close>

lemma UpdateRecordStatus_sel [simp]:
  "r_Hostname (UpdateRecordStatus ht now r) = r_Hostname r"
  "r_MachineID (UpdateRecordStatus ht now r) = r_MachineID r"
  "r_Aliases (UpdateRecordStatus ht now r) = r_Aliases r"
  "r_Addresses (UpdateRecordStatus ht now r) = r_Addresses r"
  "r_Timestamp (UpdateRecordStatus ht now r) = r_Timestamp r"
  "r_FirstSeen (UpdateRecordStatus ht now r) = r_FirstSeen r"
  "r_TTL (UpdateRecordStatus ht now r) = r_TTL r"
  "r_Services (UpdateRecordStatus ht now r) = r_Services r"
  "r_IsStatic (UpdateRecordStatus ht now r) = r_IsStatic r"
  "r_Status (UpdateRecordStatus ht now r) = ComputeStatus ht now r"
  by (simp_all add: UpdateRecordStatus_def)

text \<open>The age, and with it the status and the expiry, depends on two fields only.\<close>

lemma ComputeStatus_cong:
  "r_IsStatic r = r_IsStatic r' \<Longrightarrow> r_Timestamp r = r_Timestamp r' \<Longrightarrow>
   ComputeStatus ht now r = ComputeStatus ht now r'"
  by (simp add: ComputeStatus_def record_age_def)

lemma ComputeStatus_Update [simp]:
  "ComputeStatus ht now (UpdateRecordStatus ht' now' r) = ComputeStatus ht now r"
  by (rule ComputeStatus_cong) simp_all

lemma ComputeStatus_mark [simp]:
  "ComputeStatus ht now (r\<lparr>r_Status := st\<rparr>) = ComputeStatus ht now r"
  by (rule ComputeStatus_cong) simp_all

lemma Update_idem [simp]:
  "UpdateRecordStatus ht now (UpdateRecordStatus ht' now' r) = UpdateRecordStatus ht now r"
  by (simp add: UpdateRecordStatus_def)

lemma Update_mark [simp]:
  "UpdateRecordStatus ht now (r\<lparr>r_Status := st\<rparr>) = UpdateRecordStatus ht now r"
  by (simp add: UpdateRecordStatus_def)

lemma ComputeStatus_lost_iff:
  "ComputeStatus ht now r = StatusLost \<longleftrightarrow>
     \<not> r_IsStatic r \<and> hc_GracePeriod (ht_config ht) \<le> record_age now r \<and>
     hc_ExpireAfter (ht_config ht) \<le> record_age now r"
  by (auto simp: ComputeStatus_def Let_def)

lemma ShouldExpire_iff:
  "ShouldExpire ht now r \<longleftrightarrow> \<not> r_IsStatic r \<and> hc_ExpireAfter (ht_config ht) \<le> record_age now r"
  by (auto simp: ShouldExpire_def)

lemma removeAliases_sel [simp]:
  "rs_records (removeAliasesForHost h rs) = rs_records rs"
  "rs_ttl (removeAliasesForHost h rs) = rs_ttl rs"
  "rs_healthTracker (removeAliasesForHost h rs) = rs_healthTracker rs"
  by (simp_all add: removeAliasesForHost_def)

lemma removeAliases_map_of:
  "gm_wf (rs_aliasIndex rs) \<Longrightarrow>
   map_of (rs_aliasIndex (removeAliasesForHost h rs)) = drop_aliases (\<lambda>h'. h' = h) (map_of (rs_aliasIndex rs))"
  by (auto simp: removeAliasesForHost_def drop_aliases_def map_of_gm_filter fun_eq_iff split: option.splits)

lemma index_aliases_wf: "gm_wf idx \<Longrightarrow> gm_wf (index_aliases h as idx)"
  unfolding index_aliases_def by (rule gm.inv_fold)

lemma index_aliases_map_of:
  "map_of (index_aliases h as idx) a = (if a \<in> set as then Some h else map_of idx a)"
  unfolding index_aliases_def by (induction as arbitrary: idx) auto

lemma drop_aliases_absent: "(\<And>a h. A a = Some h \<Longrightarrow> \<not> gone h) \<Longrightarrow> drop_aliases gone A = A"
  by (auto simp: drop_aliases_def fun_eq_iff split: option.splits)

lemma alias_ok_iff:
  "alias_ok recs (a, h) \<longleftrightarrow> (\<exists>r. map_of recs h = Some r \<and> a \<in> set (r_Aliases r))"
  by (auto simp: alias_ok_def split: option.splits)

lemma store_inv_iff:
  "store_inv rs \<longleftrightarrow> gm_wf (rs_records rs) \<and> gm_wf (rs_aliasIndex rs)
     \<and> (\<forall>h r. map_of (rs_records rs) h = Some r \<longrightarrow>
          r_Hostname r = h \<and> (r_IsStatic r \<longleftrightarrow> IsStatic (rs_healthTracker rs) h))
     \<and> (\<forall>a h. map_of (rs_aliasIndex rs) a = Some h \<longrightarrow>
          (\<exists>r. map_of (rs_records rs) h = Some r \<and> a \<in> set (r_Aliases r)))"
  by (simp add: store_inv_def list_all_gm record_ok_def alias_ok_iff cong: conj_cong)

lemma store_inv_wf: "store_inv rs \<Longrightarrow> gm_wf (rs_records rs) \<and> gm_wf (rs_aliasIndex rs)"
  by (simp add: store_inv_iff)

lemma store_inv_record:
  "store_inv rs \<Longrightarrow> map_of (rs_records rs) h = Some r \<Longrightarrow>
   r_Hostname r = h \<and> (r_IsStatic r \<longleftrightarrow> IsStatic (rs_healthTracker rs) h)"
  by (simp add: store_inv_iff)

lemma store_inv_alias:
  "store_inv rs \<Longrightarrow> map_of (rs_aliasIndex rs) a = Some h \<Longrightarrow>
   \<exists>r. map_of (rs_records rs) h = Some r \<and> a \<in> set (r_Aliases r)"
  by (simp add: store_inv_iff)

section \<open>The operations refine the abstract cache\<close>

lemma AddOrUpdate_sel [simp]:
  "rs_ttl (AddOrUpdate now r rs) = rs_ttl rs"
  "rs_healthTracker (AddOrUpdate now r rs) = rs_healthTracker rs"
  by (simp_all add: AddOrUpdate_def Let_def split: option.splits)

lemma AddOrUpdate_records:
  "\<not> IsStatic (rs_healthTracker rs) (r_Hostname r) \<Longrightarrow>
   rs_records (AddOrUpdate now r rs) = AList.update (r_Hostname r)
     (stored_record (rs_healthTracker rs) (rs_ttl rs) now r (map_of (rs_records rs) (r_Hostname r))) (rs_records rs)"
  by (auto simp: AddOrUpdate_def Let_def stored_record_def UpdateRecordStatus_def ComputeStatus_def
      record_age_def split: option.splits)

lemma AddOrUpdate_aliases:
  "\<not> IsStatic (rs_healthTracker rs) (r_Hostname r) \<Longrightarrow>
   rs_aliasIndex (AddOrUpdate now r rs) = index_aliases (r_Hostname r) (r_Aliases r)
     (rs_aliasIndex (if map_of (rs_records rs) (r_Hostname r) = None then rs
                     else removeAliasesForHost (r_Hostname r) rs))"
  by (simp add: AddOrUpdate_def Let_def split: option.splits)

lemma AddOrUpdate_static: "IsStatic (rs_healthTracker rs) (r_Hostname r) \<Longrightarrow> AddOrUpdate now r rs = rs"
  by (simp add: AddOrUpdate_def)

lemma unlisted_no_alias:
  "store_inv rs \<Longrightarrow> map_of (rs_records rs) h = None \<Longrightarrow>
   drop_aliases (\<lambda>h'. h' = h) (map_of (rs_aliasIndex rs)) = map_of (rs_aliasIndex rs)"
  by (rule drop_aliases_absent) (auto dest: store_inv_alias)

lemma abs_AddOrUpdate:
  assumes "store_inv rs"
  shows "store_abs (AddOrUpdate now r rs) = spec_add (rs_healthTracker rs) (rs_ttl rs) now r (store_abs rs)"
proof (cases "IsStatic (rs_healthTracker rs) (r_Hostname r)")
  case True
  then show ?thesis by (simp add: AddOrUpdate_static spec_add_def)
next
  case False
  have "map_of (rs_aliasIndex (AddOrUpdate now r rs)) a =
      (if a \<in> set (r_Aliases r) then Some (r_Hostname r)
       else drop_aliases (\<lambda>h. h = r_Hostname r) (map_of (rs_aliasIndex rs)) a)" for a
    using False assms
    by (simp add: AddOrUpdate_aliases index_aliases_map_of unlisted_no_alias
        removeAliases_map_of store_inv_wf)
  with False show ?thesis
    by (simp add: spec_add_def store_abs_def AddOrUpdate_records fun_eq_iff)
qed

lemma removed_abs:
  "gm_wf (rs_aliasIndex rs) \<Longrightarrow>
   store_abs ((removeAliasesForHost h rs)\<lparr>rs_records := AList.delete h (rs_records rs)\<rparr>) =
   spec_remove (\<lambda>h'. h' = h) (store_abs rs)"
  by (simp add: store_abs_def spec_remove_def fun_eq_iff flip: removeAliases_map_of)

lemma abs_Delete: "store_inv rs \<Longrightarrow> store_abs (Delete h rs) = spec_remove (\<lambda>h'. h' = h) (store_abs rs)"
  by (simp add: Delete_def Let_def removed_abs store_inv_wf)

lemma spec_remove_absent:
  "store_inv rs \<Longrightarrow> map_of (rs_records rs) h = None \<Longrightarrow> spec_remove (\<lambda>h'. h' = h) (store_abs rs) = store_abs rs"
  using unlisted_no_alias [of rs h] by (auto simp: spec_remove_def store_abs_def fun_eq_iff)

lemma abs_Forget:
  assumes "store_inv rs"
  shows "store_abs (Forget h rs) =
     (if IsStatic (rs_healthTracker rs) h then store_abs rs else spec_remove (\<lambda>h'. h' = h) (store_abs rs))"
proof (cases "map_of (rs_records rs) h")
  case None
  then show ?thesis using assms by (simp add: Forget_def spec_remove_absent)
next
  case (Some r)
  with assms have "r_IsStatic r \<longleftrightarrow> IsStatic (rs_healthTracker rs) h"
    by (simp add: store_inv_record)
  with Some assms show ?thesis
    by (simp add: Forget_def Let_def removed_abs store_inv_wf)
qed

lemma abs_refresh: "store_abs (refresh_all now rs) = spec_refresh (rs_healthTracker rs) now (store_abs rs)"
  by (simp add: store_abs_def refresh_all_def spec_refresh_def map_of_map_snd fun_eq_iff)

lemma cleanup_loop_sel [simp]:
  "rs_ttl (cleanup_loop now xs rs) = rs_ttl rs"
  "rs_healthTracker (cleanup_loop now xs rs) = rs_healthTracker rs"
  by (induction now xs rs rule: cleanup_loop.induct) (auto simp: Let_def)

lemma cleanup_loop_wf:
  "gm_wf (rs_records rs) \<Longrightarrow> gm_wf (rs_aliasIndex rs) \<Longrightarrow>
   gm_wf (rs_records (cleanup_loop now xs rs)) \<and> gm_wf (rs_aliasIndex (cleanup_loop now xs rs))"
  by (induction now xs rs rule: cleanup_loop.induct) (auto simp: Let_def removeAliasesForHost_def)

lemma cleanup_loop_records:
  "gm_wf xs \<Longrightarrow> map_of (rs_records (cleanup_loop now xs rs)) h =
     (case map_of xs h of
        None \<Rightarrow> map_of (rs_records rs) h
      | Some r \<Rightarrow> if ShouldExpire (rs_healthTracker rs) now r then None
                  else Some (UpdateRecordStatus (rs_healthTracker rs) now r))"
proof (induction now xs rs rule: cleanup_loop.induct)
  case (1 now rs)
  then show ?case by simp
next
  case (2 now hn rec rest rs)
  then have "map_of rest hn = None" by (simp add: map_of_eq_None_iff)
  with 2 show ?case by (auto simp: Let_def split: option.splits)
qed

lemma cleanup_loop_aliases:
  "gm_wf xs \<Longrightarrow> gm_wf (rs_aliasIndex rs) \<Longrightarrow>
   map_of (rs_aliasIndex (cleanup_loop now xs rs)) =
     drop_aliases (\<lambda>h. case map_of xs h of None \<Rightarrow> False | Some r \<Rightarrow> ShouldExpire (rs_healthTracker rs) now r)
       (map_of (rs_aliasIndex rs))"
proof (induction now xs rs rule: cleanup_loop.induct)
  case (1 now rs)
  then show ?case by (simp add: drop_aliases_absent)
next
  case (2 now hn rec rest rs)
  then have none: "map_of rest hn = None" by (simp add: map_of_eq_None_iff)
  show ?case
  proof (cases "ShouldExpire (rs_healthTracker rs) now rec")
    case True
    let ?rs1 = "removeAliasesForHost hn rs"
    have "gm_wf (rs_aliasIndex ?rs1)" using "2.prems" by (simp add: removeAliasesForHost_def)
    with "2.IH"(1) [OF True refl] "2.prems" True show ?thesis
      by (auto simp: Let_def removeAliases_map_of drop_aliases_def fun_eq_iff split: option.splits)
  next
    case False
    with "2.IH"(2) [OF False] "2.prems" none show ?thesis
      by (auto simp: drop_aliases_def fun_eq_iff split: option.splits)
  qed
qed

lemma abs_cleanup:
  assumes "store_inv rs"
  shows "store_abs (cleanup_tick now rs) =
    spec_refresh (rs_healthTracker rs) now
      (spec_remove (expired_host (rs_healthTracker rs) now (store_abs rs)) (store_abs rs))"
proof -
  let ?gone = "expired_host (rs_healthTracker rs) now (store_abs rs)"
  have gone: "?gone = (\<lambda>h. case map_of (rs_records rs) h of None \<Rightarrow> False
      | Some r \<Rightarrow> ShouldExpire (rs_healthTracker rs) now r)"
    by (simp add: expired_host_def store_abs_def fun_eq_iff)
  show ?thesis
    using store_inv_wf [OF assms] unfolding gone
    by (auto simp: cleanup_tick_def store_abs_def spec_refresh_def spec_remove_def
        cleanup_loop_records cleanup_loop_aliases fun_eq_iff split: option.splits)
qed

lemma abs_MarkLost:
  "store_abs (MarkLost h rs) = (store_abs rs)\<lparr>ca_entries := (\<lambda>h'. map_option
     (\<lambda>r. if h' = h \<and> \<not> r_IsStatic r then r\<lparr>r_Status := StatusLost\<rparr> else r) (ca_entries (store_abs rs) h'))\<rparr>"
proof -
  have "map_of (rs_records (MarkLost h rs)) h' = map_option
      (\<lambda>r. if h' = h \<and> \<not> r_IsStatic r then r\<lparr>r_Status := StatusLost\<rparr> else r) (map_of (rs_records rs) h')" for h'
    by (cases "map_of (rs_records rs) h'"; cases "h' = h") (auto simp: MarkLost_def split: option.splits)
  moreover have "rs_aliasIndex (MarkLost h rs) = rs_aliasIndex rs"
    by (simp add: MarkLost_def split: option.splits)
  ultimately show ?thesis by (simp add: store_abs_def fun_eq_iff)
qed

section \<open>Every operation keeps the invariant\<close>

definition cache_inv :: "HealthTracker \<Rightarrow> cache \<Rightarrow> bool" where
  "cache_inv ht c \<longleftrightarrow>
     (\<forall>h r. ca_entries c h = Some r \<longrightarrow> r_Hostname r = h \<and> (r_IsStatic r \<longleftrightarrow> IsStatic ht h))
     \<and> (\<forall>a h. ca_aliases c a = Some h \<longrightarrow> (\<exists>r. ca_entries c h = Some r \<and> a \<in> set (r_Aliases r)))"

lemma store_inv_abs:
  "store_inv rs \<longleftrightarrow> gm_wf (rs_records rs) \<and> gm_wf (rs_aliasIndex rs)
     \<and> cache_inv (rs_healthTracker rs) (store_abs rs)"
  by (simp add: store_inv_iff cache_inv_def store_abs_def)

lemma stored_record_sel [simp]:
  "r_Hostname (stored_record ht ttl now r old) = r_Hostname r"
  "r_Aliases (stored_record ht ttl now r old) = r_Aliases r"
  "r_Addresses (stored_record ht ttl now r old) = r_Addresses r"
  "r_Services (stored_record ht ttl now r old) = r_Services r"
  "r_Timestamp (stored_record ht ttl now r old) = unix_secs now"
  "r_IsStatic (stored_record ht ttl now r old) = False"
  by (simp_all add: stored_record_def)

lemma cache_inv_add: "cache_inv ht c \<Longrightarrow> cache_inv ht (spec_add ht ttl now r c)"
  by (auto simp: cache_inv_def spec_add_def drop_aliases_def split: option.splits if_splits)

lemma cache_inv_remove: "cache_inv ht c \<Longrightarrow> cache_inv ht (spec_remove gone c)"
  by (auto simp: cache_inv_def spec_remove_def drop_aliases_def split: option.splits if_splits)

lemma cache_inv_map:
  assumes inv: "cache_inv ht c"
    and same: "\<And>h r. r_Hostname (f h r) = r_Hostname r \<and> r_IsStatic (f h r) = r_IsStatic r \<and> r_Aliases (f h r) = r_Aliases r"
  shows "cache_inv ht (c\<lparr>ca_entries := (\<lambda>h. map_option (f h) (ca_entries c h))\<rparr>)"
proof -
  have sel: "ca_entries (c\<lparr>ca_entries := E\<rparr>) = E" "ca_aliases (c\<lparr>ca_entries := E\<rparr>) = ca_aliases c" for E
    by simp_all
  show ?thesis unfolding cache_inv_def sel
  proof (intro conjI allI impI)
    fix h r assume "map_option (f h) (ca_entries c h) = Some r"
    then obtain r0 where r0: "ca_entries c h = Some r0" "r = f h r0" by auto
    with inv have "r_Hostname r0 = h \<and> (r_IsStatic r0 \<longleftrightarrow> IsStatic ht h)"
      unfolding cache_inv_def by blast
    with r0 same show "r_Hostname r = h" and "r_IsStatic r \<longleftrightarrow> IsStatic ht h" by simp_all
  next
    fix a h assume "ca_aliases c a = Some h"
    with inv obtain r where "ca_entries c h = Some r" "a \<in> set (r_Aliases r)"
      unfolding cache_inv_def by blast
    then show "\<exists>r. map_option (f h) (ca_entries c h) = Some r \<and> a \<in> set (r_Aliases r)"
      by (simp add: same)
  qed
qed

lemma cache_inv_refresh: "cache_inv ht c \<Longrightarrow> cache_inv ht (spec_refresh ht' now c)"
  unfolding spec_refresh_def by (rule cache_inv_map) simp_all

lemma cache_inv_mark:
  "cache_inv ht c \<Longrightarrow> cache_inv ht (c\<lparr>ca_entries := (\<lambda>h'. map_option
     (\<lambda>r. if P h' r then r\<lparr>r_Status := st\<rparr> else r) (ca_entries c h'))\<rparr>)"
  by (rule cache_inv_map) simp_all

lemma op_sel [simp]:
  "rs_healthTracker (Delete h rs) = rs_healthTracker rs"
  "rs_healthTracker (Forget h rs) = rs_healthTracker rs"
  "rs_healthTracker (MarkLost h rs) = rs_healthTracker rs"
  "rs_healthTracker (refresh_all now rs) = rs_healthTracker rs"
  "rs_healthTracker (cleanup_tick now rs) = rs_healthTracker rs"
  by (simp_all add: Delete_def Forget_def MarkLost_def refresh_all_def cleanup_tick_def Let_def
      split: option.splits)

lemma AddOrUpdate_inv:
  assumes "store_inv rs"
  shows "store_inv (AddOrUpdate now r rs)"
proof (cases "IsStatic (rs_healthTracker rs) (r_Hostname r)")
  case True
  with assms show ?thesis by (simp add: AddOrUpdate_static)
next
  case False
  have "gm_wf (rs_aliasIndex (removeAliasesForHost (r_Hostname r) rs))"
    using assms by (simp add: removeAliasesForHost_def store_inv_abs)
  with False assms show ?thesis
    by (simp add: store_inv_abs AddOrUpdate_records AddOrUpdate_aliases index_aliases_wf
        abs_AddOrUpdate [OF assms] cache_inv_add)
qed

lemma Delete_inv: "store_inv rs \<Longrightarrow> store_inv (Delete h rs)"
  by (simp add: store_inv_abs [of "Delete h rs"] abs_Delete cache_inv_remove)
    (simp add: store_inv_abs Delete_def removeAliasesForHost_def Let_def cache_inv_remove)

lemma Forget_wf:
  "gm_wf (rs_records rs) \<Longrightarrow> gm_wf (rs_aliasIndex rs) \<Longrightarrow>
   gm_wf (rs_records (Forget h rs)) \<and> gm_wf (rs_aliasIndex (Forget h rs))"
  by (simp add: Forget_def Let_def removeAliasesForHost_def split: option.splits)

lemma Forget_inv: "store_inv rs \<Longrightarrow> store_inv (Forget h rs)"
  using abs_Forget [of rs h] Forget_wf [of rs h]
  by (simp add: store_inv_abs cache_inv_remove split: if_splits)

lemma MarkLost_inv: "store_inv rs \<Longrightarrow> store_inv (MarkLost h rs)"
  by (simp add: store_inv_abs abs_MarkLost cache_inv_mark)
    (simp add: MarkLost_def split: option.splits)

lemma refresh_all_inv: "store_inv rs \<Longrightarrow> store_inv (refresh_all now rs)"
  by (simp add: store_inv_abs abs_refresh cache_inv_refresh) (simp add: refresh_all_def gm_wf_map_snd)

lemma cleanup_inv: "store_inv rs \<Longrightarrow> store_inv (cleanup_tick now rs)"
  using cleanup_loop_wf [of rs now "rs_records rs"]
  by (simp add: store_inv_abs [of "cleanup_tick now rs"] abs_cleanup)
    (simp add: store_inv_abs cleanup_tick_def cache_inv_refresh cache_inv_remove)

lemma reorder_inv:
  assumes "store_inv rs" and "reordered (rs_records rs) recs" and "reordered (rs_aliasIndex rs) idx"
  shows "store_inv (rs\<lparr>rs_records := recs, rs_aliasIndex := idx\<rparr>)"
  using assms reordered_map_of [OF assms(2)] reordered_map_of [OF assms(3)]
  by (simp add: store_inv_iff reordered_wf)

section \<open>Interleaved operations\<close>

text \<open>
  The daemon's goroutines (listener, socket handlers, DNS handlers, cleanup ticker) call the
  store in any order and at any time. One rule per operation that writes; the last rule lets Go
  visit the entries in another order next time. \<open>Delete\<close> is exported but called by no
  part of the program, so it is not a step.
\<close>

definition store_init :: "duration \<Rightarrow> HealthConfig \<Rightarrow> (string, StaticHost) gomap \<Rightarrow> RecordStore \<Rightarrow> bool" where
  "store_init ttl cfg hosts rs \<longleftrightarrow> gm_wf hosts \<and> rs = NewRecordStore ttl cfg hosts"

inductive store_step :: "RecordStore \<Rightarrow> RecordStore \<Rightarrow> bool" where
  st_add: "store_step rs (AddOrUpdate now r rs)"
| st_forget: "store_step rs (Forget h rs)"
| st_mark: "store_step rs (MarkLost h rs)"
| st_list: "store_step rs (fst (ListAll now rs))"
| st_dns: "store_step rs (fst (GetAllRecords now rs))"
| st_cleanup: "store_step rs (cleanup_tick now rs)"
| st_reorder: "reordered (rs_records rs) recs \<Longrightarrow> reordered (rs_aliasIndex rs) idx \<Longrightarrow>
    store_step rs (rs\<lparr>rs_records := recs, rs_aliasIndex := idx\<rparr>)"

inductive_cases store_stepE: "store_step rs rs'"

lemma ListAll_fst [simp]: "fst (ListAll now rs) = refresh_all now rs"
  by (simp add: ListAll_def Let_def)

lemma GetAllRecords_fst [simp]: "fst (GetAllRecords now rs) = refresh_all now rs"
  by (simp add: GetAllRecords_def Let_def)

lemma store_step_inv: "store_inv rs \<Longrightarrow> store_step rs rs' \<Longrightarrow> store_inv rs'"
  by (erule store_stepE)
    (auto intro: AddOrUpdate_inv Forget_inv MarkLost_inv refresh_all_inv cleanup_inv reorder_inv)

subsection \<open>The initial store\<close>

lemma NewHealthTracker_static:
  "gm_wf hosts \<Longrightarrow> map_of (ht_staticHosts (NewHealthTracker cfg hosts)) h =
     map_option (static_record h) (map_of hosts h)"
  by (simp add: NewHealthTracker_def gm_rebuild)

lemma GetStaticHosts_wf: "gm_wf hosts \<Longrightarrow> gm_wf (GetStaticHosts (NewHealthTracker cfg hosts))"
  by (simp add: GetStaticHosts_def NewHealthTracker_def gm_rebuild)

lemma GetStaticHosts_map_of:
  "gm_wf hosts \<Longrightarrow> map_of (GetStaticHosts (NewHealthTracker cfg hosts)) h = map_option (static_record h) (map_of hosts h)"
  using gm_rebuild(1) [where g = "\<lambda>k v. v" and m = "ht_staticHosts (NewHealthTracker cfg hosts)" and k = h]
    gm_rebuild(2) [where g = static_record and m = hosts]
  by (simp add: GetStaticHosts_def NewHealthTracker_static option.map_ident)
    (simp add: NewHealthTracker_def)

lemma load_static_sel [simp]:
  "rs_healthTracker (load_static xs rs) = rs_healthTracker rs"
  "rs_ttl (load_static xs rs) = rs_ttl rs"
  by (induction xs rs rule: load_static.induct) simp_all

lemma load_static_records:
  "rs_records (load_static xs rs) = fold (\<lambda>(h, r). AList.update h r) xs (rs_records rs)"
  by (induction xs rs rule: load_static.induct) simp_all

lemma load_static_aliases:
  "\<forall>(h, r) \<in> set xs. r_Aliases r = [] \<Longrightarrow> rs_aliasIndex (load_static xs rs) = rs_aliasIndex rs"
  by (induction xs rs rule: load_static.induct) (simp_all add: index_aliases_def)

lemma static_record_sel [simp]:
  "r_Hostname (static_record h sh) = h" "r_IsStatic (static_record h sh)"
  "r_Aliases (static_record h sh) = []" "r_Addresses (static_record h sh) = sth_Addresses sh"
  "r_Status (static_record h sh) = StatusStatic"
  "r_Services (static_record h sh) = static_services (sth_Services sh)"
  by (simp_all add: static_record_def zero_Record_def)

lemma NewRecordStore_sel:
  assumes "gm_wf hosts"
  shows "gm_wf (rs_records (NewRecordStore ttl cfg hosts))"
    and "map_of (rs_records (NewRecordStore ttl cfg hosts)) h = map_option (static_record h) (map_of hosts h)"
    and "rs_aliasIndex (NewRecordStore ttl cfg hosts) = []"
    and "rs_healthTracker (NewRecordStore ttl cfg hosts) = NewHealthTracker cfg hosts"
proof -
  let ?st = "GetStaticHosts (NewHealthTracker cfg hosts)"
  have wf: "gm_wf ?st" using assms by (rule GetStaticHosts_wf)
  have "\<forall>(h, r) \<in> set ?st. r_Aliases r = []"
    using GetStaticHosts_map_of [OF assms] wf by (fastforce simp: gm_in_iff)
  then show "rs_aliasIndex (NewRecordStore ttl cfg hosts) = []"
    by (simp add: NewRecordStore_def Let_def load_static_aliases)
  show "gm_wf (rs_records (NewRecordStore ttl cfg hosts))"
    using gm_rebuild(2) [OF wf, where g = "\<lambda>k v. v"]
    by (simp add: NewRecordStore_def Let_def load_static_records)
  show "map_of (rs_records (NewRecordStore ttl cfg hosts)) h = map_option (static_record h) (map_of hosts h)"
    using gm_rebuild(1) [OF wf, where g = "\<lambda>k v. v" and k = h] GetStaticHosts_map_of [OF assms]
    by (simp add: NewRecordStore_def Let_def load_static_records option.map_ident)
  show "rs_healthTracker (NewRecordStore ttl cfg hosts) = NewHealthTracker cfg hosts"
    by (simp add: NewRecordStore_def Let_def)
qed

lemma IsStatic_New: "gm_wf hosts \<Longrightarrow> IsStatic (NewHealthTracker cfg hosts) h \<longleftrightarrow> map_of hosts h \<noteq> None"
  by (simp add: IsStatic_def NewHealthTracker_static)

lemma store_init_inv: "store_init ttl cfg hosts rs \<Longrightarrow> store_inv rs"
  by (auto simp: store_init_def store_inv_iff NewRecordStore_sel IsStatic_New)

interpretation store_ts: transition_system "store_init ttl cfg hosts" store_step store_inv
  for ttl cfg hosts
  by unfold_locales (auto intro: store_init_inv store_step_inv)

section \<open>Lookups\<close>

lemma find_record_in:
  "find_record rs n = Some r \<Longrightarrow> \<exists>h. map_of (rs_records rs) h = Some r"
  by (auto simp: find_record_def split: option.splits)

lemma find_record_hostname: "map_of (rs_records rs) h = Some r \<Longrightarrow> find_record rs h = Some r"
  by (simp add: find_record_def)

lemma find_record_alias:
  "map_of (rs_records rs) a = None \<Longrightarrow> map_of (rs_aliasIndex rs) a = Some h \<Longrightarrow>
   find_record rs a = map_of (rs_records rs) h"
  by (simp add: find_record_def)

text \<open>A record is live when a lookup may serve it.\<close>

definition live :: "HealthTracker \<Rightarrow> time \<Rightarrow> Record \<Rightarrow> bool" where
  "live ht now r \<longleftrightarrow> r_IsStatic r \<or> record_age now r < hc_GracePeriod (ht_config ht)
     \<or> record_age now r < hc_ExpireAfter (ht_config ht)"

lemma live_iff: "live ht now r \<longleftrightarrow> r_IsStatic r \<or> ComputeStatus ht now r \<noteq> StatusLost"
  by (auto simp: live_def ComputeStatus_def Let_def)

lemma Get_eq: "Get rs now n =
    (case find_record rs n of None \<Rightarrow> None
     | Some r \<Rightarrow> if live (rs_healthTracker rs) now r then Some r else None)"
  by (auto simp: Get_def live_iff split: option.splits)

lemma Get_Some_iff:
  "Get rs now n = Some r \<longleftrightarrow> live (rs_healthTracker rs) now r
     \<and> (map_of (rs_records rs) n = Some r
        \<or> map_of (rs_records rs) n = None
           \<and> (\<exists>h. map_of (rs_aliasIndex rs) n = Some h \<and> map_of (rs_records rs) h = Some r))"
  by (auto simp: Get_eq find_record_def split: option.splits)

lemma Get_named:
  assumes inv: "store_inv rs" and get: "Get rs now n = Some r"
  shows "r \<in> snd ` set (rs_records rs) \<and> (r_Hostname r = n \<or> n \<in> set (r_Aliases r))"
proof -
  from get consider "map_of (rs_records rs) n = Some r"
    | h where "map_of (rs_aliasIndex rs) n = Some h" "map_of (rs_records rs) h = Some r"
    by (auto simp: Get_Some_iff)
  then show ?thesis
  proof cases
    case 1
    with store_inv_record [OF inv] show ?thesis by (force dest: map_of_SomeD)
  next
    case 2
    with store_inv_alias [OF inv] show ?thesis by (force dest: map_of_SomeD)
  qed
qed

lemma addr_loop_eq:
  "addr_loop ht now addr xs = find (\<lambda>r. live ht now r \<and> addr \<in> set (r_Addresses r)) (map snd xs)"
  by (induction ht now addr xs rule: addr_loop.induct) (auto simp: live_iff)

lemma ListRecords_eq: "ListRecords rs now = filter (live (rs_healthTracker rs) now) (map snd (rs_records rs))"
  by (simp add: ListRecords_def live_iff [abs_def])

lemma stored_alias:
  assumes "store_inv rs" and "\<not> IsStatic (rs_healthTracker rs) (r_Hostname r)" and "a \<in> set (r_Aliases r)"
  shows "map_of (rs_aliasIndex (AddOrUpdate now r rs)) a = Some (r_Hostname r)"
  using abs_AddOrUpdate [OF assms(1), of now r] assms(2,3)
  by (simp add: store_abs_def spec_add_def)

lemma static_services_map_of:
  "map_of (static_services svcs) = map_of (rev (map (\<lambda>svc. (shs_Name svc,
     if shs_Protocol svc = [] then ''tcp'' else shs_Protocol svc)) svcs))"
  unfolding static_services_def
  using gm.look_fold [where f = shs_Name and xs = svcs and s = "[]"
      and g = "\<lambda>svc. if shs_Protocol svc = [] then ''tcp'' else shs_Protocol svc"] by simp

section \<open>The interface of the cache\<close>

text \<open>
  What the socket server, the DNS server and the daemon rely on: an announced host is served
  until its lifetime is over, an alias that is no host name leads to its last announcer, a
  configured host is not changed by announcements, and a forgotten host is gone.
\<close>

locale name_cache =
  fixes get :: "'s \<Rightarrow> time \<Rightarrow> string \<Rightarrow> Record option"
    and hosts :: "'s \<Rightarrow> string \<Rightarrow> Record option"
    and announce :: "time \<Rightarrow> Record \<Rightarrow> 's \<Rightarrow> 's"
    and forget :: "string \<Rightarrow> 's \<Rightarrow> 's"
    and static :: "'s \<Rightarrow> string \<Rightarrow> bool"
    and lifetime :: "'s \<Rightarrow> duration"
    and inv :: "'s \<Rightarrow> bool"
  assumes announced: "inv s \<Longrightarrow> \<not> static s (r_Hostname r) \<Longrightarrow>
      time_Sub now' (time_Unix (unix_secs now)) < lifetime s \<Longrightarrow>
      \<exists>r'. get (announce now r s) now' (r_Hostname r) = Some r' \<and> r_Hostname r' = r_Hostname r
        \<and> r_Addresses r' = r_Addresses r \<and> r_Services r' = r_Services r
        \<and> (\<forall>a \<in> set (r_Aliases r). hosts s a = None \<longrightarrow> get (announce now r s) now' a = Some r')"
    and announce_static: "static s (r_Hostname r) \<Longrightarrow> announce now r s = s"
    and forgotten: "inv s \<Longrightarrow> \<not> static s h \<Longrightarrow> hosts (forget h s) h = None"
    and forget_frame: "inv s \<Longrightarrow> h' \<noteq> h \<Longrightarrow> hosts (forget h s) h' = hosts s h'"
    and get_hostname: "inv s \<Longrightarrow> get s now n = Some r \<Longrightarrow> hosts s (r_Hostname r) = Some r"
    and inv_announce: "inv s \<Longrightarrow> inv (announce now r s)"
    and inv_forget: "inv s \<Longrightarrow> inv (forget h s)"
begin

lemma forgotten_not_served:
  assumes "inv s" and "\<not> static s h" and "get (forget h s) now n = Some r"
  shows "r_Hostname r \<noteq> h"
  using get_hostname [OF inv_forget [OF assms(1)] assms(3)] forgotten [OF assms(1,2)] by auto

lemma alias_moves:
  assumes "inv s" and "\<not> static s (r_Hostname r)" and "a \<in> set (r_Aliases r)" and "hosts s a = None"
    and "time_Sub now' (time_Unix (unix_secs now)) < lifetime s"
  shows "\<exists>r'. get (announce now r s) now' a = Some r' \<and> r_Hostname r' = r_Hostname r
      \<and> r_Addresses r' = r_Addresses r"
  using announced [OF assms(1,2,5)] assms(3,4) by auto

end

lemma store_get_announced:
  assumes inv: "store_inv rs" and dyn: "\<not> IsStatic (rs_healthTracker rs) (r_Hostname r)"
    and age: "time_Sub now' (time_Unix (unix_secs now)) < hc_ExpireAfter (ht_config (rs_healthTracker rs))"
  defines "r' \<equiv> stored_record (rs_healthTracker rs) (rs_ttl rs) now r (map_of (rs_records rs) (r_Hostname r))"
  shows "Get (AddOrUpdate now r rs) now' (r_Hostname r) = Some r'"
    and "a \<in> set (r_Aliases r) \<Longrightarrow> map_of (rs_records rs) a = None \<Longrightarrow>
      Get (AddOrUpdate now r rs) now' a = Some r'"
proof -
  have entry: "map_of (rs_records (AddOrUpdate now r rs)) h =
      (if h = r_Hostname r then Some r' else map_of (rs_records rs) h)" for h
    using dyn by (simp add: AddOrUpdate_records r'_def)
  have live: "live (rs_healthTracker rs) now' r'"
    using age by (simp add: live_def record_age_def r'_def)
  show "Get (AddOrUpdate now r rs) now' (r_Hostname r) = Some r'"
    using live by (simp add: Get_eq find_record_hostname entry)
  show "Get (AddOrUpdate now r rs) now' a = Some r'"
    if "a \<in> set (r_Aliases r)" "map_of (rs_records rs) a = None"
  proof (cases "a = r_Hostname r")
    case True
    with live show ?thesis by (simp add: Get_eq find_record_hostname entry)
  next
    case False
    with that have "find_record (AddOrUpdate now r rs) a = Some r'"
      using stored_alias [OF inv dyn that(1)] by (simp add: find_record_alias entry)
    with live show ?thesis by (simp add: Get_eq)
  qed
qed

interpretation cache: name_cache Get "\<lambda>rs. map_of (rs_records rs)" AddOrUpdate Forget
  "\<lambda>rs. IsStatic (rs_healthTracker rs)" "\<lambda>rs. hc_ExpireAfter (ht_config (rs_healthTracker rs))" store_inv
proof
  fix s h assume inv: "store_inv s" and "\<not> IsStatic (rs_healthTracker s) h"
  then show "map_of (rs_records (Forget h s)) h = None"
    using abs_Forget [OF inv, of h] by (simp add: store_abs_def spec_remove_def)
next
  fix s h h' assume inv: "store_inv s" and "(h'::string) \<noteq> h"
  then show "map_of (rs_records (Forget h s)) h' = map_of (rs_records s) h'"
    using abs_Forget [OF inv, of h] by (simp add: store_abs_def spec_remove_def fun_eq_iff split: if_splits)
next
  fix s now n r assume inv: "store_inv s" and "Get s now n = Some r"
  then obtain h where "map_of (rs_records s) h = Some r"
    by (auto simp: Get_eq dest: find_record_in split: option.splits if_splits)
  with inv show "map_of (rs_records s) (r_Hostname r) = Some r"
    using store_inv_record by blast
qed (use store_get_announced in \<open>fastforce\<close>, simp_all add: AddOrUpdate_static AddOrUpdate_inv Forget_inv)

section \<open>Configured hosts\<close>

definition static_inv :: "(string, StaticHost) gomap \<Rightarrow> RecordStore \<Rightarrow> bool" where
  "static_inv hosts rs \<longleftrightarrow> store_inv rs
     \<and> (\<forall>h sh. map_of hosts h = Some sh \<longrightarrow> map_of (rs_records rs) h = Some (static_record h sh))"

lemma Update_static [simp]: "UpdateRecordStatus ht now (static_record h sh) = static_record h sh"
  by (simp add: UpdateRecordStatus_def ComputeStatus_def static_record_def zero_Record_def)

lemma store_step_static:
  assumes "store_step rs rs'" and inv: "store_inv rs"
    and rec: "map_of (rs_records rs) h = Some (static_record h sh)"
  shows "map_of (rs_records rs') h = Some (static_record h sh)"
proof -
  have st: "IsStatic (rs_healthTracker rs) h"
    using store_inv_record [OF inv rec] by simp
  from assms(1) show ?thesis
  proof cases
    case (st_add now r)
    with st rec show ?thesis
      by (cases "IsStatic (rs_healthTracker rs) (r_Hostname r)")
        (auto simp: AddOrUpdate_static AddOrUpdate_records)
  next
    case (st_forget h')
    with rec show ?thesis
      using cache.forget_frame [OF inv, of h h'] by (cases "h = h'") (simp_all add: Forget_def)
  next
    case (st_mark h')
    then show ?thesis
      using abs_MarkLost [of h' rs] rec by (simp add: store_abs_def fun_eq_iff)
  next
    case (st_reorder recs idx)
    with rec show ?thesis
      using reordered_map_of [OF st_reorder(2)] store_inv_wf [OF inv] by simp
  next
    case (st_cleanup now)
    with rec show ?thesis
      using store_inv_wf [OF inv] by (simp add: cleanup_tick_def cleanup_loop_records ShouldExpire_def)
  qed (simp_all add: refresh_all_def map_of_map_snd rec)
qed

interpretation static_ts: transition_system "store_init ttl cfg hosts" store_step "static_inv hosts"
  for ttl cfg hosts
proof
  show "static_inv hosts s" if "store_init ttl cfg hosts s" for s
    using that store_init_inv [OF that] by (auto simp: static_inv_def store_init_def NewRecordStore_sel)
  show "static_inv hosts t" if "static_inv hosts s" "store_step s t" for s t
    using that store_step_inv store_step_static unfolding static_inv_def by blast
qed

section \<open>Properties\<close>

definition demo_health :: HealthConfig where
  "demo_health = \<lparr>hc_GracePeriod = 60 * Second, hc_ExpireAfter = Hour, hc_CleanupInterval = 30 * Second\<rparr>"

definition demo_hosts :: "(string, StaticHost) gomap" where
  "demo_hosts = [(''printer'', \<lparr>sth_Addresses = [''10.0.0.9''], sth_Services = []\<rparr>)]"

definition demo_record :: Record where
  "demo_record = zero_Record\<lparr>r_Hostname := ''web1'', r_Aliases := [''www''], r_Addresses := [''10.0.0.5'']\<rparr>"

definition demo_store :: RecordStore where
  "demo_store = AddOrUpdate (1000 * Second) demo_record (NewRecordStore Hour demo_health demo_hosts)"

lemma demo_reach: "reach (store_init Hour demo_health demo_hosts) store_step demo_store"
  unfolding demo_store_def
proof (rule reach_step)
  show "reach (store_init Hour demo_health demo_hosts) store_step (NewRecordStore Hour demo_health demo_hosts)"
    by (rule reach_init) (simp add: store_init_def demo_hosts_def)
qed (rule store_step.st_add)

text \<open>C12: whatever operations are interleaved, the cache stays well-formed: one record per host
  name, stored under its own name, static exactly for the configured hosts, and every entry of
  the alias index leads to a record that lists the alias.\<close>

theorem store_reachable_inv:
  assumes "reach (store_init ttl cfg hosts) store_step rs"
  shows "store_inv rs"
  using assms by (rule store_ts.reach_inv)

theorem store_reachable_inv_witness: "store_inv demo_store"
  by (rule store_reachable_inv [OF demo_reach])

text \<open>a configured (static) host is served with its configured addresses at every time and
  after any sequence of announcements, cleanups and administrative commands.\<close>

theorem static_host_always_served:
  assumes "reach (store_init ttl cfg hosts) store_step rs" and "map_of hosts h = Some sh"
  shows "Get rs now h = Some (static_record h sh) \<and> r_Addresses (static_record h sh) = sth_Addresses sh"
  using static_ts.reach_inv [OF assms(1)] assms(2)
  by (simp add: static_inv_def Get_eq find_record_hostname live_def)

theorem static_host_always_served_witness:
  "Get demo_store (10 ^ 20) ''printer'' = Some (static_record ''printer'' (snd (hd demo_hosts)))"
  using static_host_always_served [OF demo_reach, where h = "''printer''"]
  by (simp add: demo_hosts_def)

text \<open>C13: after an announcement of a host that is not configured, a lookup of its name finds
  the announced addresses and services as long as the record is younger than
  \<^verbatim>\<open>expire_after\<close>, keeps the time it was first seen, and a lookup of one of its aliases
  finds the same record unless the alias is itself a host name.\<close>

theorem announced_host_resolves:
  assumes "store_inv rs" and "\<not> IsStatic (rs_healthTracker rs) (r_Hostname r)"
    and "time_Sub now' (time_Unix (unix_secs now)) < hc_ExpireAfter (ht_config (rs_healthTracker rs))"
  shows "\<exists>r'. Get (AddOrUpdate now r rs) now' (r_Hostname r) = Some r'
     \<and> r_Addresses r' = r_Addresses r \<and> r_Services r' = r_Services r
     \<and> r_FirstSeen r' = (case map_of (rs_records rs) (r_Hostname r) of
          Some old \<Rightarrow> r_FirstSeen old | None \<Rightarrow> unix_secs now)
     \<and> (\<forall>a \<in> set (r_Aliases r). map_of (rs_records rs) a = None \<longrightarrow>
          Get (AddOrUpdate now r rs) now' a = Some r')"
  using store_get_announced [OF assms]
  by (intro exI conjI ballI impI) (assumption | simp add: stored_record_def)+

lemma demo_new:
  "store_inv (NewRecordStore Hour demo_health demo_hosts)"
  "rs_healthTracker (NewRecordStore Hour demo_health demo_hosts) = NewHealthTracker demo_health demo_hosts"
  "map_of (rs_records (NewRecordStore Hour demo_health demo_hosts)) ''www'' = None"
  "\<not> IsStatic (NewHealthTracker demo_health demo_hosts) ''web1''"
  "hc_ExpireAfter (ht_config (NewHealthTracker demo_health demo_hosts)) = Hour"
  using store_init_inv [of "Hour" demo_health demo_hosts]
  by (simp_all add: store_init_def demo_hosts_def demo_health_def NewRecordStore_sel NewHealthTracker_def IsStatic_def)

theorem announced_host_resolves_witness:
  "\<exists>r'. Get demo_store (1030 * Second) ''www'' = Some r' \<and> r_Addresses r' = [''10.0.0.5'']"
proof -
  have "r_Hostname demo_record = ''web1''" "r_Aliases demo_record = [''www'']"
    "r_Addresses demo_record = [''10.0.0.5'']"
    by (simp_all add: demo_record_def)
  then show ?thesis
    using announced_host_resolves [of "NewRecordStore Hour demo_health demo_hosts" demo_record
        "1030 * Second" "1000 * Second"]
    by (auto simp: demo_store_def demo_new time_Sub_def clamp64_def time_Unix_def unix_secs_def)
qed

text \<open>C14: a lookup answers exactly with the live record it should.  A record is live when it
  is static or younger than the grace period or \<^verbatim>\<open>expire_after\<close>.  A lookup by name returns
  a record if and only if that record is live and is the one stored under the name or, when no
  host has the name, the one stored under the host the alias index leads to; in a well-formed
  store the record found has the name as its host name or as one of its announced aliases.  A
  lookup by address returns only live records with the address, and fails only when there is
  none.  A listing holds exactly the live records.\<close>

theorem only_live_records_served:
  assumes "store_inv rs"
  shows "(Get rs now n = Some r \<longleftrightarrow> live (rs_healthTracker rs) now r
      \<and> (map_of (rs_records rs) n = Some r
         \<or> map_of (rs_records rs) n = None
            \<and> (\<exists>h. map_of (rs_aliasIndex rs) n = Some h \<and> map_of (rs_records rs) h = Some r)))
   \<and> (Get rs now n = Some r \<longrightarrow> r \<in> snd ` set (rs_records rs) \<and> (r_Hostname r = n \<or> n \<in> set (r_Aliases r)))
   \<and> (GetByAddr rs now addr = Some r' \<longrightarrow> live (rs_healthTracker rs) now r' \<and> addr \<in> set (r_Addresses r')
        \<and> r' \<in> snd ` set (rs_records rs))
   \<and> (GetByAddr rs now addr = None \<longleftrightarrow>
        (\<forall>x \<in> snd ` set (rs_records rs). \<not> (live (rs_healthTracker rs) now x \<and> addr \<in> set (r_Addresses x))))
   \<and> set (ListRecords rs now) = {x \<in> snd ` set (rs_records rs). live (rs_healthTracker rs) now x}"
proof (intro conjI impI)
  show "Get rs now n = Some r \<longleftrightarrow> live (rs_healthTracker rs) now r
      \<and> (map_of (rs_records rs) n = Some r
         \<or> map_of (rs_records rs) n = None
            \<and> (\<exists>h. map_of (rs_aliasIndex rs) n = Some h \<and> map_of (rs_records rs) h = Some r))"
    by (rule Get_Some_iff)
next
  assume "Get rs now n = Some r"
  from Get_named [OF assms this]
  show "r \<in> snd ` set (rs_records rs)" and "r_Hostname r = n \<or> n \<in> set (r_Aliases r)" by simp_all
next
  assume "GetByAddr rs now addr = Some r'"
  from find_SomeD [OF this [unfolded GetByAddr_def addr_loop_eq]]
  show "live (rs_healthTracker rs) now r'" and "addr \<in> set (r_Addresses r')"
    and "r' \<in> snd ` set (rs_records rs)" by simp_all
qed (simp_all add: GetByAddr_def addr_loop_eq find_None_iff ListRecords_eq)

text \<open>The demonstration store, evaluated.\<close>

lemma demo_store_eval:
  "demo_store = \<lparr>rs_records = [(''printer'', static_record ''printer'' (snd (hd demo_hosts))),
       (''web1'', demo_record\<lparr>r_TTL := 3600, r_FirstSeen := 1000, r_Timestamp := 1000, r_Status := StatusHealthy\<rparr>)],
     rs_aliasIndex = [(''www'', ''web1'')], rs_ttl = Hour,
     rs_healthTracker = \<lparr>ht_config = demo_health,
       ht_staticHosts = [(''printer'', static_record ''printer'' (snd (hd demo_hosts)))]\<rparr>\<rparr>"
  by (simp add: demo_store_def demo_hosts_def demo_health_def demo_record_def NewRecordStore_def
      NewHealthTracker_def GetStaticHosts_def AddOrUpdate_def IsStatic_def index_aliases_def
      UpdateRecordStatus_def ComputeStatus_def record_age_def time_Sub_def clamp64_def time_Unix_def
      unix_secs_def dur_secs_nonneg Let_def zero_Record_def)

theorem only_live_records_served_witness:
  "(\<exists>r. Get demo_store (1030 * Second) ''www'' = Some r \<and> r_Hostname r = ''web1'')
   \<and> Get demo_store (5000 * Second) ''www'' = None"
proof -
  let ?r = "demo_record\<lparr>r_TTL := 3600, r_FirstSeen := 1000, r_Timestamp := 1000, r_Status := StatusHealthy\<rparr>"
  have served: "Get demo_store now ''www'' = Some r \<longleftrightarrow> live (rs_healthTracker demo_store) now r \<and> r = ?r" for now r
    using only_live_records_served [OF store_ts.reach_inv [OF demo_reach], of now "''www''" r]
    by (auto simp: demo_store_eval)
  have young: "Get demo_store (1030 * Second) ''www'' = Some ?r"
    by (subst served) (simp add: demo_store_eval live_def record_age_def time_Sub_def clamp64_def time_Unix_def
        demo_health_def)
  have "\<not> live (rs_healthTracker demo_store) (5000 * Second) ?r"
    by (simp add: demo_store_eval live_def record_age_def time_Sub_def clamp64_def time_Unix_def
        demo_health_def demo_record_def zero_Record_def)
  then have "Get demo_store (5000 * Second) ''www'' \<noteq> Some r" for r
    by (subst served) blast
  moreover have "r_Hostname ?r = ''web1''"
    by (simp add: demo_record_def)
  ultimately show ?thesis
    using young by (intro conjI exI [of _ ?r]) (assumption | simp only: | (meson not_Some_eq))+
qed

text \<open>C9: one cleanup tick is exactly the pointwise operation on the abstract cache: the
  expired hosts and all their aliases disappear, every other record stays with its status
  recomputed, and no other alias is touched.\<close>

theorem cleanup_tick_refines:
  assumes "store_inv rs"
  shows "store_abs (cleanup_tick now rs) =
    spec_refresh (rs_healthTracker rs) now
      (spec_remove (expired_host (rs_healthTracker rs) now (store_abs rs)) (store_abs rs))"
  using assms by (rule abs_cleanup)

lemma demo_expired: "expired_host (rs_healthTracker demo_store) (5000 * Second) (store_abs demo_store) ''web1''"
  by (simp add: demo_store_eval expired_host_def store_abs_def ShouldExpire_def record_age_def
      time_Sub_def clamp64_def time_Unix_def demo_record_def demo_health_def zero_Record_def)

theorem cleanup_tick_refines_witness:
  "ca_entries (store_abs (cleanup_tick (5000 * Second) demo_store)) ''web1'' = None"
  using cleanup_tick_refines [OF store_ts.reach_inv [OF demo_reach], of "5000 * Second"] demo_expired
  by (simp add: spec_refresh_def spec_remove_def)

text \<open>C4: an announcement is exactly the abstract update: it overwrites the host's entry,
  moves the announced aliases to the host, drops the host's former aliases and touches nothing
  else; for a configured host it changes nothing.\<close>

theorem announcement_refines:
  assumes "store_inv rs"
  shows "store_abs (AddOrUpdate now r rs) = spec_add (rs_healthTracker rs) (rs_ttl rs) now r (store_abs rs)"
  using assms by (rule abs_AddOrUpdate)

theorem announcement_refines_witness:
  "ca_aliases (store_abs (AddOrUpdate 0 (zero_Record\<lparr>r_Hostname := ''web1''\<rparr>) demo_store)) ''www'' = None"
  using announcement_refines [OF store_ts.reach_inv [OF demo_reach], of 0 "zero_Record\<lparr>r_Hostname := ''web1''\<rparr>"]
  by (simp add: spec_add_def drop_aliases_def)
    (simp add: demo_store_eval IsStatic_def store_abs_def zero_Record_def)

definition status_rank :: "HostStatus \<Rightarrow> nat" where
  "status_rank st = (if st = StatusLost then 2 else if st = StatusStale then 1 else 0)"

lemma record_age_mono: "now \<le> now' \<Longrightarrow> record_age now r \<le> record_age now' r"
  by (simp add: record_age_def time_Sub_def clamp64_mono)

text \<open>while no announcement arrives, the health of a record only gets worse as the clock
  advances: healthy, then stale, then lost, never back.\<close>

theorem status_never_recovers:
  assumes "now \<le> now'"
  shows "status_rank (ComputeStatus ht now r) \<le> status_rank (ComputeStatus ht now' r)"
  using record_age_mono [OF assms, of r]
  by (auto simp: ComputeStatus_def status_rank_def Let_def)

theorem status_never_recovers_witness:
  "status_rank (ComputeStatus (rs_healthTracker demo_store) (1030 * Second) demo_record)
     \<le> status_rank (ComputeStatus (rs_healthTracker demo_store) (5000 * Second) demo_record)"
  by (rule status_never_recovers) simp

lemma map_update_absorb:
  assumes "\<And>r. f h (g r) = f h r" and "map_of recs h = Some r" and "gm_wf recs"
  shows "map (\<lambda>(k, v). (k, f k v)) (AList.update h (g r) recs) = map (\<lambda>(k, v). (k, f k v)) recs"
  using assms(2,3)
proof (induction recs)
  case Nil
  then show ?case by simp
next
  case (Cons e recs)
  then show ?case using assms(1) by (cases e) (auto split: if_splits)
qed

lemma refresh_MarkLost:
  assumes "gm_wf (rs_records rs)"
  shows "refresh_all now (MarkLost h rs) = refresh_all now rs"
proof (cases "map_of (rs_records rs) h")
  case None
  then show ?thesis by (simp add: MarkLost_def)
next
  case (Some r)
  show ?thesis
    using map_update_absorb [where f = "\<lambda>k. UpdateRecordStatus (rs_healthTracker rs) now"
        and g = "\<lambda>r. r\<lparr>r_Status := StatusLost\<rparr>", OF _ Some assms]
    by (simp add: MarkLost_def Some refresh_all_def)
qed

definition mark_record :: "string \<Rightarrow> string \<Rightarrow> Record \<Rightarrow> Record" where
  "mark_record h h' r = (if h' = h \<and> \<not> r_IsStatic r then r\<lparr>r_Status := StatusLost\<rparr> else r)"

lemma MarkLost_entries: "map_of (rs_records (MarkLost h rs)) h' = map_option (mark_record h h') (map_of (rs_records rs) h')"
  using abs_MarkLost [of h rs] by (simp add: store_abs_def mark_record_def [abs_def] fun_eq_iff)

lemma MarkLost_aliases [simp]: "rs_aliasIndex (MarkLost h rs) = rs_aliasIndex rs"
  by (simp add: MarkLost_def split: option.splits)

lemma mark_record_sel [simp]:
  "r_IsStatic (mark_record h h' r) = r_IsStatic r" "r_Timestamp (mark_record h h' r) = r_Timestamp r"
  "r_Addresses (mark_record h h' r) = r_Addresses r"
  "UpdateRecordStatus ht now (mark_record h h' r) = UpdateRecordStatus ht now r"
  by (simp_all add: mark_record_def)

lemma mark_record_age [simp]:
  "live ht now (mark_record h h' r) = live ht now r"
  "ShouldExpire ht now (mark_record h h' r) = ShouldExpire ht now r"
  by (simp_all add: live_def ShouldExpire_def record_age_def)

lemma MarkLost_cleanup:
  assumes "store_inv rs"
  shows "store_abs (cleanup_tick now (MarkLost h rs)) = store_abs (cleanup_tick now rs)"
proof -
  have "expired_host ht now (store_abs (MarkLost h rs)) = expired_host ht now (store_abs rs)" for ht
    by (auto simp: expired_host_def store_abs_def MarkLost_entries fun_eq_iff split: option.splits)
  then have "store_abs (cleanup_tick now (MarkLost h rs)) = spec_refresh (rs_healthTracker rs) now
      (spec_remove (expired_host (rs_healthTracker rs) now (store_abs rs)) (store_abs (MarkLost h rs)))"
    using abs_cleanup [OF MarkLost_inv [OF assms]] by simp
  also have "\<dots> = spec_refresh (rs_healthTracker rs) now
      (spec_remove (expired_host (rs_healthTracker rs) now (store_abs rs)) (store_abs rs))"
    by (auto simp: spec_refresh_def spec_remove_def store_abs_def MarkLost_entries
        option.map_comp o_def fun_eq_iff)
  finally show ?thesis using abs_cleanup [OF assms] by simp
qed

lemma MarkLost_Get:
  "map_option r_Addresses (Get (MarkLost h rs) now n) = map_option r_Addresses (Get rs now n)"
  by (auto simp: Get_eq find_record_def MarkLost_entries split: option.splits)

text \<open>\<^verbatim>\<open>hosts mark-lost\<close> never takes a host out of service. The mark is overwritten by
  the next listing, DNS query or cleanup, whose results are the same as without it, and the
  lookups by name give the same addresses, since they grade a record by its age only.\<close>

theorem mark_lost_has_no_effect:
  assumes "store_inv rs"
  shows "ListAll now (MarkLost h rs) = ListAll now rs
    \<and> GetAllRecords now (MarkLost h rs) = GetAllRecords now rs
    \<and> store_abs (cleanup_tick now (MarkLost h rs)) = store_abs (cleanup_tick now rs)
    \<and> map_option r_Addresses (Get (MarkLost h rs) now n) = map_option r_Addresses (Get rs now n)"
  using refresh_MarkLost [of rs now h] store_inv_wf [OF assms] MarkLost_cleanup [OF assms] MarkLost_Get
  by (simp add: ListAll_def GetAllRecords_def)

theorem mark_lost_has_no_effect_witness:
  "map_option r_Addresses (Get (MarkLost ''web1'' demo_store) (1030 * Second) ''web1'') = Some [''10.0.0.5'']
   \<and> snd (ListAll (1030 * Second) (MarkLost ''web1'' demo_store)) = snd (ListAll (1030 * Second) demo_store)"
proof -
  have "map_option r_Addresses (Get demo_store (1030 * Second) ''web1'') = Some [''10.0.0.5'']"
    by (simp add: demo_store_eval Get_def find_record_def ComputeStatus_def record_age_def time_Sub_def
        clamp64_def time_Unix_def demo_record_def demo_health_def Let_def)
  then show ?thesis
    using mark_lost_has_no_effect [OF store_ts.reach_inv [OF demo_reach], of "1030 * Second" "''web1''" "''web1''"]
    by simp
qed

text \<open>Go's choice of iteration order has no influence on a lookup by name, on which
  records a listing holds, or on whether an address is known.\<close>

theorem lookups_order_independent:
  assumes "store_inv rs" and "reordered (rs_records rs) recs" and "reordered (rs_aliasIndex rs) idx"
    and "rs' = rs\<lparr>rs_records := recs, rs_aliasIndex := idx\<rparr>"
  shows "Get rs' now n = Get rs now n \<and> mset (ListRecords rs' now) = mset (ListRecords rs now)
    \<and> (GetByAddr rs' now addr = None \<longleftrightarrow> GetByAddr rs now addr = None)"
proof -
  have "map_of recs = map_of (rs_records rs)" "map_of idx = map_of (rs_aliasIndex rs)"
    using reordered_map_of [OF assms(2)] reordered_map_of [OF assms(3)] store_inv_wf [OF assms(1)] by simp_all
  then have "find_record rs' n = find_record rs n"
    by (simp add: find_record_def assms(4) cong: option.case_cong)
  moreover have "mset recs = mset (rs_records rs)" using assms(2) by (simp add: reordered_def)
  moreover from this have "set recs = set (rs_records rs)" by (rule mset_eq_setD)
  ultimately show ?thesis
    by (simp add: Get_eq ListRecords_eq GetByAddr_def addr_loop_eq find_None_iff mset_filter assms(4)
        cong: option.case_cong)
qed

theorem lookups_order_independent_witness:
  "Get (demo_store\<lparr>rs_records := rev (rs_records demo_store), rs_aliasIndex := rs_aliasIndex demo_store\<rparr>)
     0 ''www'' = Get demo_store 0 ''www''"
  using lookups_order_independent [OF store_ts.reach_inv [OF demo_reach],
      of "rev (rs_records demo_store)" "rs_aliasIndex demo_store" _ 0 "''www''"]
  by (simp add: reordered_def)

end
