(* ===== verification/Signing.thy ===== *)
theory Signing
  imports Disco_Prelude
begin

unbundle bit_operations_syntax

text \<open>
  Message authentication (\<^verbatim>\<open>internal/security/signing.go\<close>) and the key files of the
  command line (\<^verbatim>\<open>cmd/disco/internal/keys/keys.go\<close>).

  HMAC-SHA256 is an argument \<open>hm\<close> of the definitions, a function of the key and the bytes;
  no theorem needs a property of it. Random bytes are the result of the reads from
  \<^verbatim>\<open>crypto/rand\<close>, bytes or the text of an error. Encoding and decoding a key file are
  arguments as well. \<^verbatim>\<open>os.Stat\<close> and \<^verbatim>\<open>os.ReadFile\<close> are arguments where
  their errors matter, and functions of an explicit file system in the round trip.
\<close>

section \<open>Data\<close>

definition keySize :: nat where "keySize = 32"
definition nonceSize :: nat where "nonceSize = 16"
definition replayTTL :: int where "replayTTL = 300"

record MessageSecurity =
  ms_Signature :: string
  ms_Signer :: string
  ms_Nonce :: string
  ms_Timestamp :: int

record KeyManager =
  km_sharedSecret :: string
  km_nodeID :: string
  km_trustedPeers :: "(string, string) gomap"
  km_keyPath :: string

text \<open>The two generations of key file fields, as \<^verbatim>\<open>parseKeyData\<close> declares them.\<close>

record KeyFile =
  kf_PublicKey :: string
  kf_PrivateKey :: string
  kf_SharedSecret :: string
  kf_NodeID :: string
  kf_TrustedPeers :: "(string, string) gomap"
  kf_PublicKeys :: "string list"

datatype stat_result = StatOk int | StatNotExist | StatError string
type_synonym read_result = "string + string"

text \<open>\<^verbatim>\<open>hex.EncodeToString\<close>, and the octal verb of \<^verbatim>\<open>fmt\<close>.\<close>

definition hex_digit :: "nat \<Rightarrow> char" where
  "hex_digit n = (if n < 10 then char_of (48 + n) else char_of (87 + n))"

definition EncodeToString :: "string \<Rightarrow> string" where
  "EncodeToString bs = concat (map (\<lambda>c. [hex_digit (of_char c div 16), hex_digit (of_char c mod 16)]) bs)"

fun oct_nat :: "nat \<Rightarrow> string" where
  "oct_nat n = (if n < 8 then [char_of (48 + n)] else oct_nat (n div 8) @ [char_of (48 + n mod 8)])"

declare oct_nat.simps [simp del]

section \<open>Key manager\<close>

definition parseKeyData :: "(string \<Rightarrow> string + KeyFile) \<Rightarrow> string \<Rightarrow> KeyManager \<Rightarrow> string + KeyManager" where
  "parseKeyData unmarshal data km =
     (case unmarshal data of
        Inl err \<Rightarrow> Inl (''failed to parse keys file: '' @ err)
      | Inr keys \<Rightarrow>
          Inr (if kf_SharedSecret keys \<noteq> [] then
            km\<lparr>km_sharedSecret := kf_SharedSecret keys, km_nodeID := kf_NodeID keys,
               km_trustedPeers :=
                 fold (\<lambda>(nodeID, secret). AList.update nodeID secret) (kf_TrustedPeers keys) (km_trustedPeers km)\<rparr>
          else
            km\<lparr>km_sharedSecret := kf_PrivateKey keys, km_nodeID := kf_PublicKey keys,
               km_trustedPeers :=
                 fold (\<lambda>pubKey. AList.update pubKey (kf_PrivateKey keys)) (kf_PublicKeys keys) (km_trustedPeers km)\<rparr>))"

definition generateKeys :: "read_result \<Rightarrow> read_result \<Rightarrow> KeyManager \<Rightarrow> string + KeyManager" where
  "generateKeys rnd1 rnd2 km =
     (case rnd1 of
        Inl err \<Rightarrow> Inl (''failed to generate shared secret: '' @ err)
      | Inr sharedSecret \<Rightarrow>
          (case rnd2 of
             Inl err \<Rightarrow> Inl (''failed to generate node ID: '' @ err)
           | Inr nodeID \<Rightarrow>
               Inr (km\<lparr>km_sharedSecret := EncodeToString sharedSecret, km_nodeID := EncodeToString nodeID,
                       km_trustedPeers := AList.update (EncodeToString nodeID) (EncodeToString sharedSecret)
                         (km_trustedPeers km)\<rparr>)))"

definition loadOrGenerateKeys ::
  "(string \<Rightarrow> read_result) \<Rightarrow> (string \<Rightarrow> string + KeyFile) \<Rightarrow> read_result \<Rightarrow> read_result
     \<Rightarrow> KeyManager \<Rightarrow> string + KeyManager" where
  "loadOrGenerateKeys readFile unmarshal rnd1 rnd2 km =
     (if km_keyPath km = [] then generateKeys rnd1 rnd2 km
      else (case readFile (km_keyPath km) of
              Inl _ \<Rightarrow> generateKeys rnd1 rnd2 km
            | Inr data \<Rightarrow> parseKeyData unmarshal data km))"

definition NewKeyManager ::
  "(string \<Rightarrow> read_result) \<Rightarrow> (string \<Rightarrow> string + KeyFile) \<Rightarrow> read_result \<Rightarrow> read_result
     \<Rightarrow> string \<Rightarrow> string + KeyManager" where
  "NewKeyManager readFile unmarshal rnd1 rnd2 keyPath =
     (let km = \<lparr>km_sharedSecret = [], km_nodeID = [], km_trustedPeers = [], km_keyPath = keyPath\<rparr>
      in case loadOrGenerateKeys readFile unmarshal rnd1 rnd2 km of
           Inl err \<Rightarrow> Inl (''failed to setup keys: '' @ err)
         | Inr km' \<Rightarrow> Inr km')"

text \<open>The dash in the message about permissions is its three UTF-8 bytes.\<close>

definition LoadKeyManager ::
  "(string \<Rightarrow> stat_result) \<Rightarrow> (string \<Rightarrow> read_result) \<Rightarrow> (string \<Rightarrow> string + KeyFile)
     \<Rightarrow> string \<Rightarrow> string + KeyManager" where
  "LoadKeyManager stat readFile unmarshal keyPath =
     (case stat keyPath of
        StatNotExist \<Rightarrow> Inl (''key file not found: '' @ keyPath)
      | StatError err \<Rightarrow> Inl (''cannot access key file: '' @ err)
      | StatOk mode \<Rightarrow>
          let perm = mode AND 511
          in if perm AND 63 \<noteq> 0 then
               Inl (''key file '' @ keyPath @ '' has insecure permissions '' @ oct_nat (nat perm)
                 @ '' '' @ [CHR 0xE2, CHR 0x80, CHR 0x94] @ '' should be 0600'')
             else
               (case readFile keyPath of
                  Inl err \<Rightarrow> Inl (''failed to read key file: '' @ err)
                | Inr data \<Rightarrow>
                    (case parseKeyData unmarshal data
                            \<lparr>km_sharedSecret = [], km_nodeID = [], km_trustedPeers = [], km_keyPath = keyPath\<rparr> of
                       Inl err \<Rightarrow> Inl (''failed to parse key file: '' @ err)
                     | Inr km \<Rightarrow> Inr km)))"

definition generateNonce :: "read_result \<Rightarrow> string + string" where
  "generateNonce rnd = (case rnd of Inl err \<Rightarrow> Inl err | Inr nonce \<Rightarrow> Inr (EncodeToString nonce))"

definition Sign :: "(string \<Rightarrow> string \<Rightarrow> string) \<Rightarrow> read_result \<Rightarrow> time \<Rightarrow> KeyManager \<Rightarrow> string
    \<Rightarrow> string + MessageSecurity" where
  "Sign hm rnd now km message =
     (case generateNonce rnd of
        Inl err \<Rightarrow> Inl (''failed to generate nonce: '' @ err)
      | Inr nonce \<Rightarrow>
          Inr \<lparr>ms_Signature = EncodeToString (hm (km_sharedSecret km) (nonce @ message)),
               ms_Signer = km_nodeID km, ms_Nonce = nonce, ms_Timestamp = unix_secs now\<rparr>)"

text \<open>The age is a difference of 64-bit integers.\<close>

definition Verify :: "(string \<Rightarrow> string \<Rightarrow> string) \<Rightarrow> time \<Rightarrow> KeyManager \<Rightarrow> string \<Rightarrow> MessageSecurity option
    \<Rightarrow> bool" where
  "Verify hm now km message oms =
     (case oms of
        None \<Rightarrow> False
      | Some ms \<Rightarrow>
          (case map_of (km_trustedPeers km) (ms_Signer ms) of
             None \<Rightarrow> False
           | Some peerSecret \<Rightarrow>
               if wrap64 (unix_secs now - ms_Timestamp ms) > replayTTL then False
               else if unix_secs now < ms_Timestamp ms then False
               else let expectedSig = EncodeToString (hm peerSecret (ms_Nonce ms @ message))
                    in ms_Signature ms = expectedSig))"

text \<open>The value that \<^verbatim>\<open>encoding/json\<close> decodes into an empty interface.\<close>

definition json_str :: "json option \<Rightarrow> string" where
  "json_str v = (case v of Some (JStr s) \<Rightarrow> s | _ \<Rightarrow> [])"

definition ValidateMessage :: "time \<Rightarrow> KeyManager \<Rightarrow> json \<Rightarrow> string option" where
  "ValidateMessage now km msg =
     (case msg of
        JObj msgMap \<Rightarrow>
          let signer_check =
                (let signature = json_str (map_of msgMap ''signature'');
                     signer = json_str (map_of msgMap ''signer'');
                     nonce = json_str (map_of msgMap ''nonce'')
                 in if signature \<noteq> [] \<and> signer \<noteq> [] \<and> nonce \<noteq> [] then
                      (case map_of (km_trustedPeers km) signer of
                         None \<Rightarrow> Some (''unknown signer: '' @ signer)
                       | Some _ \<Rightarrow> None)
                    else None)
          in (case map_of msgMap ''timestamp'' of
                Some (JNum timestamp) \<Rightarrow>
                  let ts = float_to_int64 timestamp; n = unix_secs now
                  in if wrap64 (n - ts) > replayTTL then Some ''message timestamp too old''
                     else if ts > n + 60 then Some ''message timestamp in future''
                     else signer_check
              | _ \<Rightarrow> signer_check)
      | _ \<Rightarrow> Some ''message is not a map'')"

definition AddTrustedPeer :: "string \<Rightarrow> string \<Rightarrow> KeyManager \<Rightarrow> KeyManager" where
  "AddTrustedPeer hostname sharedSecret km =
     km\<lparr>km_trustedPeers := AList.update hostname sharedSecret (km_trustedPeers km)\<rparr>"

definition AddTrustedPeerByID :: "string \<Rightarrow> string \<Rightarrow> KeyManager \<Rightarrow> KeyManager" where
  "AddTrustedPeerByID nodeID sharedSecret km =
     km\<lparr>km_trustedPeers := AList.update nodeID sharedSecret (km_trustedPeers km)\<rparr>"

definition GetPrivateKey :: "KeyManager \<Rightarrow> string" where "GetPrivateKey km = km_sharedSecret km"
definition GetPublicKey :: "KeyManager \<Rightarrow> string" where "GetPublicKey km = km_nodeID km"
definition GetNodeID :: "KeyManager \<Rightarrow> string" where "GetNodeID km = km_nodeID km"
definition GetSharedSecret :: "KeyManager \<Rightarrow> string" where "GetSharedSecret km = km_sharedSecret km"

text \<open>
  The file system that keys are saved to: the mode and the content of every file.
  \<^verbatim>\<open>os.WriteFile\<close> keeps the mode of an existing file. \<open>werr\<close> is the error of the write, if any.
\<close>

type_synonym files = "(string, int \<times> string) gomap"

definition fs_stat :: "files \<Rightarrow> string \<Rightarrow> stat_result" where
  "fs_stat fs path = (case map_of fs path of None \<Rightarrow> StatNotExist | Some (mode, _) \<Rightarrow> StatOk mode)"

definition fs_read :: "files \<Rightarrow> string \<Rightarrow> read_result" where
  "fs_read fs path =
     (case map_of fs path of
        None \<Rightarrow> Inl (''open '' @ path @ '': no such file or directory'')
      | Some (_, data) \<Rightarrow> Inr data)"

definition fs_write :: "string option \<Rightarrow> string \<Rightarrow> string \<Rightarrow> int \<Rightarrow> files \<Rightarrow> string + files" where
  "fs_write werr path data perm fs =
     (case werr of
        Some err \<Rightarrow> Inl err
      | None \<Rightarrow> Inr (AList.update path
          (case map_of fs path of None \<Rightarrow> (perm, data) | Some (mode, _) \<Rightarrow> (mode, data)) fs))"

definition saved_keys :: "KeyManager \<Rightarrow> KeyFile" where
  "saved_keys km =
     \<lparr>kf_PublicKey = km_nodeID km, kf_PrivateKey = km_sharedSecret km, kf_SharedSecret = km_sharedSecret km,
      kf_NodeID = km_nodeID km, kf_TrustedPeers = km_trustedPeers km,
      kf_PublicKeys = map fst (km_trustedPeers km)\<rparr>"

definition SaveKeys :: "(KeyFile \<Rightarrow> string + string) \<Rightarrow> string option \<Rightarrow> string \<Rightarrow> KeyManager \<Rightarrow> files
    \<Rightarrow> string + files" where
  "SaveKeys marshal werr path km fs =
     (case marshal (saved_keys km) of
        Inl err \<Rightarrow> Inl (''failed to marshal keys: '' @ err)
      | Inr data \<Rightarrow> fs_write werr path data 384 fs)"

section \<open>Key files of the command line\<close>

definition KeySize :: nat where "KeySize = 32"
definition HexKeyLength :: nat where "HexKeyLength = 64"

record Keys =
  k_PublicKey :: string
  k_PrivateKey :: string
  k_PublicKeys :: "string list"

definition is_hex :: "char \<Rightarrow> bool" where
  "is_hex c \<longleftrightarrow> \<not> (((of_char c :: nat) < 48 \<or> (of_char c :: nat) > 57)
     \<and> ((of_char c :: nat) < 97 \<or> (of_char c :: nat) > 102)
     \<and> ((of_char c :: nat) < 65 \<or> (of_char c :: nat) > 70))"

definition validateHexKey :: "string \<Rightarrow> nat \<Rightarrow> string option" where
  "validateHexKey key expectedLen =
     (if length key \<noteq> expectedLen then
        Some (''must be '' @ itoa (int expectedLen) @ '' hex characters, got '' @ itoa (int (length key)))
      else if \<not> list_all is_hex key then Some ''must be hexadecimal''
      else None)"

fun validate_peers :: "nat \<Rightarrow> string list \<Rightarrow> string option" where
  "validate_peers i [] = None"
| "validate_peers i (pubKey # ks) =
     (case validateHexKey pubKey HexKeyLength of
        Some err \<Rightarrow> Some (''trusted peer '' @ itoa (int i) @ '': '' @ err)
      | None \<Rightarrow> validate_peers (Suc i) ks)"

definition Keys_Validate :: "Keys \<Rightarrow> string option" where
  "Keys_Validate k =
     (case validateHexKey (k_PrivateKey k) HexKeyLength of
        Some err \<Rightarrow> Some (''private key: '' @ err)
      | None \<Rightarrow>
          (case validateHexKey (k_PublicKey k) HexKeyLength of
             Some err \<Rightarrow> Some (''public key: '' @ err)
           | None \<Rightarrow> validate_peers 0 (k_PublicKeys k)))"

definition Generate :: "read_result \<Rightarrow> read_result \<Rightarrow> string + Keys" where
  "Generate rnd1 rnd2 =
     (case rnd1 of
        Inl err \<Rightarrow> Inl (''failed to generate private key: '' @ err)
      | Inr privateKey \<Rightarrow>
          (case rnd2 of
             Inl err \<Rightarrow> Inl (''failed to generate public key: '' @ err)
           | Inr publicKey \<Rightarrow>
               Inr \<lparr>k_PublicKey = EncodeToString publicKey, k_PrivateKey = EncodeToString privateKey,
                    k_PublicKeys = [EncodeToString publicKey]\<rparr>))"

definition Keys_Load :: "(string \<Rightarrow> read_result) \<Rightarrow> (string \<Rightarrow> string + Keys) \<Rightarrow> string \<Rightarrow> string + Keys" where
  "Keys_Load readFile unmarshal path =
     (case readFile path of
        Inl err \<Rightarrow> Inl err
      | Inr data \<Rightarrow>
          (case unmarshal data of
             Inl err \<Rightarrow> Inl (''failed to parse keys: '' @ err)
           | Inr keys \<Rightarrow>
               (case Keys_Validate keys of
                  Some err \<Rightarrow> Inl (''invalid keys: '' @ err)
                | None \<Rightarrow> Inr keys)))"

definition Keys_Save :: "(Keys \<Rightarrow> string + string) \<Rightarrow> string option \<Rightarrow> string \<Rightarrow> Keys \<Rightarrow> files
    \<Rightarrow> string + files" where
  "Keys_Save marshal werr path k fs =
     (case marshal k of
        Inl err \<Rightarrow> Inl (''failed to marshal keys: '' @ err)
      | Inr data \<Rightarrow>
          (case fs_write werr path data 384 fs of
             Inl err \<Rightarrow> Inl (''failed to write keys: '' @ err)
           | Inr fs' \<Rightarrow> Inr fs'))"

definition Keys_AddTrustedPeer :: "string \<Rightarrow> Keys \<Rightarrow> string + Keys" where
  "Keys_AddTrustedPeer pubKey k =
     (case validateHexKey pubKey HexKeyLength of
        Some err \<Rightarrow> Inl err
      | None \<Rightarrow>
          if pubKey \<in> set (k_PublicKeys k) then Inl ''public key already in trusted peers list''
          else Inr (k\<lparr>k_PublicKeys := k_PublicKeys k @ [pubKey]\<rparr>))"

text \<open>
  A key file of the command line as the daemon decodes it: the fields of the newer format are
  absent from the document, so they keep their zero values.
\<close>

definition as_key_file :: "Keys \<Rightarrow> KeyFile" where
  "as_key_file k = \<lparr>kf_PublicKey = k_PublicKey k, kf_PrivateKey = k_PrivateKey k, kf_SharedSecret = [],
     kf_NodeID = [], kf_TrustedPeers = [], kf_PublicKeys = k_PublicKeys k\<rparr>"

section \<open>Lemmas\<close>

lemma unix_secs_mono: "t \<le> u \<Longrightarrow> unix_secs t \<le> unix_secs u"
  by (simp add: unix_secs_def zdiv_mono1)

lemma wrap64_diff:
  "0 \<le> x \<Longrightarrow> x < 2 ^ 62 \<Longrightarrow> 0 \<le> y \<Longrightarrow> y < 2 ^ 62 \<Longrightarrow> wrap64 (x - y) = x - y"
  by (rule wrap64_id) auto

text \<open>What an accepted signature means, branch by branch.\<close>

lemma Verify_iff:
  "Verify hm now km message oms \<longleftrightarrow>
     (\<exists>ms secret. oms = Some ms \<and> map_of (km_trustedPeers km) (ms_Signer ms) = Some secret
        \<and> wrap64 (unix_secs now - ms_Timestamp ms) \<le> replayTTL \<and> ms_Timestamp ms \<le> unix_secs now
        \<and> ms_Signature ms = EncodeToString (hm secret (ms_Nonce ms @ message)))"
  by (auto simp: Verify_def Let_def split: option.splits)

lemma Verify_None [simp]: "\<not> Verify hm now km message None"
  by (simp add: Verify_def)

lemma EncodeToString_length: "length (EncodeToString bs) = 2 * length bs"
  by (induction bs) (auto simp: EncodeToString_def)

lemma hex_digit_is_hex: "n < 16 \<Longrightarrow> is_hex (hex_digit n)"
  by (auto simp: is_hex_def hex_digit_def)

lemma byte_range: "(of_char c :: nat) < 256"
  using of_char_of [where 'a = nat, of "of_char c"] by (metis mod_less_divisor of_char_mod_256 zero_less_numeral)

lemma EncodeToString_hex: "list_all is_hex (EncodeToString bs)"
proof (induction bs)
  case Nil
  then show ?case by (simp add: EncodeToString_def)
next
  case (Cons c bs)
  have "(of_char c :: nat) div 16 < 16" using byte_range [of c] by (intro less_mult_imp_div_less) simp
  then show ?case using Cons by (simp add: EncodeToString_def hex_digit_is_hex)
qed

lemma hex_key_valid: "length bs = 32 \<Longrightarrow> validateHexKey (EncodeToString bs) HexKeyLength = None"
  by (simp add: validateHexKey_def HexKeyLength_def EncodeToString_length EncodeToString_hex)

lemma validate_peers_None:
  "validate_peers i ks = None \<longleftrightarrow> (\<forall>k \<in> set ks. validateHexKey k HexKeyLength = None)"
  by (induction ks arbitrary: i) (auto split: option.splits)

lemma Keys_Validate_None:
  "Keys_Validate k = None \<longleftrightarrow> validateHexKey (k_PrivateKey k) HexKeyLength = None
     \<and> validateHexKey (k_PublicKey k) HexKeyLength = None
     \<and> (\<forall>p \<in> set (k_PublicKeys k). validateHexKey p HexKeyLength = None)"
  by (auto simp: Keys_Validate_def validate_peers_None split: option.splits)

lemma fold_put_const:
  "map_of (fold (\<lambda>k. AList.update k v) ks m) x = (if x \<in> set ks then Some v else map_of m x)"
  by (induction ks arbitrary: m) auto

text \<open>The window in which a signature is accepted.\<close>

lemma hex_digit_inj: "m < 16 \<Longrightarrow> n < 16 \<Longrightarrow> hex_digit m = hex_digit n \<longleftrightarrow> m = n"
  by (auto simp: hex_digit_def dest!: arg_cong [of _ _ "of_char :: char \<Rightarrow> nat"])

lemma EncodeToString_inj: "EncodeToString bs = EncodeToString cs \<Longrightarrow> bs = cs"
proof (induction bs arbitrary: cs)
  case Nil
  then show ?case by (cases cs) (simp_all add: EncodeToString_def)
next
  case (Cons b bs)
  then obtain c ds where cs: "cs = c # ds" by (cases cs) (simp_all add: EncodeToString_def)
  have lt: "(of_char x :: nat) div 16 < 16" for x using byte_range [of x] by (intro less_mult_imp_div_less) simp
  have "(of_char b :: nat) div 16 = of_char c div 16" "(of_char b :: nat) mod 16 = of_char c mod 16"
    using Cons.prems lt [of b] lt [of c] by (simp_all add: cs EncodeToString_def hex_digit_inj)
  then have "(of_char b :: nat) = of_char c" by (metis div_mult_mod_eq)
  moreover have "EncodeToString bs = EncodeToString ds" using Cons.prems by (simp add: cs EncodeToString_def)
  ultimately show ?case using Cons.IH cs by (simp add: of_char_eq_iff)
qed

text \<open>When a verifier accepts a signature, for every verifier.\<close>

lemma verify_signed_iff:
  assumes "Sign hm rnd t km message = Inr ms" and "0 \<le> t" "t < 2 ^ 62" "0 \<le> now" "now < 2 ^ 62"
  shows "Verify hm now km' message (Some ms) \<longleftrightarrow>
    (\<exists>secret. map_of (km_trustedPeers km') (km_nodeID km) = Some secret
       \<and> hm secret (ms_Nonce ms @ message) = hm (km_sharedSecret km) (ms_Nonce ms @ message))
    \<and> 0 \<le> unix_secs now - unix_secs t \<and> unix_secs now - unix_secs t \<le> 300"
proof -
  have b: "0 \<le> unix_secs x \<and> unix_secs x < 2 ^ 62" if "0 \<le> x" "x < 2 ^ 62" for x
    using that by (auto simp: unix_secs_def pos_imp_zdiv_nonneg_iff intro: le_less_trans [OF zdiv_mono1])
  have w: "wrap64 (unix_secs now - unix_secs t) = unix_secs now - unix_secs t"
    using b [OF assms(2,3)] b [OF assms(4,5)] by (intro wrap64_diff) auto
  have ms: "ms_Signer ms = km_nodeID km" "ms_Timestamp ms = unix_secs t"
    "ms_Signature ms = EncodeToString (hm (km_sharedSecret km) (ms_Nonce ms @ message))"
    using assms(1) by (auto simp: Sign_def split: sum.splits)
  show ?thesis by (auto simp: Verify_iff ms w replayTTL_def dest: EncodeToString_inj)
qed

lemma sign_verify_aux:
  assumes "Sign hm rnd t km message = Inr ms"
    and "map_of (km_trustedPeers km') (km_nodeID km) = Some (km_sharedSecret km)"
    and "0 \<le> t" "t < 2 ^ 62" "0 \<le> now" "now < 2 ^ 62"
  shows "Verify hm now km' message (Some ms) \<longleftrightarrow>
    0 \<le> unix_secs now - unix_secs t \<and> unix_secs now - unix_secs t \<le> 300"
  using verify_signed_iff [OF assms(1,3-6), of km'] assms(2) by simp

text \<open>Concrete data for the witnesses: a keyed checksum in place of HMAC, and two nodes.\<close>

definition demo_mac :: "string \<Rightarrow> string \<Rightarrow> string" where
  "demo_mac key bytes = take 4 (rev bytes @ key)"

definition demo_signer :: KeyManager where
  "demo_signer = \<lparr>km_sharedSecret = ''s3cret'', km_nodeID = ''node-a'', km_trustedPeers = [(''node-a'', ''s3cret'')],
     km_keyPath = []\<rparr>"

definition demo_verifier :: KeyManager where
  "demo_verifier = \<lparr>km_sharedSecret = ''other'', km_nodeID = ''node-b'',
     km_trustedPeers = [(''node-b'', ''other''), (''node-a'', ''s3cret'')], km_keyPath = []\<rparr>"

definition demo_signed :: MessageSecurity where
  "demo_signed = \<lparr>ms_Signature = EncodeToString (demo_mac ''s3cret'' (''0a'' @ ''hello'')), ms_Signer = ''node-a'',
     ms_Nonce = ''0a'', ms_Timestamp = 1000\<rparr>"

lemma demo_signed_ok: "Verify demo_mac (1200 * Second) demo_verifier ''hello'' (Some demo_signed)"
  by (simp add: Verify_def demo_verifier_def demo_signed_def replayTTL_def unix_secs_def wrap64_def)

lemmas demo_sig_defs = demo_signer_def demo_verifier_def demo_signed_def replayTTL_def unix_secs_def

section \<open>Properties\<close>

text \<open>C20: Who accepts a signature and when, for every verifier: one accepts the signature of a node exactly if it lists
  the identity of the node with a secret under which the MAC of nonce and message is the same (the secret of the node
  itself, unless the MAC collides) and its clock is in the 300 seconds from the second of signing on. Outside that window
  no verifier accepts it. Clocks are between 1970 and 2116.\<close>

theorem sign_verify_window:
  assumes "Sign hm rnd t km message = Inr ms" and "0 \<le> t" "t < 2 ^ 62" "0 \<le> now" "now < 2 ^ 62"
  shows "Verify hm now km' message (Some ms) \<longleftrightarrow>
    (\<exists>secret. map_of (km_trustedPeers km') (km_nodeID km) = Some secret
       \<and> hm secret (ms_Nonce ms @ message) = hm (km_sharedSecret km) (ms_Nonce ms @ message))
    \<and> 0 \<le> unix_secs now - unix_secs t \<and> unix_secs now - unix_secs t \<le> 300"
  using assms by (rule verify_signed_iff)

theorem sign_verify_window_witness:
  "\<exists>ms. Sign demo_mac (Inr ''n'') (1000 * Second) demo_signer ''hello'' = Inr ms
     \<and> Verify demo_mac (1300 * Second) demo_verifier ''hello'' (Some ms)
     \<and> \<not> Verify demo_mac (1301 * Second) demo_verifier ''hello'' (Some ms)"
proof -
  obtain ms where s: "Sign demo_mac (Inr ''n'') (1000 * Second) demo_signer ''hello'' = Inr ms"
    by (simp add: Sign_def generateNonce_def)
  have k: "map_of (km_trustedPeers demo_verifier) (km_nodeID demo_signer) = Some (km_sharedSecret demo_signer)"
    by (simp add: demo_sig_defs)
  show ?thesis
    using s k sign_verify_window [OF s, of "1300 * Second" demo_verifier] sign_verify_window [OF s, of "1301 * Second" demo_verifier]
    by (simp add: unix_secs_def)
qed

text \<open>The time stamp that the replay check reads is not covered by the MAC: a signature
  accepted once is accepted at every later time after the stamp is overwritten with the current
  time. (The 300-second limit is there to stop recorded messages from being replayed.)\<close>

theorem replay_stamp_not_authenticated:
  assumes "Verify hm now km message (Some ms)"
  shows "Verify hm later km message (Some (ms\<lparr>ms_Timestamp := unix_secs later\<rparr>))"
  using assms by (auto simp: Verify_iff replayTTL_def wrap64_def)

theorem replay_stamp_not_authenticated_witness:
  "Verify demo_mac (9000000 * Second) demo_verifier ''hello'' (Some (demo_signed\<lparr>ms_Timestamp := 9000000\<rparr>))"
  using replay_stamp_not_authenticated [OF demo_signed_ok, of "9000000 * Second"] by (simp add: unix_secs_def)

text \<open>The age of a signature is a wrapping 64-bit difference: the stamp \<open>- 2 ^ 63\<close> makes it
  negative at every time after 1970, so a signature with that stamp passes the replay check for
  ever.\<close>

theorem replay_age_overflows:
  assumes "Verify hm now km message (Some ms)" and "0 \<le> later" and "later < 2 ^ 62"
  shows "Verify hm later km message (Some (ms\<lparr>ms_Timestamp := - (2 ^ 63)\<rparr>))"
proof -
  have s: "0 \<le> unix_secs later" "unix_secs later < 2 ^ 62"
    using assms(2,3) by (auto simp: unix_secs_def pos_imp_zdiv_nonneg_iff intro: le_less_trans [OF zdiv_mono1])
  then have "(unix_secs later + 2 ^ 63 + 2 ^ 63) mod 2 ^ 64 = unix_secs later" by simp
  then have "wrap64 (unix_secs later - - (2 ^ 63)) \<le> 0" using s by (simp add: wrap64_def)
  with assms(1) s show ?thesis by (auto simp: Verify_iff replayTTL_def)
qed

theorem replay_age_overflows_witness:
  "Verify demo_mac (1700000000 * Second) demo_verifier ''hello'' (Some (demo_signed\<lparr>ms_Timestamp := - (2 ^ 63)\<rparr>))"
  by (rule replay_age_overflows [OF demo_signed_ok]) simp_all

text \<open>C37: Saving the keys and loading them again restores the node identity, the secret and every
  trusted peer, provided the secret is not empty and the file did not already exist with a mode
  that others can read (such a file is refused on loading).\<close>

theorem save_load_keys:
  assumes "marshal (saved_keys km) = Inr data" and "unmarshal data = Inr (saved_keys km)"
    and "km_sharedSecret km \<noteq> []" and "gm_wf (km_trustedPeers km)"
    and "SaveKeys marshal None path km fs = Inr fs'"
    and "case map_of fs path of None \<Rightarrow> True | Some (mode, _) \<Rightarrow> (mode AND 511) AND 63 = 0"
  shows "\<exists>km'. LoadKeyManager (fs_stat fs') (fs_read fs') unmarshal path = Inr km'
    \<and> km_sharedSecret km' = km_sharedSecret km \<and> km_nodeID km' = km_nodeID km
    \<and> map_of (km_trustedPeers km') = map_of (km_trustedPeers km)"
proof -
  obtain mode where m: "map_of fs' path = Some (mode, data)" "(mode AND 511) AND 63 = 0"
    using assms(1,5,6) by (auto simp: SaveKeys_def fs_write_def split: option.splits)
  have "map_of (fold (\<lambda>(n, s). AList.update n s) (km_trustedPeers km) []) = map_of (km_trustedPeers km)"
    using gm_rebuild(1) [OF assms(4), of "\<lambda>n s. s"] by (simp add: fun_eq_iff option.map_ident)
  with assms(2,3) m show ?thesis
    by (simp add: LoadKeyManager_def fs_stat_def fs_read_def Let_def parseKeyData_def saved_keys_def)
qed

theorem save_load_keys_witness:
  "\<exists>km'. LoadKeyManager (fs_stat [(''/k'', (384, ''doc''))]) (fs_read [(''/k'', (384, ''doc''))])
      (\<lambda>_. Inr (saved_keys demo_verifier)) ''/k'' = Inr km'
    \<and> km_sharedSecret km' = km_sharedSecret demo_verifier \<and> km_nodeID km' = km_nodeID demo_verifier
    \<and> map_of (km_trustedPeers km') = map_of (km_trustedPeers demo_verifier)"
  by (rule save_load_keys [where marshal = "\<lambda>_. Inr ''doc''" and fs = "[]" and data = "''doc''"])
     (simp_all add: demo_sig_defs SaveKeys_def fs_write_def)

text \<open>A key file generated by the command line passes its own validation, and the daemon that
  loads it trusts itself and accepts its own signatures.\<close>

theorem generated_keys_usable:
  assumes "Generate (Inr ra) (Inr rb) = Inr k" and "length ra = KeySize" and "length rb = KeySize"
    and "readFile path = Inr data" and "unmarshal data = Inr (as_key_file k)" and "path \<noteq> []"
    and "0 \<le> t" "t \<le> now" "now < 2 ^ 62" "unix_secs now - unix_secs t \<le> 300"
  shows "Keys_Validate k = None \<and>
    (\<exists>km ms. NewKeyManager readFile unmarshal g1 g2 path = Inr km
       \<and> Sign hm (Inr nonce) t km message = Inr ms \<and> Verify hm now km message (Some ms))"
proof
  have k: "k = \<lparr>k_PublicKey = EncodeToString rb, k_PrivateKey = EncodeToString ra, k_PublicKeys = [EncodeToString rb]\<rparr>"
    using assms(1) by (simp add: Generate_def)
  with assms(2,3) show "Keys_Validate k = None"
    by (simp add: Keys_Validate_None hex_key_valid KeySize_def)
  let ?km = "\<lparr>km_sharedSecret = k_PrivateKey k, km_nodeID = k_PublicKey k,
    km_trustedPeers = [(k_PublicKey k, k_PrivateKey k)], km_keyPath = path\<rparr>"
  have n: "NewKeyManager readFile unmarshal g1 g2 path = Inr ?km"
    using assms(4-6) k by (simp add: NewKeyManager_def loadOrGenerateKeys_def parseKeyData_def as_key_file_def)
  obtain ms where s: "Sign hm (Inr nonce) t ?km message = Inr ms"
    by (simp add: Sign_def generateNonce_def)
  have "Verify hm now ?km message (Some ms)"
    using assms(7-10) by (subst sign_verify_aux [OF s]) (simp_all add: unix_secs_mono)
  with n s show "\<exists>km ms. NewKeyManager readFile unmarshal g1 g2 path = Inr km
      \<and> Sign hm (Inr nonce) t km message = Inr ms \<and> Verify hm now km message (Some ms)" by blast
qed

theorem generated_keys_usable_witness:
  "\<exists>km ms. NewKeyManager (\<lambda>_. Inr ''doc'')
       (\<lambda>_. Inr (as_key_file \<lparr>k_PublicKey = EncodeToString (replicate 32 CHR ''b''),
          k_PrivateKey = EncodeToString (replicate 32 CHR ''a''),
          k_PublicKeys = [EncodeToString (replicate 32 CHR ''b'')]\<rparr>)) (Inl []) (Inl []) ''/k'' = Inr km
     \<and> Sign demo_mac (Inr ''n'') 5 km ''m'' = Inr ms \<and> Verify demo_mac 7 km ''m'' (Some ms)"
  by (rule generated_keys_usable [where ra = "replicate 32 CHR ''a''" and
        rb = "replicate 32 CHR ''b''" and data = "''doc''", THEN conjunct2])
     (simp_all add: Generate_def KeySize_def unix_secs_def)

end
