(* ===== verification/Rate_Limit.thy ===== *)
theory Rate_Limit
  imports Disco_Prelude
begin

text \<open>
  The token bucket in front of the broadcasts and the filter for repeated message identifiers
  (\<^verbatim>\<open>internal/discovery/ratelimit.go\<close>). Both are driven by clock readings that the model
  takes as arguments; Go's monotonic clock makes successive readings ascend. The counters of
  the bucket are Go integers, so their arithmetic wraps at 64 bits.
\<close>

section \<open>Rate limiter\<close>

definition defaultMaxBurst :: int where "defaultMaxBurst = 10"
definition defaultRate :: int where "defaultRate = 10"

record RateLimiter =
  rl_maxBurst :: int
  rl_rate :: int
  rl_tokens :: int
  rl_lastTime :: time

definition NewRateLimiter :: "time \<Rightarrow> int \<Rightarrow> int \<Rightarrow> RateLimiter" where
  "NewRateLimiter now rate maxBurst =
     (let rate' = (if rate \<le> 0 then defaultRate else rate);
          maxBurst' = (if maxBurst \<le> 0 then defaultMaxBurst else maxBurst)
      in \<lparr>rl_maxBurst = maxBurst', rl_rate = rate', rl_tokens = maxBurst', rl_lastTime = now\<rparr>)"

definition Allow :: "time \<Rightarrow> RateLimiter \<Rightarrow> RateLimiter \<times> bool" where
  "Allow now rl =
     (let elapsed = time_Sub now (rl_lastTime rl);
          t1 = wrap64 (rl_tokens rl + wrap64 (dur_secs elapsed * rl_rate rl));
          t2 = (if t1 > rl_maxBurst rl then rl_maxBurst rl else t1);
          rl1 = rl\<lparr>rl_lastTime := now, rl_tokens := t2\<rparr>
      in if t2 > 0 then (rl1\<lparr>rl_tokens := t2 - 1\<rparr>, True) else (rl1, False))"

text \<open>The answers to a sequence of calls at the given times.\<close>

fun allow_run :: "RateLimiter \<Rightarrow> time list \<Rightarrow> RateLimiter \<times> bool list" where
  "allow_run rl [] = (rl, [])"
| "allow_run rl (t # ts) =
     (let (rl1, b) = Allow t rl; (rl2, bs) = allow_run rl1 ts in (rl2, b # bs))"

section \<open>Duplicate filter\<close>

record DuplicateFilter =
  df_seen :: "(string, time) gomap"
  df_ttl :: duration

definition NewDuplicateFilter :: "duration \<Rightarrow> DuplicateFilter" where
  "NewDuplicateFilter ttl = \<lparr>df_seen = [], df_ttl = ttl\<rparr>"

definition Seen :: "time \<Rightarrow> string \<Rightarrow> DuplicateFilter \<Rightarrow> DuplicateFilter \<times> bool" where
  "Seen now messageID df =
     (case map_of (df_seen df) messageID of
        None \<Rightarrow> (df\<lparr>df_seen := AList.update messageID now (df_seen df)\<rparr>, False)
      | Some _ \<Rightarrow> (df, True))"

text \<open>One tick of the cleanup goroutine.\<close>

definition df_cleanup :: "time \<Rightarrow> DuplicateFilter \<Rightarrow> DuplicateFilter" where
  "df_cleanup now df =
     df\<lparr>df_seen := filter (\<lambda>(mid, timestamp). \<not> time_Sub now timestamp > df_ttl df) (df_seen df)\<rparr>"

datatype df_event = EvSeen time string | EvCleanup time

fun event_time :: "df_event \<Rightarrow> time" where
  "event_time (EvSeen t _) = t"
| "event_time (EvCleanup t) = t"

fun df_step :: "df_event \<Rightarrow> DuplicateFilter \<Rightarrow> DuplicateFilter" where
  "df_step (EvSeen t mid) df = fst (Seen t mid df)"
| "df_step (EvCleanup t) df = df_cleanup t df"

section \<open>Lemmas on the rate limiter\<close>

text \<open>
  The bounds under which the 64-bit arithmetic of the bucket is exact: the longest elapsed time
  is below \<open>10 ^ 10\<close> seconds, so a rate and a burst of up to \<open>10 ^ 8\<close> cannot overflow. The
  daemon uses 10 for both.
\<close>

definition rl_ok :: "RateLimiter \<Rightarrow> bool" where
  "rl_ok rl \<longleftrightarrow> 0 < rl_rate rl \<and> rl_rate rl \<le> 10 ^ 8 \<and> 0 < rl_maxBurst rl \<and> rl_maxBurst rl \<le> 10 ^ 8
     \<and> 0 \<le> rl_tokens rl \<and> rl_tokens rl \<le> rl_maxBurst rl"

lemma elapsed_secs:
  assumes "rl_lastTime rl \<le> now"
  shows "0 \<le> dur_secs (time_Sub now (rl_lastTime rl))"
    and "dur_secs (time_Sub now (rl_lastTime rl)) \<le> (now - rl_lastTime rl) div Second"
    and "dur_secs (time_Sub now (rl_lastTime rl)) \<le> 10 ^ 10"
proof -
  let ?d = "time_Sub now (rl_lastTime rl)"
  have d: "0 \<le> ?d" "?d \<le> now - rl_lastTime rl" "?d < 2 ^ 63"
    using assms clamp64_range [of "now - rl_lastTime rl"] by (auto simp: time_Sub_def clamp64_def)
  then have eq: "dur_secs ?d = ?d div Second" by (simp add: dur_secs_nonneg)
  show "0 \<le> dur_secs ?d" using d eq by simp
  show "dur_secs ?d \<le> (now - rl_lastTime rl) div Second" using d eq by (simp add: zdiv_mono1)
  have "?d div Second \<le> 2 ^ 63 div Second" using d by (intro zdiv_mono1) simp_all
  with eq show "dur_secs ?d \<le> 10 ^ 10" by simp
qed

text \<open>The bucket before the token is taken, without the wrap-around.\<close>

definition refilled :: "time \<Rightarrow> RateLimiter \<Rightarrow> int" where
  "refilled now rl =
     min (rl_maxBurst rl) (rl_tokens rl + dur_secs (time_Sub now (rl_lastTime rl)) * rl_rate rl)"

lemma Allow_exact:
  assumes "rl_ok rl" and "rl_lastTime rl \<le> now"
  shows "Allow now rl =
    (rl\<lparr>rl_lastTime := now, rl_tokens := (if refilled now rl > 0 then refilled now rl - 1 else refilled now rl)\<rparr>,
     refilled now rl > 0)"
proof -
  let ?s = "dur_secs (time_Sub now (rl_lastTime rl))"
  have "0 \<le> ?s * rl_rate rl"
    using elapsed_secs [OF assms(2)] assms(1) by (simp add: rl_ok_def)
  moreover have "?s * rl_rate rl \<le> 10 ^ 10 * 10 ^ 8"
    using elapsed_secs [OF assms(2)] assms(1) by (intro mult_mono) (simp_all add: rl_ok_def)
  ultimately have "wrap64 (?s * rl_rate rl) = ?s * rl_rate rl"
    and "wrap64 (rl_tokens rl + ?s * rl_rate rl) = rl_tokens rl + ?s * rl_rate rl"
    using assms(1) by (auto simp: rl_ok_def intro!: wrap64_id)
  then show ?thesis
    by (auto simp: Allow_def refilled_def Let_def min_def)
qed

lemma refilled_nonneg: "rl_ok rl \<Longrightarrow> rl_lastTime rl \<le> now \<Longrightarrow> 0 \<le> refilled now rl"
  using elapsed_secs(1) [of rl now] by (simp add: refilled_def rl_ok_def)

lemma Allow_ok:
  assumes "rl_ok rl" and "rl_lastTime rl \<le> now"
  shows "rl_ok (fst (Allow now rl))" and "rl_lastTime (fst (Allow now rl)) = now"
    and "rl_rate (fst (Allow now rl)) = rl_rate rl" and "rl_maxBurst (fst (Allow now rl)) = rl_maxBurst rl"
  using assms refilled_nonneg [OF assms]
  by (auto simp: Allow_exact rl_ok_def) (auto simp: refilled_def)

lemma Allow_balance:
  assumes "rl_ok rl" and "rl_lastTime rl \<le> now"
  shows "rl_tokens (fst (Allow now rl)) + of_bool (snd (Allow now rl))
    \<le> rl_tokens rl + (now - rl_lastTime rl) div Second * rl_rate rl"
proof -
  have "refilled now rl \<le> rl_tokens rl + (now - rl_lastTime rl) div Second * rl_rate rl"
    using elapsed_secs(2) [OF assms(2)] assms(1)
    by (auto simp: refilled_def rl_ok_def intro!: min.coboundedI2 mult_right_mono)
  with assms show ?thesis by (simp add: Allow_exact)
qed

lemma div_add_le: "(a::int) div c + b div c \<le> (a + b) div c" if "0 < c"
  using that div_add1_eq [of a b c] by (simp add: pos_imp_zdiv_nonneg_iff)

text \<open>The balance of a whole run: tokens left plus calls allowed.\<close>

lemma allow_run_balance:
  assumes "rl_ok rl" and "sorted (rl_lastTime rl # ts)"
  shows "rl_tokens (fst (allow_run rl ts)) + int (length (filter (\<lambda>b. b) (snd (allow_run rl ts))))
      \<le> rl_tokens rl + (last (rl_lastTime rl # ts) - rl_lastTime rl) div Second * rl_rate rl
    \<and> rl_ok (fst (allow_run rl ts))"
  using assms
proof (induction ts arbitrary: rl)
  case Nil
  then show ?case by simp
next
  case (Cons t ts)
  have t: "rl_lastTime rl \<le> t" using Cons.prems by simp
  obtain rl1 b where a: "Allow t rl = (rl1, b)" by (cases "Allow t rl")
  obtain rl2 bs where r: "allow_run rl1 ts = (rl2, bs)" by (cases "allow_run rl1 ts")
  have ok: "rl_ok rl1" "rl_lastTime rl1 = t" "rl_rate rl1 = rl_rate rl"
    using Allow_ok [OF Cons.prems(1) t] a by simp_all
  have "sorted (rl_lastTime rl1 # ts)" using Cons.prems(2) ok(2) by simp
  with Cons.IH [OF ok(1)] have IH: "rl_tokens rl2 + int (length (filter (\<lambda>b. b) bs))
      \<le> rl_tokens rl1 + (last (t # ts) - t) div Second * rl_rate rl" and ok2: "rl_ok rl2"
    using ok r by simp_all
  have st: "rl_tokens rl1 + of_bool b \<le> rl_tokens rl + (t - rl_lastTime rl) div Second * rl_rate rl"
    using Allow_balance [OF Cons.prems(1) t] a by simp
  have "((t - rl_lastTime rl) div Second + (last (t # ts) - t) div Second) * rl_rate rl
      \<le> (last (t # ts) - rl_lastTime rl) div Second * rl_rate rl"
    using div_add_le [of Second "t - rl_lastTime rl" "last (t # ts) - t"] Cons.prems(1)
    by (intro mult_right_mono) (simp_all add: rl_ok_def)
  then have "rl_tokens rl2 + int (length (filter (\<lambda>b. b) (b # bs)))
      \<le> rl_tokens rl + (last (t # ts) - rl_lastTime rl) div Second * rl_rate rl"
    using IH st by (cases b) (simp_all add: ring_distribs)
  with a r ok2 show ?case by simp
qed

lemma allow_run_append:
  "snd (allow_run rl (ts @ us)) = snd (allow_run rl ts) @ snd (allow_run (fst (allow_run rl ts)) us)"
  "length (snd (allow_run rl ts)) = length ts"
  by (induction ts arbitrary: rl) (simp_all add: split_beta Let_def)

lemma allow_run_ok:
  assumes "rl_ok rl" and "sorted (rl_lastTime rl # ts)"
  shows "rl_ok (fst (allow_run rl ts)) \<and> rl_lastTime (fst (allow_run rl ts)) = last (rl_lastTime rl # ts)
    \<and> rl_rate (fst (allow_run rl ts)) = rl_rate rl \<and> rl_maxBurst (fst (allow_run rl ts)) = rl_maxBurst rl"
  using assms
proof (induction ts arbitrary: rl)
  case (Cons t ts)
  have t: "rl_lastTime rl \<le> t" using Cons.prems by simp
  note ok = Allow_ok [OF Cons.prems(1) t]
  from Cons.IH [OF ok(1)] Cons.prems(2) ok(2-4) show ?case by (simp add: split_beta Let_def)
qed simp

text \<open>The cap: however long the bucket was left alone, a call finds at most the burst in it.\<close>

lemma Allow_capped:
  assumes "rl_ok rl" and "rl_lastTime rl \<le> now"
  shows "rl_tokens (fst (Allow now rl)) + of_bool (snd (Allow now rl)) \<le> rl_maxBurst rl"
proof -
  have "refilled now rl \<le> rl_maxBurst rl" by (simp add: refilled_def)
  with refilled_nonneg [OF assms] assms show ?thesis by (auto simp: Allow_exact)
qed

lemma window_grants:
  assumes "rl_ok rl" and "sorted (rl_lastTime rl # w # ts)"
  shows "int (length (filter (\<lambda>b. b) (snd (allow_run rl (w # ts)))))
    \<le> rl_maxBurst rl + (last (w # ts) - w) div Second * rl_rate rl"
proof -
  have w: "rl_lastTime rl \<le> w" using assms(2) by simp
  obtain rl1 b where a: "Allow w rl = (rl1, b)" by (cases "Allow w rl")
  have ok: "rl_ok rl1" "rl_lastTime rl1 = w" "rl_rate rl1 = rl_rate rl" using Allow_ok [OF assms(1) w] a by simp_all
  have "rl_tokens rl1 + of_bool b \<le> rl_maxBurst rl" using Allow_capped [OF assms(1) w] a by simp
  moreover have "rl_tokens (fst (allow_run rl1 ts)) + int (length (filter (\<lambda>b. b) (snd (allow_run rl1 ts))))
      \<le> rl_tokens rl1 + (last (w # ts) - w) div Second * rl_rate rl"
    and "0 \<le> rl_tokens (fst (allow_run rl1 ts))"
    using allow_run_balance [OF ok(1), of ts] ok(2,3) assms(2) by (auto simp: rl_ok_def)
  ultimately show ?thesis using a by (cases b) (simp_all add: split_beta Let_def)
qed

section \<open>Lemmas on the duplicate filter\<close>

definition df_ok :: "DuplicateFilter \<Rightarrow> bool" where
  "df_ok df \<longleftrightarrow> gm_wf (df_seen df) \<and> 0 < df_ttl df \<and> in_int64 (df_ttl df)"

lemma df_step_ok [simp]: "df_ok df \<Longrightarrow> df_ok (df_step e df)"
  by (cases e) (auto simp: df_ok_def Seen_def df_cleanup_def split: option.splits)

lemma df_step_ttl [simp]: "df_ttl (df_step e df) = df_ttl df"
  by (cases e) (auto simp: Seen_def df_cleanup_def split: option.splits)

lemma df_fold_ok: "df_ok df \<Longrightarrow> df_ok (fold df_step es df) \<and> df_ttl (fold df_step es df) = df_ttl df"
  by (induction es arbitrary: df) auto

lemma df_step_keeps:
  assumes "df_ok df" and "map_of (df_seen df) m = Some t" and "event_time e \<le> t + df_ttl df"
  shows "map_of (df_seen (df_step e df)) m = Some t"
proof (cases e)
  case (EvSeen t' m')
  with assms(2) show ?thesis by (auto simp: Seen_def split: option.splits)
next
  case (EvCleanup t')
  have "clamp64 (t' - t) \<le> clamp64 (df_ttl df)" using assms(3) EvCleanup by (intro clamp64_mono) simp
  moreover have "clamp64 (df_ttl df) = df_ttl df"
    using assms(1) by (intro clamp64_id) (simp add: df_ok_def)
  ultimately show ?thesis
    using assms EvCleanup by (simp add: df_cleanup_def df_ok_def map_of_gm_filter time_Sub_def)
qed

lemma df_fold_keeps:
  "df_ok df \<Longrightarrow> map_of (df_seen df) m = Some t \<Longrightarrow> \<forall>e \<in> set es. event_time e \<le> t + df_ttl df \<Longrightarrow>
     map_of (df_seen (fold df_step es df)) m = Some t"
  by (induction es arbitrary: df) (simp_all add: df_step_keeps)

lemma Seen_records: "snd (Seen now m df) = False \<Longrightarrow> map_of (df_seen (fst (Seen now m df))) m = Some now"
  by (auto simp: Seen_def split: option.splits)

section \<open>Properties\<close>

text \<open>C25: In every window of calls the token bucket grants at most its burst plus the rate times the whole seconds
  from the first to the last call of the window, whatever calls came before and however long the bucket was left alone,
  for every rate and burst up to \<open>10 ^ 8\<close> (no arithmetic overflow can lift the limit).\<close>

theorem broadcast_rate_bounded:
  assumes "rl = NewRateLimiter t0 rate burst" and "rate \<le> 10 ^ 8" and "burst \<le> 10 ^ 8"
    and "sorted (t0 # before @ w # window)"
  shows "int (length (filter (\<lambda>b. b) (drop (length before) (snd (allow_run rl (before @ w # window))))))
    \<le> rl_maxBurst rl + (last (w # window) - w) div Second * rl_rate rl"
proof -
  let ?rl = "fst (allow_run rl before)"
  have ok: "rl_ok rl" "rl_lastTime rl = t0"
    using assms(1-3) by (auto simp: NewRateLimiter_def Let_def rl_ok_def defaultRate_def defaultMaxBurst_def)
  have sorted: "sorted (t0 # before)" "sorted (last (t0 # before) # w # window)"
    using assms(4) by (auto simp: sorted_append split: if_splits)
  have "snd (allow_run rl (before @ w # window)) = snd (allow_run rl before) @ snd (allow_run ?rl (w # window))"
    by (rule allow_run_append)
  then have "drop (length before) (snd (allow_run rl (before @ w # window))) = snd (allow_run ?rl (w # window))"
    using allow_run_append(2) [of rl before] by (simp del: allow_run.simps)
  with window_grants [of ?rl w window] allow_run_ok [OF ok(1), of before] ok(2) sorted show ?thesis
    by (simp del: allow_run.simps)
qed

theorem broadcast_rate_bounded_witness:
  "int (length (filter (\<lambda>b. b) (drop 1 (snd (allow_run (NewRateLimiter 0 1 2) [0, 100 * Second, 100 * Second, 100 * Second, 101 * Second])))))
    \<le> 3"
  using broadcast_rate_bounded [OF refl, of 1 2 0 "[0]" "100 * Second" "[100 * Second, 100 * Second, 101 * Second]"]
  by (simp add: NewRateLimiter_def Let_def del: allow_run.simps)

lemma Allow_short_gap:
  assumes "rl_ok rl" and "rl_lastTime rl \<le> t" and "t < rl_lastTime rl + Second"
  shows "rl_tokens (fst (Allow t rl)) + of_bool (snd (Allow t rl)) = rl_tokens rl"
proof -
  have "dur_secs (time_Sub t (rl_lastTime rl)) \<le> (t - rl_lastTime rl) div Second"
    by (rule elapsed_secs(2) [OF assms(2)])
  then have "dur_secs (time_Sub t (rl_lastTime rl)) = 0"
    using elapsed_secs(1) [OF assms(2)] assms(3) by (simp add: div_pos_pos_trivial assms(2))
  with assms(1) have "refilled t rl = rl_tokens rl" by (simp add: refilled_def rl_ok_def)
  with assms show ?thesis by (auto simp: Allow_exact rl_ok_def)
qed

text \<open>The bucket throws away fractions of a second at every call, allowed or not: a caller whose
  calls are never a full second apart gets the initial burst and then nothing, however long it
  goes on. (The configured rate promises \<open>rate\<close> grants per second.)\<close>

theorem frequent_callers_starve:
  assumes "rl_ok rl" and "successively (\<lambda>t u. t \<le> u \<and> u < t + Second) (rl_lastTime rl # ts)"
  shows "int (length (filter (\<lambda>b. b) (snd (allow_run rl ts)))) \<le> rl_tokens rl"
  using assms
proof (induction ts arbitrary: rl)
  case Nil
  then show ?case by (simp add: rl_ok_def)
next
  case (Cons t ts)
  have t: "rl_lastTime rl \<le> t" "t < rl_lastTime rl + Second" using Cons.prems(2) by simp_all
  have "successively (\<lambda>t u. t \<le> u \<and> u < t + Second) (rl_lastTime (fst (Allow t rl)) # ts)"
    using Cons.prems(2) Allow_ok(2) [OF Cons.prems(1) t(1)] by simp
  from Cons.IH [OF Allow_ok(1) [OF Cons.prems(1) t(1)] this] Allow_short_gap [OF Cons.prems(1) t]
  show ?case by (auto simp: split_beta Let_def of_bool_def split: if_splits)
qed

theorem frequent_callers_starve_witness:
  "int (length (filter (\<lambda>b. b) (snd (allow_run (NewRateLimiter 0 10 1)
     [900000000, 1800000000, 2700000000, 3600000000])))) \<le> 1"
proof -
  have "rl_ok (NewRateLimiter 0 10 1)" by (simp add: NewRateLimiter_def Let_def rl_ok_def)
  with frequent_callers_starve [of "NewRateLimiter 0 10 1" "[900000000, 1800000000, 2700000000, 3600000000]"]
  show ?thesis by (simp add: NewRateLimiter_def Let_def)
qed

text \<open>A caller that waits a full second since the previous call is always allowed.\<close>

theorem patient_callers_allowed:
  assumes "rl_ok rl" and "rl_lastTime rl + Second \<le> now"
  shows "snd (Allow now rl)"
proof -
  have le: "rl_lastTime rl \<le> now" using assms(2) by simp
  have "clamp64 Second \<le> clamp64 (now - rl_lastTime rl)" using assms(2) by (intro clamp64_mono) simp
  then have d: "Second \<le> time_Sub now (rl_lastTime rl)" by (simp add: time_Sub_def clamp64_id)
  then have "1 \<le> dur_secs (time_Sub now (rl_lastTime rl))"
    by (simp add: dur_secs_nonneg pos_imp_zdiv_pos_iff flip: zero_less_one_class.zero_less_one int_one_le_iff_zero_less)
  then have "1 * 1 \<le> dur_secs (time_Sub now (rl_lastTime rl)) * rl_rate rl"
    using assms(1) by (intro mult_mono) (simp_all add: rl_ok_def)
  then have "0 < refilled now rl" using assms(1) by (simp add: refilled_def rl_ok_def)
  with assms le show ?thesis by (simp add: Allow_exact)
qed

theorem patient_callers_allowed_witness:
  "snd (Allow (7 * Second) \<lparr>rl_maxBurst = 10, rl_rate = 10, rl_tokens = 0, rl_lastTime = 6 * Second\<rparr>)"
  by (rule patient_callers_allowed) (simp_all add: rl_ok_def)

text \<open>A message identifier accepted at time \<open>t\<close> is reported as already seen at the end of
  every interleaving of further messages and cleanup ticks whose clock readings are not later
  than \<open>t\<close> plus the filter's lifetime; and a cleanup tick leaves only entries that are not
  older than that lifetime, so the filter does not grow without bound.\<close>

theorem no_message_accepted_twice:
  assumes "df_ok df" and "\<not> snd (Seen t mid df)"
    and "\<forall>e \<in> set es. event_time e \<le> t + df_ttl df"
  shows "snd (Seen now mid (fold df_step es (fst (Seen t mid df)))) \<and>
    list_all (\<lambda>(k, ts). time_Sub now ts \<le> df_ttl df) (df_seen (df_cleanup now df))"
proof
  have "df_ok (fst (Seen t mid df))" "df_ttl (fst (Seen t mid df)) = df_ttl df"
    using assms(1) df_step_ok [of df "EvSeen t mid"] df_step_ttl [of "EvSeen t mid" df] by simp_all
  with assms have "map_of (df_seen (fold df_step es (fst (Seen t mid df)))) mid = Some t"
    by (intro df_fold_keeps Seen_records) simp_all
  then show "snd (Seen now mid (fold df_step es (fst (Seen t mid df))))" by (simp add: Seen_def)
next
  show "list_all (\<lambda>(k, ts). time_Sub now ts \<le> df_ttl df) (df_seen (df_cleanup now df))"
    by (auto simp: df_cleanup_def list_all_iff)
qed

theorem no_message_accepted_twice_witness:
  "snd (Seen 9 ''m1'' (fold df_step [EvSeen 3 ''m2'', EvCleanup 7] (fst (Seen 2 ''m1'' (NewDuplicateFilter 5)))))"
proof -
  have "df_ok (NewDuplicateFilter 5)" by (simp add: df_ok_def NewDuplicateFilter_def)
  with no_message_accepted_twice [of "NewDuplicateFilter 5" 2 "''m1''" "[EvSeen 3 ''m2'', EvCleanup 7]" 9]
  show ?thesis by (simp add: NewDuplicateFilter_def Seen_def)
qed

end
