(* ===== verification/Broadcast.thy ===== *)
theory Broadcast
  imports Signing Rate_Limit "HOL-Library.Word"
begin

unbundle bit_operations_syntax
declare map_of_eq_Some_iff [simp del] Some_eq_map_of_iff [simp del]

text \<open>
  The discovery protocol (\<^verbatim>\<open>internal/discovery/broadcast.go\<close>): the messages, the
  announcer that broadcasts them and the listener that receives, checks and queues them.

  The network is an argument: the interfaces and their addresses as the kernel reports them
  (\<open>net_env\<close>), the resolver and the errors of the sockets. \<^verbatim>\<open>json.Marshal\<close> maps the
  \<open>json\<close> value of a message to its text or an error, and \<^verbatim>\<open>json.Unmarshal\<close> is a decoder
  for each message type; no property of them is assumed except where a theorem says so. A Go
  slice that the code can distinguish from \<^verbatim>\<open>nil\<close> is an optional list.

  A sent datagram is a pair of a target and its bytes; failed sends are only logged by the code.
  The three channels of the listener are queues of at most 100 messages. The listener's
  goroutine is busy with one message at a time: \<open>l_pending\<close> is the message it is trying to
  put into a channel.
\<close>

section \<open>Messages\<close>

abbreviation MessageAnnounce :: string where "MessageAnnounce \<equiv> ''ANNOUNCE''"
abbreviation MessageQuery :: string where "MessageQuery \<equiv> ''QUERY''"
abbreviation MessageResponse :: string where "MessageResponse \<equiv> ''RESPONSE''"
abbreviation MessageTimeAnnounce :: string where "MessageTimeAnnounce \<equiv> ''TIME_ANNOUNCE''"
abbreviation MessageLocationAnnounce :: string where "MessageLocationAnnounce \<equiv> ''LOCATION_ANNOUNCE''"

type_synonym 'a slice = "'a list option"

definition elems :: "'a slice \<Rightarrow> 'a list" where
  "elems s = (case s of None \<Rightarrow> [] | Some xs \<Rightarrow> xs)"

record ServiceInfo =
  si_Name :: string
  si_Port :: int
  si_Addr :: string
  si_Aliases :: "string list"

record BroadcastMessage =
  bm_Type :: string
  bm_MessageID :: string
  bm_Timestamp :: int
  bm_Hostname :: string
  bm_MachineID :: string
  bm_IPs :: "string slice"
  bm_Services :: "ServiceInfo slice"
  bm_Signature :: "MessageSecurity option"
  bm_TTL :: int

record LocationInfo =
  li_Latitude :: float64
  li_Longitude :: float64
  li_Altitude :: float64
  li_Fix :: bool
  li_Satellites :: int

record LocationAnnounceMessage =
  lam_Type :: string
  lam_MessageID :: string
  lam_Timestamp :: int
  lam_SourceID :: string
  lam_Location :: LocationInfo
  lam_Signature :: "MessageSecurity option"

record ClockInfo =
  ci_Stratum :: int
  ci_Precision :: int
  ci_RootDelay :: float64
  ci_RootDispersion :: float64
  ci_ReferenceID :: string
  ci_ReferenceTime :: int

record TimeAnnounceMessage =
  tam_Type :: string
  tam_MessageID :: string
  tam_Timestamp :: int
  tam_ClockInfo :: ClockInfo
  tam_LeapIndicator :: int
  tam_SourceID :: string
  tam_Signature :: "MessageSecurity option"

text \<open>The values that the code hands to \<^verbatim>\<open>json.Marshal\<close>, with their field tags.\<close>

definition json_opt :: "bool \<Rightarrow> string \<Rightarrow> json \<Rightarrow> (string \<times> json) list" where
  "json_opt present key v = (if present then [(key, v)] else [])"

definition json_slice :: "('a \<Rightarrow> json) \<Rightarrow> 'a slice \<Rightarrow> json" where
  "json_slice f s = (case s of None \<Rightarrow> JNull | Some xs \<Rightarrow> JArr (map f xs))"

definition json_ServiceInfo :: "ServiceInfo \<Rightarrow> json" where
  "json_ServiceInfo s =
     JObj ([(''name'', JStr (si_Name s)), (''port'', JInt (si_Port s)), (''addr'', JStr (si_Addr s))]
       @ json_opt (si_Aliases s \<noteq> []) ''aliases'' (JArr (map JStr (si_Aliases s))))"

definition json_MessageSecurity :: "MessageSecurity \<Rightarrow> json" where
  "json_MessageSecurity ms =
     JObj (json_opt (ms_Signature ms \<noteq> []) ''signature'' (JStr (ms_Signature ms))
       @ json_opt (ms_Signer ms \<noteq> []) ''signer'' (JStr (ms_Signer ms))
       @ json_opt (ms_Nonce ms \<noteq> []) ''nonce'' (JStr (ms_Nonce ms))
       @ [(''timestamp'', JInt (ms_Timestamp ms))])"

definition signed_payload :: "BroadcastMessage \<Rightarrow> json" where
  "signed_payload msg =
     JObj [(''type'', JStr (bm_Type msg)), (''message_id'', JStr (bm_MessageID msg)),
       (''timestamp'', JInt (bm_Timestamp msg)), (''hostname'', JStr (bm_Hostname msg)),
       (''ips'', json_slice JStr (bm_IPs msg)), (''services'', json_slice json_ServiceInfo (bm_Services msg)),
       (''ttl'', JInt (bm_TTL msg))]"

definition json_BroadcastMessage :: "BroadcastMessage \<Rightarrow> json" where
  "json_BroadcastMessage msg =
     JObj ([(''type'', JStr (bm_Type msg)), (''message_id'', JStr (bm_MessageID msg)),
       (''timestamp'', JInt (bm_Timestamp msg)), (''hostname'', JStr (bm_Hostname msg))]
       @ json_opt (bm_MachineID msg \<noteq> []) ''machine_id'' (JStr (bm_MachineID msg))
       @ [(''ips'', json_slice JStr (bm_IPs msg)), (''services'', json_slice json_ServiceInfo (bm_Services msg))]
       @ (case bm_Signature msg of None \<Rightarrow> [] | Some ms \<Rightarrow> [(''signature'', json_MessageSecurity ms)])
       @ [(''ttl'', JInt (bm_TTL msg))])"

definition json_ClockInfo :: "ClockInfo \<Rightarrow> json" where
  "json_ClockInfo c =
     JObj [(''stratum'', JInt (ci_Stratum c)), (''precision'', JInt (ci_Precision c)),
       (''root_delay'', JNum (ci_RootDelay c)), (''root_dispersion'', JNum (ci_RootDispersion c)),
       (''reference_id'', JStr (ci_ReferenceID c)), (''reference_time'', JInt (ci_ReferenceTime c))]"

definition signed_time_payload :: "TimeAnnounceMessage \<Rightarrow> json" where
  "signed_time_payload msg =
     JObj [(''type'', JStr (tam_Type msg)), (''message_id'', JStr (tam_MessageID msg)),
       (''timestamp'', JInt (tam_Timestamp msg)), (''clock_info'', json_ClockInfo (tam_ClockInfo msg)),
       (''leap_indicator'', JInt (tam_LeapIndicator msg)), (''source_id'', JStr (tam_SourceID msg))]"

section \<open>Network\<close>

type_synonym byte = "8 word"
type_synonym IP = "byte list"
type_synonym udp_addr = "IP \<times> int"
type_synonym marshaller = "json \<Rightarrow> string + string"
type_synonym mac = "string \<Rightarrow> string \<Rightarrow> string"

datatype net_addr = IPNet IP "byte list" | IPAddr IP | OtherAddr

record net_Interface =
  if_Name :: string
  if_Flags :: int

definition FlagUp :: int where "FlagUp = 1"
definition FlagLoopback :: int where "FlagLoopback = 4"

record net_env =
  ne_Interfaces :: "string + net_Interface list"
  ne_Addrs :: "net_Interface \<Rightarrow> string + net_addr list"
  ne_resolve :: "string \<Rightarrow> string + udp_addr"

text \<open>The methods of \<^verbatim>\<open>net.IP\<close>.\<close>

definition To4 :: "IP \<Rightarrow> IP option" where
  "To4 ip =
     (if length ip = 4 then Some ip
      else if length ip = 16 \<and> take 10 ip = replicate 10 0 \<and> take 2 (drop 10 ip) = [255, 255] then Some (drop 12 ip)
      else None)"

definition IsLoopback :: "IP \<Rightarrow> bool" where
  "IsLoopback ip = (case To4 ip of Some ip4 \<Rightarrow> ip4 ! 0 = 127 | None \<Rightarrow> ip = replicate 15 0 @ [1])"

definition ip4_String :: "IP \<Rightarrow> string" where
  "ip4_String ip = join_with ''.'' (map (\<lambda>b. dec_nat (unat b)) ip)"

section \<open>Announcer\<close>

record Announcer =
  a_broadcastAddr :: string
  a_hostname :: string
  a_machineID :: string
  a_interval :: duration
  a_services :: "(string, ServiceInfo) gomap"
  a_rateLimiter :: RateLimiter
  a_keyManager :: "KeyManager option"
  a_cachedBroadcastAddr :: udp_addr
  a_cachedPort :: string
  a_ifaceFilter :: "(string, bool) gomap"
  a_ifaceCache :: "net_Interface list"
  a_ifaceCacheTime :: time
  a_ifaceCacheTTL :: duration

text \<open>\<open>listen\<close> is the result of opening the socket. The zero time is the year 1.\<close>

definition zero_time :: time where "zero_time = - 62135596800 * Second"

definition NewAnnouncer :: "net_env \<Rightarrow> (string + unit) \<Rightarrow> time \<Rightarrow> string \<Rightarrow> string \<Rightarrow> string \<Rightarrow> duration
    \<Rightarrow> KeyManager option \<Rightarrow> string list \<Rightarrow> string + Announcer" where
  "NewAnnouncer env listen now broadcastAddr hostname machineID interval keyManager interfaces =
     (case ne_resolve env broadcastAddr of
        Inl err \<Rightarrow> Inl (''failed to resolve broadcast address: '' @ err)
      | Inr addr \<Rightarrow>
          (case SplitHostPort broadcastAddr of
             Inl err \<Rightarrow> Inl (''failed to parse broadcast address: '' @ ''address '' @ broadcastAddr @ '': '' @ addr_error_text err)
           | Inr (_, port) \<Rightarrow>
               (case listen of
                  Inl err \<Rightarrow> Inl (''failed to create UDP connection: '' @ err)
                | Inr _ \<Rightarrow>
                    Inr \<lparr>a_broadcastAddr = broadcastAddr, a_hostname = hostname, a_machineID = machineID,
                         a_interval = interval, a_services = [],
                         a_rateLimiter = NewRateLimiter now 10 10, a_keyManager = keyManager,
                         a_cachedBroadcastAddr = addr, a_cachedPort = port,
                         a_ifaceFilter = fold (\<lambda>name. AList.update name True) interfaces [],
                         a_ifaceCache = [], a_ifaceCacheTime = zero_time,
                         a_ifaceCacheTTL = 30 * Second\<rparr>)))"

text \<open>\<^verbatim>\<open>net.Interfaces\<close> returns \<^verbatim>\<open>nil\<close> when there is none, so an empty cache is a missing one.\<close>

definition getCachedInterfaces :: "net_env \<Rightarrow> time \<Rightarrow> Announcer \<Rightarrow> Announcer \<times> net_Interface list" where
  "getCachedInterfaces env now a =
     (if a_ifaceCache a \<noteq> [] \<and> time_Sub now (a_ifaceCacheTime a) < a_ifaceCacheTTL a then (a, a_ifaceCache a)
      else (case ne_Interfaces env of
              Inl _ \<Rightarrow> (a, a_ifaceCache a)
            | Inr ifaces \<Rightarrow> (a\<lparr>a_ifaceCache := ifaces, a_ifaceCacheTime := now\<rparr>, ifaces)))"

definition iface_selected :: "Announcer \<Rightarrow> net_Interface \<Rightarrow> bool" where
  "iface_selected a iface \<longleftrightarrow>
     \<not> (a_ifaceFilter a \<noteq> [] \<and> map_of (a_ifaceFilter a) (if_Name iface) \<noteq> Some True)"

fun local_ip :: "net_addr \<Rightarrow> string list" where
  "local_ip (IPNet ip msk) = (if IsLoopback ip then [] else case To4 ip of Some ip4 \<Rightarrow> [ip4_String ip4] | None \<Rightarrow> [])"
| "local_ip (IPAddr ip) = (if IsLoopback ip then [] else case To4 ip of Some ip4 \<Rightarrow> [ip4_String ip4] | None \<Rightarrow> [])"
| "local_ip OtherAddr = []"

definition getLocalIPs :: "net_env \<Rightarrow> time \<Rightarrow> Announcer \<Rightarrow> Announcer \<times> string slice" where
  "getLocalIPs env now a =
     (let (a1, ifaces) = getCachedInterfaces env now a;
          ips = concat (map (\<lambda>iface.
            if \<not> iface_selected a iface then []
            else if if_Flags iface AND FlagLoopback \<noteq> 0 then []
            else case ne_Addrs env iface of
                   Inl _ \<Rightarrow> []
                 | Inr addrs \<Rightarrow> concat (map local_ip addrs)) ifaces)
      in (a1, if ips = [] then None else Some ips))"

text \<open>The signature that is attached when there is a key; on an error the message goes out unsigned.\<close>

definition sign_announcement :: "mac \<Rightarrow> marshaller \<Rightarrow> read_result \<Rightarrow> time \<Rightarrow> KeyManager option \<Rightarrow> BroadcastMessage
    \<Rightarrow> BroadcastMessage" where
  "sign_announcement hm marshal rnd now keyManager msg =
     (case keyManager of
        None \<Rightarrow> msg
      | Some km \<Rightarrow>
          (case marshal (signed_payload msg) of
             Inl _ \<Rightarrow> msg
           | Inr sigData \<Rightarrow>
               (case Sign hm rnd now km sigData of
                  Inl _ \<Rightarrow> msg
                | Inr sig \<Rightarrow> msg\<lparr>bm_Signature := Some sig\<rparr>)))"

definition createAnnouncement :: "net_env \<Rightarrow> mac \<Rightarrow> marshaller \<Rightarrow> read_result \<Rightarrow> time \<Rightarrow> Announcer
    \<Rightarrow> Announcer \<times> BroadcastMessage" where
  "createAnnouncement env hm marshal rnd now a =
     (let services = map snd (a_services a);
          (a1, ips) = getLocalIPs env now a;
          msg = \<lparr>bm_Type = MessageAnnounce, bm_MessageID = a_hostname a @ ''-'' @ itoa now,
                 bm_Timestamp = unix_secs now, bm_Hostname = a_hostname a, bm_MachineID = a_machineID a,
                 bm_IPs = ips, bm_Services = Some services, bm_Signature = None, bm_TTL = 3600\<rparr>
      in (a1, sign_announcement hm marshal rnd now (a_keyManager a) msg))"

text \<open>The directed broadcast address of an interface address.\<close>

definition broadcast_ip :: "IP \<Rightarrow> byte list \<Rightarrow> IP" where
  "broadcast_ip ip4 msk = map (\<lambda>i. (ip4 ! i) OR NOT (msk ! i)) [0..<4]"

fun addr_target :: "net_env \<Rightarrow> string \<Rightarrow> net_addr \<Rightarrow> udp_addr list" where
  "addr_target env port (IPNet ip msk) =
     (case To4 ip of
        None \<Rightarrow> []
      | Some ip4 \<Rightarrow>
          if length msk = 4 then
            (case ne_resolve env (ip4_String (broadcast_ip ip4 msk) @ '':'' @ port) of
               Inl _ \<Rightarrow> []
             | Inr target \<Rightarrow> [target])
          else [])"
| "addr_target env port _ = []"

definition iface_targets :: "net_env \<Rightarrow> Announcer \<Rightarrow> net_Interface \<Rightarrow> udp_addr list" where
  "iface_targets env a iface =
     (if if_Flags iface AND FlagUp = 0 \<or> if_Flags iface AND FlagLoopback \<noteq> 0 then []
      else if \<not> iface_selected a iface then []
      else case ne_Addrs env iface of
             Inl _ \<Rightarrow> []
           | Inr addrs \<Rightarrow> concat (map (addr_target env (a_cachedPort a)) addrs))"

definition sendAnnouncement :: "net_env \<Rightarrow> mac \<Rightarrow> marshaller \<Rightarrow> read_result \<Rightarrow> time \<Rightarrow> Announcer
    \<Rightarrow> Announcer \<times> (udp_addr \<times> string) list" where
  "sendAnnouncement env hm marshal rnd now a =
     (let (a1, msg) = createAnnouncement env hm marshal rnd now a
      in case marshal (json_BroadcastMessage msg) of
           Inl _ \<Rightarrow> (a1, [])
         | Inr data \<Rightarrow>
             let (a2, ifaces) = getCachedInterfaces env now a1
             in (a2, (a_cachedBroadcastAddr a, data)
                      # map (\<lambda>target. (target, data)) (concat (map (iface_targets env a) ifaces))))"

definition broadcastUnlimited :: "net_env \<Rightarrow> mac \<Rightarrow> marshaller \<Rightarrow> read_result \<Rightarrow> time \<Rightarrow> Announcer
    \<Rightarrow> Announcer \<times> (udp_addr \<times> string) list" where
  "broadcastUnlimited = sendAnnouncement"

definition broadcast :: "net_env \<Rightarrow> mac \<Rightarrow> marshaller \<Rightarrow> read_result \<Rightarrow> time \<Rightarrow> Announcer
    \<Rightarrow> Announcer \<times> (udp_addr \<times> string) list" where
  "broadcast env hm marshal rnd now a =
     (let (rl, ok) = Allow now (a_rateLimiter a); a1 = a\<lparr>a_rateLimiter := rl\<rparr>
      in if \<not> ok then (a1, []) else sendAnnouncement env hm marshal rnd now a1)"

definition BroadcastNow :: "net_env \<Rightarrow> mac \<Rightarrow> marshaller \<Rightarrow> read_result \<Rightarrow> time \<Rightarrow> Announcer
    \<Rightarrow> Announcer \<times> (udp_addr \<times> string) list" where
  "BroadcastNow = broadcastUnlimited"

definition AddService :: "string \<Rightarrow> int \<Rightarrow> string \<Rightarrow> string list \<Rightarrow> Announcer \<Rightarrow> Announcer" where
  "AddService name port addr aliases a =
     a\<lparr>a_services := AList.update name
        \<lparr>si_Name = name, si_Port = port, si_Addr = addr, si_Aliases = aliases\<rparr> (a_services a)\<rparr>"

definition RemoveService :: "string \<Rightarrow> Announcer \<Rightarrow> Announcer" where
  "RemoveService name a = a\<lparr>a_services := AList.delete name (a_services a)\<rparr>"

section \<open>Listener\<close>

datatype delivery = DMsg BroadcastMessage | DTime TimeAnnounceMessage | DLoc LocationAnnounceMessage

record Listener =
  l_broadcastAddr :: string
  l_messageChan :: "BroadcastMessage list"
  l_timeMessageChan :: "TimeAnnounceMessage list"
  l_locationMessageChan :: "LocationAnnounceMessage list"
  l_duplicateFilter :: DuplicateFilter
  l_keyManager :: "KeyManager option"
  l_requireSigned :: bool
  l_pending :: "delivery option"

record rawMessage =
  raw_Type :: string
  raw_MessageID :: string

record decoders =
  dec_raw :: "string \<Rightarrow> rawMessage option"
  dec_msg :: "string \<Rightarrow> BroadcastMessage option"
  dec_time :: "string \<Rightarrow> TimeAnnounceMessage option"
  dec_loc :: "string \<Rightarrow> LocationAnnounceMessage option"

definition chan_size :: nat where "chan_size = 100"

definition NewListener :: "net_env \<Rightarrow> (string + unit) \<Rightarrow> string \<Rightarrow> KeyManager option \<Rightarrow> bool
    \<Rightarrow> string + Listener" where
  "NewListener env listen broadcastAddr keyManager requireSigned =
     (if requireSigned \<and> keyManager = None then Inl ''requireSigned requires a key manager''
      else (case SplitHostPort broadcastAddr of
              Inl err \<Rightarrow> Inl (''failed to parse broadcast address: '' @ ''address '' @ broadcastAddr @ '': '' @ addr_error_text err)
            | Inr (_, port) \<Rightarrow>
                (case ne_resolve env (''0.0.0.0:'' @ port) of
                   Inl err \<Rightarrow> Inl (''failed to resolve UDP address: '' @ err)
                 | Inr addr \<Rightarrow>
                     (case listen of
                        Inl err \<Rightarrow> Inl (''failed to listen on UDP: '' @ err)
                      | Inr _ \<Rightarrow>
                          Inr \<lparr>l_broadcastAddr = broadcastAddr, l_messageChan = [], l_timeMessageChan = [],
                               l_locationMessageChan = [], l_duplicateFilter = NewDuplicateFilter (5 * Minute),
                               l_keyManager = keyManager, l_requireSigned = requireSigned,
                               l_pending = None\<rparr>))))"

text \<open>The check of a signature: the marshalling error is dropped, so a failure checks no bytes.\<close>

definition marshalled :: "marshaller \<Rightarrow> json \<Rightarrow> string" where
  "marshalled marshal j = (case marshal j of Inl _ \<Rightarrow> [] | Inr data \<Rightarrow> data)"

definition signature_ok :: "mac \<Rightarrow> marshaller \<Rightarrow> time \<Rightarrow> Listener \<Rightarrow> json \<Rightarrow> MessageSecurity option \<Rightarrow> bool" where
  "signature_ok hm marshal now l payload sig \<longleftrightarrow>
     \<not> (l_requireSigned l \<and> sig = None) \<and>
     (case l_keyManager l of
        None \<Rightarrow> True
      | Some km \<Rightarrow> sig = None \<or> Verify hm now km (marshalled marshal payload) sig)"

definition handleTimeMessage :: "decoders \<Rightarrow> mac \<Rightarrow> marshaller \<Rightarrow> time \<Rightarrow> Listener \<Rightarrow> string \<Rightarrow> delivery option" where
  "handleTimeMessage dec hm marshal now l data =
     (case dec_time dec data of
        None \<Rightarrow> None
      | Some timeMsg \<Rightarrow>
          if signature_ok hm marshal now l (signed_time_payload timeMsg) (tam_Signature timeMsg)
          then Some (DTime timeMsg) else None)"

definition handleLocationMessage :: "decoders \<Rightarrow> string \<Rightarrow> delivery option" where
  "handleLocationMessage dec data = map_option DLoc (dec_loc dec data)"

text \<open>What a read returns of a datagram: the part that fits the buffer of 4096 bytes.\<close>

definition buf_size :: nat where "buf_size = 4096"

definition read_datagram :: "string \<Rightarrow> string" where
  "read_datagram datagram = take buf_size datagram"

text \<open>The bytes read, through the loop of \<^verbatim>\<open>Listener.Start\<close> up to the channel send.\<close>

definition receive :: "decoders \<Rightarrow> mac \<Rightarrow> marshaller \<Rightarrow> time \<Rightarrow> string \<Rightarrow> Listener \<Rightarrow> Listener \<times> delivery option" where
  "receive dec hm marshal now data l =
     (case dec_raw dec data of
        None \<Rightarrow> (l, None)
      | Some raw \<Rightarrow>
          let (df, dup) = Seen now (raw_MessageID raw) (l_duplicateFilter l); l1 = l\<lparr>l_duplicateFilter := df\<rparr>
          in if dup then (l1, None)
             else if raw_Type raw = MessageTimeAnnounce then (l1, handleTimeMessage dec hm marshal now l1 data)
             else if raw_Type raw = MessageLocationAnnounce then (l1, handleLocationMessage dec data)
             else (case dec_msg dec data of
                     None \<Rightarrow> (l1, None)
                   | Some msg \<Rightarrow>
                       if signature_ok hm marshal now l1 (signed_payload msg) (bm_Signature msg)
                       then (l1, Some (DMsg msg)) else (l1, None)))"

text \<open>A send into a buffered channel: \<open>None\<close> while the channel is full.\<close>

fun chan_send :: "delivery \<Rightarrow> Listener \<Rightarrow> Listener option" where
  "chan_send (DMsg m) l =
     (if length (l_messageChan l) < chan_size then Some (l\<lparr>l_messageChan := l_messageChan l @ [m]\<rparr>) else None)"
| "chan_send (DTime m) l =
     (if length (l_timeMessageChan l) < chan_size then Some (l\<lparr>l_timeMessageChan := l_timeMessageChan l @ [m]\<rparr>)
      else None)"
| "chan_send (DLoc m) l =
     (if length (l_locationMessageChan l) < chan_size
      then Some (l\<lparr>l_locationMessageChan := l_locationMessageChan l @ [m]\<rparr>) else None)"

text \<open>
  The listener's goroutine, its filter's cleanup and the readers of its channels, interleaved.
  The reader of the time channel exists only if the program started one (\<open>time_reader\<close>), as
  does the reader of the location channel.
\<close>

inductive listener_step :: "decoders \<Rightarrow> mac \<Rightarrow> marshaller \<Rightarrow> bool \<Rightarrow> bool \<Rightarrow> Listener \<Rightarrow> Listener \<Rightarrow> bool"
  for dec :: decoders and hm :: mac and marshal :: marshaller and time_reader :: bool and loc_reader :: bool where
  recv: "l_pending l = None \<Longrightarrow> receive dec hm marshal now (read_datagram datagram) l = (l', d) \<Longrightarrow>
     listener_step dec hm marshal time_reader loc_reader l (l'\<lparr>l_pending := d\<rparr>)"
| send: "l_pending l = Some d \<Longrightarrow> chan_send d l = Some l' \<Longrightarrow>
     listener_step dec hm marshal time_reader loc_reader l (l'\<lparr>l_pending := None\<rparr>)"
| take_msg: "l_messageChan l = m # ms \<Longrightarrow>
     listener_step dec hm marshal time_reader loc_reader l (l\<lparr>l_messageChan := ms\<rparr>)"
| take_time: "time_reader \<Longrightarrow> l_timeMessageChan l = m # ms \<Longrightarrow>
     listener_step dec hm marshal time_reader loc_reader l (l\<lparr>l_timeMessageChan := ms\<rparr>)"
| take_loc: "loc_reader \<Longrightarrow> l_locationMessageChan l = m # ms \<Longrightarrow>
     listener_step dec hm marshal time_reader loc_reader l (l\<lparr>l_locationMessageChan := ms\<rparr>)"
| tidy: "listener_step dec hm marshal time_reader loc_reader l
     (l\<lparr>l_duplicateFilter := df_cleanup now (l_duplicateFilter l)\<rparr>)"

inductive_cases listener_stepE: "listener_step dec hm marshal tr lr l l'"

section \<open>Lemmas on the listener\<close>

lemma read_datagram_short [simp]: "length datagram \<le> buf_size \<Longrightarrow> read_datagram datagram = datagram"
  by (simp add: read_datagram_def)

lemma receive_frame:
  assumes "receive dec hm marshal now data l = (l', d)"
  shows "l' = l\<lparr>l_duplicateFilter := l_duplicateFilter l'\<rparr>"
  using assms by (auto simp: receive_def Let_def split: option.splits if_splits prod.splits)

lemma chan_send_frame:
  "chan_send d l = Some l' \<Longrightarrow> l_keyManager l' = l_keyManager l \<and> l_requireSigned l' = l_requireSigned l
     \<and> l_duplicateFilter l' = l_duplicateFilter l"
  by (cases d) (auto split: if_splits)

text \<open>A message whose signature a trusted peer's key verified at some time.\<close>

definition authentic :: "mac \<Rightarrow> marshaller \<Rightarrow> KeyManager \<Rightarrow> delivery \<Rightarrow> bool" where
  "authentic hm marshal km d =
     (case d of
        DMsg m \<Rightarrow> \<exists>now. Verify hm now km (marshalled marshal (signed_payload m)) (bm_Signature m)
      | DTime m \<Rightarrow> \<exists>now. Verify hm now km (marshalled marshal (signed_time_payload m)) (tam_Signature m)
      | DLoc _ \<Rightarrow> True)"

definition queued :: "Listener \<Rightarrow> delivery list" where
  "queued l = map DMsg (l_messageChan l) @ map DTime (l_timeMessageChan l) @ map DLoc (l_locationMessageChan l)
     @ (case l_pending l of None \<Rightarrow> [] | Some d \<Rightarrow> [d])"

definition signed_listener :: "mac \<Rightarrow> marshaller \<Rightarrow> KeyManager \<Rightarrow> Listener \<Rightarrow> bool" where
  "signed_listener hm marshal km l \<longleftrightarrow> l_keyManager l = Some km \<and> l_requireSigned l
     \<and> list_all (authentic hm marshal km) (queued l)
     \<and> length (l_messageChan l) \<le> chan_size \<and> length (l_timeMessageChan l) \<le> chan_size
     \<and> length (l_locationMessageChan l) \<le> chan_size"

lemma signature_ok_Verify:
  "signature_ok hm marshal now l payload sig \<Longrightarrow> l_requireSigned l \<Longrightarrow> l_keyManager l = Some km \<Longrightarrow>
     Verify hm now km (marshalled marshal payload) sig"
  by (auto simp: signature_ok_def)

lemma receive_authentic:
  assumes "receive dec hm marshal now data l = (l', Some d)" and "l_requireSigned l" and "l_keyManager l = Some km"
  shows "authentic hm marshal km d"
  using assms
  by (auto simp: receive_def handleTimeMessage_def handleLocationMessage_def authentic_def Let_def
      dest!: signature_ok_Verify split: option.splits if_splits prod.splits)

lemma signed_listener_step:
  assumes "signed_listener hm marshal km l" and "listener_step dec hm marshal tr lr l l'"
  shows "signed_listener hm marshal km l'"
  using assms(2)
proof cases
  case (recv now datagram l1 d)
  have "case d of None \<Rightarrow> True | Some x \<Rightarrow> authentic hm marshal km x"
    using receive_authentic [of dec hm marshal now "read_datagram datagram" l l1] recv assms(1)
    by (auto simp: signed_listener_def split: option.splits)
  with receive_frame [OF recv(3)] recv(1,2) assms(1) show ?thesis
    by (cases l, cases l1) (auto simp: signed_listener_def queued_def split: option.splits)
next
  case (send d l1)
  with assms(1) show ?thesis
    by (cases d) (auto simp: signed_listener_def queued_def split: if_splits)
qed (use assms(1) in \<open>auto simp: signed_listener_def queued_def\<close>)

lemma NewListener_fields:
  "NewListener env listen addr km req = Inr l \<Longrightarrow> l_keyManager l = km \<and> l_requireSigned l = req \<and> queued l = []
     \<and> l_messageChan l = [] \<and> l_timeMessageChan l = [] \<and> l_locationMessageChan l = [] \<and> l_pending l = None
     \<and> l_duplicateFilter l = NewDuplicateFilter (5 * Minute)"
  by (auto simp: NewListener_def queued_def split: if_splits sum.splits prod.splits)

interpretation signed_ts: transition_system
  "\<lambda>l. NewListener env listen addr (Some km) True = Inr l" "listener_step dec hm marshal tr lr"
  "signed_listener hm marshal km"
  for env listen addr km dec hm marshal tr lr
proof
  show "signed_listener hm marshal km l" if "NewListener env listen addr (Some km) True = Inr l" for l
    using NewListener_fields [OF that] by (simp add: signed_listener_def)
qed (rule signed_listener_step)

text \<open>A listener whose goroutine waits for a place in a time channel that nobody reads.\<close>

definition stalled :: "Listener \<Rightarrow> bool" where
  "stalled l \<longleftrightarrow> length (l_timeMessageChan l) = chan_size \<and> (\<exists>m. l_pending l = Some (DTime m))"

lemma stalled_step:
  assumes "stalled l" and "listener_step dec hm marshal False lr l l'"
  shows "stalled l' \<and> (\<exists>k. l_messageChan l' = drop k (l_messageChan l))"
  using assms(2)
proof cases
  case (take_msg m ms)
  then have "l_messageChan l' = drop 1 (l_messageChan l)" by simp
  moreover have "stalled l'" using take_msg assms(1) by (simp add: stalled_def)
  ultimately show ?thesis by blast
qed (use assms(1) in \<open>auto simp: stalled_def intro: exI [of _ 0]\<close>)

lemma stalled_steps:
  assumes "(listener_step dec hm marshal False lr)\<^sup>*\<^sup>* l l'" and "stalled l"
  shows "stalled l' \<and> (\<exists>k. l_messageChan l' = drop k (l_messageChan l))"
  using assms(1)
proof (induction rule: rtranclp_induct)
  case base
  show ?case using assms(2) by (auto intro: exI [of _ 0])
next
  case (step x y)
  then obtain k where "stalled x" "l_messageChan x = drop k (l_messageChan l)" by blast
  moreover obtain j where "stalled y" "l_messageChan y = drop j (l_messageChan x)"
    using stalled_step [OF \<open>stalled x\<close> step.hyps(2)] by blast
  ultimately show ?case by (auto intro: exI [of _ "j + k"])
qed

text \<open>Datagrams that decode to unsigned time announcements.\<close>

definition time_datagram :: "decoders \<Rightarrow> string \<Rightarrow> bool" where
  "time_datagram dec data \<longleftrightarrow>
     length data \<le> buf_size \<and> (\<exists>raw m. dec_raw dec data = Some raw \<and> raw_Type raw = MessageTimeAnnounce
        \<and> dec_time dec data = Some m \<and> tam_Signature m = None)"

abbreviation datagram_id :: "decoders \<Rightarrow> string \<Rightarrow> string" where
  "datagram_id dec data \<equiv> raw_MessageID (the (dec_raw dec data))"

lemma receive_time_datagram:
  assumes "time_datagram dec data" and "\<not> l_requireSigned l"
    and "map_of (df_seen (l_duplicateFilter l)) (datagram_id dec data) = None"
  shows "\<exists>m. receive dec hm marshal now data l =
    (l\<lparr>l_duplicateFilter := fst (Seen now (datagram_id dec data) (l_duplicateFilter l))\<rparr>, Some (DTime m))"
  using assms by (auto simp: time_datagram_def receive_def Seen_def handleTimeMessage_def signature_ok_def
      split: option.splits)

lemma time_flood:
  assumes "\<forall>data \<in> set ds. time_datagram dec data" and "distinct (map (datagram_id dec) ds)"
    and "\<not> l_requireSigned l" and "l_pending l = None"
    and "\<forall>data \<in> set ds. map_of (df_seen (l_duplicateFilter l)) (datagram_id dec data) = None"
    and "length (l_timeMessageChan l) + length ds = chan_size + 1" and "ds \<noteq> []"
  shows "\<exists>l'. (listener_step dec hm marshal False lr)\<^sup>*\<^sup>* l l' \<and> stalled l' \<and> l_messageChan l' = l_messageChan l"
  using assms
proof (induction ds arbitrary: l)
  case Nil
  then show ?case by simp
next
  case (Cons data ds)
  let ?step = "listener_step dec hm marshal False lr"
  define l1 where "l1 = l\<lparr>l_duplicateFilter := fst (Seen 0 (datagram_id dec data) (l_duplicateFilter l))\<rparr>"
  obtain m where r: "receive dec hm marshal 0 data l = (l1, Some (DTime m))"
    using receive_time_datagram [of dec data l hm marshal 0] Cons.prems unfolding l1_def by auto
  have s1: "?step l (l1\<lparr>l_pending := Some (DTime m)\<rparr>)"
    using listener_step.recv [of l dec hm marshal 0 data l1] r Cons.prems(1,4) by (simp add: time_datagram_def)
  show ?case
  proof (cases "ds = []")
    case True
    with Cons.prems(6) have "stalled (l1\<lparr>l_pending := Some (DTime m)\<rparr>)" by (simp add: stalled_def l1_def)
    moreover have "?step\<^sup>*\<^sup>* l (l1\<lparr>l_pending := Some (DTime m)\<rparr>)" using s1 by blast
    moreover have "l_messageChan (l1\<lparr>l_pending := Some (DTime m)\<rparr>) = l_messageChan l" by (simp add: l1_def)
    ultimately show ?thesis by blast
  next
    case False
    define l2 where "l2 = l1\<lparr>l_timeMessageChan := l_timeMessageChan l @ [m], l_pending := None\<rparr>"
    have "length (l_timeMessageChan l) < chan_size" using False Cons.prems(6) by (cases ds) simp_all
    then have "?step (l1\<lparr>l_pending := Some (DTime m)\<rparr>) l2"
      using listener_step.send [of "l1\<lparr>l_pending := Some (DTime m)\<rparr>" "DTime m"
          "l1\<lparr>l_timeMessageChan := l_timeMessageChan l @ [m], l_pending := Some (DTime m)\<rparr>"]
      by (simp add: l1_def l2_def)
    with s1 have s2: "?step\<^sup>*\<^sup>* l l2" by (meson rtranclp.rtrancl_refl rtranclp.rtrancl_into_rtrancl)
    have "\<exists>l'. ?step\<^sup>*\<^sup>* l2 l' \<and> stalled l' \<and> l_messageChan l' = l_messageChan l2"
      using Cons.prems False
      by (intro Cons.IH) (auto simp: l2_def l1_def Seen_def rev_image_eqI split: option.splits)
    with s2 show ?thesis by (auto simp: l2_def l1_def intro: rtranclp_trans)
  qed
qed

text \<open>The identifier of an accepted datagram stays in the filter for five minutes.\<close>

lemma receive_records:
  assumes "receive dec hm marshal t data l = (l1, Some d)"
  shows "map_of (df_seen (l_duplicateFilter l1)) (datagram_id dec data) = Some t"
  using assms by (auto simp: receive_def Let_def Seen_def split: option.splits if_splits prod.splits)

lemma receive_known:
  assumes "map_of (df_seen (l_duplicateFilter l)) (datagram_id dec data) = Some t"
  shows "snd (receive dec hm marshal now data l) = None"
  using assms by (auto simp: receive_def Let_def Seen_def split: option.splits)

lemma receive_signed:
  assumes "receive dec hm marshal now data l = (l', Some (DMsg m))" and "l_keyManager l = Some km"
    and "bm_Signature m = Some ms"
  shows "Verify hm now km (marshalled marshal (signed_payload m)) (Some ms)" and "dec_msg dec data = Some m"
  using assms by (auto simp: receive_def handleTimeMessage_def handleLocationMessage_def signature_ok_def Let_def
      split: option.splits if_splits prod.splits)

lemma receive_msg_shape:
  assumes "receive dec hm marshal t data l = (l1, Some (DMsg m))"
    and "receive dec hm marshal u data l2 = (l3, Some d)"
  shows "d = DMsg m"
  using assms by (auto simp: receive_def handleTimeMessage_def handleLocationMessage_def Let_def
      split: option.splits if_splits prod.splits)

lemma verify_again:
  assumes "Verify hm t km msg (Some ms)" and "Verify hm now km msg (Some ms)"
    and "- (2 ^ 62) \<le> ms_Timestamp ms" and "t + 300 * Second < now" and "now < 2 ^ 62"
  shows "ms_Timestamp ms = unix_secs t \<and> unix_secs now = unix_secs t + 300"
proof -
  have signed: "ms_Timestamp ms \<le> unix_secs t" using assms(1) by (auto simp: Verify_iff)
  have "unix_secs (t + 300 * Second) \<le> unix_secs now" using assms(4) by (intro unix_secs_mono) simp
  moreover have "unix_secs (t + 300 * Second) = unix_secs t + 300" by (simp add: unix_secs_def)
  ultimately have late: "unix_secs t + 300 \<le> unix_secs now" by simp
  have "unix_secs now < 2 ^ 62" using assms(5)
    by (auto simp: unix_secs_def intro: le_less_trans [OF zdiv_mono1])
  with signed late assms(3) have "wrap64 (unix_secs now - ms_Timestamp ms) = unix_secs now - ms_Timestamp ms"
    by (intro wrap64_id) simp_all
  with assms(2) have "unix_secs now - ms_Timestamp ms \<le> 300" by (auto simp: Verify_iff replayTTL_def)
  with signed late show ?thesis by simp
qed

lemma createAnnouncement_shape:
  assumes "createAnnouncement env hm marshal rnd t a = (a', msg)"
  shows "\<exists>msg0. bm_Signature msg0 = None \<and> bm_Type msg0 = MessageAnnounce \<and> bm_Hostname msg0 = a_hostname a
    \<and> msg = sign_announcement hm marshal rnd t (a_keyManager a) msg0"
  using assms
  by (intro exI [of _ "\<lparr>bm_Type = MessageAnnounce, bm_MessageID = a_hostname a @ ''-'' @ itoa t,
        bm_Timestamp = unix_secs t, bm_Hostname = a_hostname a, bm_MachineID = a_machineID a,
        bm_IPs = snd (getLocalIPs env t a), bm_Services = Some (map snd (a_services a)),
        bm_Signature = None, bm_TTL = 3600\<rparr>"])
     (simp add: createAnnouncement_def split_beta Let_def)

lemma announcement_received:
  assumes "createAnnouncement env hm marshal (Inr nonce) t a = (a', msg)" and "a_keyManager a = Some km"
    and "marshal (signed_payload (msg\<lparr>bm_Signature := None\<rparr>)) = Inr sigData"
    and "dec_raw dec data = Some \<lparr>raw_Type = bm_Type msg, raw_MessageID = bm_MessageID msg\<rparr>"
    and "dec_msg dec data = Some msg"
    and "map_of (df_seen (l_duplicateFilter l)) (bm_MessageID msg) = None"
    and "l_keyManager l = Some km'" and "map_of (km_trustedPeers km') (km_nodeID km) = Some (km_sharedSecret km)"
    and "0 \<le> t" "t \<le> now" "now < 2 ^ 62" "unix_secs now - unix_secs t \<le> 300"
  shows "snd (receive dec hm marshal now data l) = Some (DMsg msg)"
proof -
  obtain msg0 where m0: "bm_Signature msg0 = None" "bm_Type msg0 = MessageAnnounce"
    and m: "msg = sign_announcement hm marshal (Inr nonce) t (Some km) msg0"
    using createAnnouncement_shape [OF assms(1)] assms(2) by auto
  have eq: "msg\<lparr>bm_Signature := None\<rparr> = msg0"
    using m m0(1) by (cases msg0) (auto simp: sign_announcement_def split: sum.splits)
  obtain ms where ms: "Sign hm (Inr nonce) t km sigData = Inr ms" by (simp add: Sign_def generateNonce_def)
  with m eq assms(3) have msg: "msg = msg0\<lparr>bm_Signature := Some ms\<rparr>" by (simp add: sign_announcement_def)
  have "Verify hm now km' sigData (Some ms)"
    using assms(9-12) sign_verify_aux [OF ms assms(8)] by (simp add: unix_secs_mono)
  moreover have "marshalled marshal (signed_payload msg) = sigData"
    using assms(3) eq msg by (simp add: marshalled_def signed_payload_def)
  ultimately show ?thesis
    using assms(4-7) msg m0(2) by (simp add: receive_def Seen_def signature_ok_def)
qed

lemma broadcast_ip_nth: "i < 4 \<Longrightarrow> broadcast_ip ip msk ! i = (ip ! i) OR NOT (msk ! i)"
  by (simp add: broadcast_ip_def nth_append)

section \<open>Data for the witnesses\<close>

definition demo_clock :: ClockInfo where
  "demo_clock = \<lparr>ci_Stratum = 1, ci_Precision = - 20, ci_RootDelay = 0, ci_RootDispersion = 0,
     ci_ReferenceID = ''GPS'', ci_ReferenceTime = 0\<rparr>"

definition demo_env :: net_env where
  "demo_env = \<lparr>ne_Interfaces = Inr [\<lparr>if_Name = ''eth0'', if_Flags = 3\<rparr>],
     ne_Addrs = (\<lambda>_. Inr [IPNet [192, 168, 1, 7] [255, 255, 255, 0]]),
     ne_resolve = (\<lambda>_. Inr ([255, 255, 255, 255], 5354))\<rparr>"

definition demo_msg :: BroadcastMessage where
  "demo_msg = \<lparr>bm_Type = MessageAnnounce, bm_MessageID = ''a-1'', bm_Timestamp = 1000, bm_Hostname = ''a'',
     bm_MachineID = [], bm_IPs = None, bm_Services = Some [], bm_Signature = Some demo_signed, bm_TTL = 3600\<rparr>"

text \<open>Decoders of a small wire format: a datagram is its identifier, time announcements are decimal.\<close>

definition demo_dec :: decoders where
  "demo_dec = \<lparr>dec_raw = (\<lambda>d. Some \<lparr>raw_Type = (if list_all is_digit d then MessageTimeAnnounce
        else if d = ''loc'' then MessageLocationAnnounce else MessageAnnounce), raw_MessageID = d\<rparr>),
     dec_msg = (\<lambda>d. Some demo_msg),
     dec_time = (\<lambda>d. Some \<lparr>tam_Type = MessageTimeAnnounce, tam_MessageID = d, tam_Timestamp = 0,
        tam_ClockInfo = demo_clock, tam_LeapIndicator = 0, tam_SourceID = ''gps'', tam_Signature = None\<rparr>),
     dec_loc = (\<lambda>d. Some \<lparr>lam_Type = MessageLocationAnnounce, lam_MessageID = d, lam_Timestamp = 0,
        lam_SourceID = ''gps'', lam_Location = \<lparr>li_Latitude = 1, li_Longitude = 2, li_Altitude = 3, li_Fix = True,
          li_Satellites = 5\<rparr>, lam_Signature = None\<rparr>)\<rparr>"

definition demo_marshal :: marshaller where
  "demo_marshal j = Inr ''hello''"

definition demo_listener :: "KeyManager option \<Rightarrow> bool \<Rightarrow> Listener" where
  "demo_listener km req = \<lparr>l_broadcastAddr = ''255.255.255.255:5354'', l_messageChan = [], l_timeMessageChan = [],
     l_locationMessageChan = [], l_duplicateFilter = NewDuplicateFilter (5 * Minute), l_keyManager = km,
     l_requireSigned = req, l_pending = None\<rparr>"

lemma demo_split: "SplitHostPort ''255.255.255.255:5354'' = Inr (''255.255.255.255'', ''5354'')"
  using SplitHostPort_plain [of "''255.255.255.255''" "''5354''"] by simp

lemma demo_NewListener:
  "req \<longrightarrow> km \<noteq> None \<Longrightarrow> NewListener demo_env (Inr ()) ''255.255.255.255:5354'' km req = Inr (demo_listener km req)"
  by (simp add: NewListener_def demo_split demo_env_def demo_listener_def)

lemma demo_receive:
  "receive demo_dec demo_mac demo_marshal (1200 * Second) ''a-1'' (demo_listener (Some demo_verifier) True) =
     ((demo_listener (Some demo_verifier) True)\<lparr>l_duplicateFilter :=
        \<lparr>df_seen = [(''a-1'', 1200 * Second)], df_ttl = 5 * Minute\<rparr>\<rparr>, Some (DMsg demo_msg))"
  using demo_signed_ok
  by (simp add: receive_def demo_dec_def demo_listener_def Seen_def NewDuplicateFilter_def signature_ok_def
      marshalled_def demo_marshal_def demo_msg_def is_digit_def)

section \<open>Properties\<close>

text \<open>C11: With \<^verbatim>\<open>require_signed\<close>, in every interleaving of received datagrams, channel
  readers and filter cleanups, each host or time announcement that is queued or about to be queued
  carries a signature that verified under a trusted key, and no channel exceeds its capacity.\<close>

theorem require_signed_authenticates:
  assumes "NewListener env listen addr (Some km) True = Inr l0"
    and "(listener_step dec hm marshal tr lr)\<^sup>*\<^sup>* l0 l"
  shows "list_all (authentic hm marshal km) (queued l) \<and> length (l_messageChan l) \<le> 100
    \<and> length (l_timeMessageChan l) \<le> 100 \<and> length (l_locationMessageChan l) \<le> 100"
  using signed_ts.steps_inv [OF signed_ts.inv_init [OF assms(1)] assms(2)]
  by (simp add: signed_listener_def chan_size_def)

theorem require_signed_authenticates_witness:
  "\<exists>l. list_all (authentic demo_mac demo_marshal demo_verifier) (queued l) \<and> l_pending l = Some (DMsg demo_msg)"
proof -
  let ?fresh = "demo_listener (Some demo_verifier) True"
  let ?l = "(fst (receive demo_dec demo_mac demo_marshal (1200 * Second) ''a-1'' ?fresh))\<lparr>l_pending := Some (DMsg demo_msg)\<rparr>"
  have "listener_step demo_dec demo_mac demo_marshal True True ?fresh ?l"
    using listener_step.recv [of ?fresh demo_dec demo_mac demo_marshal "1200 * Second" "''a-1''" _ "Some (DMsg demo_msg)" True True] demo_receive
    by (simp add: demo_listener_def buf_size_def)
  then have "(listener_step demo_dec demo_mac demo_marshal True True)\<^sup>*\<^sup>* ?fresh ?l" by blast
  from require_signed_authenticates [OF demo_NewListener this]
  have "list_all (authentic demo_mac demo_marshal demo_verifier) (queued ?l)" by simp
  moreover have "l_pending ?l = Some (DMsg demo_msg)" by simp
  ultimately show ?thesis by blast
qed

text \<open>Location announcements are never authenticated: even with \<^verbatim>\<open>require_signed\<close> every
  datagram that decodes as one and has a new identifier is delivered, signed or not.\<close>

theorem location_not_authenticated:
  assumes "dec_raw dec data = Some raw" and "raw_Type raw = MessageLocationAnnounce" and "dec_loc dec data = Some m"
    and "map_of (df_seen (l_duplicateFilter l)) (raw_MessageID raw) = None"
  shows "snd (receive dec hm marshal now data l) = Some (DLoc m)"
  using assms by (simp add: receive_def Seen_def handleLocationMessage_def)

theorem location_not_authenticated_witness:
  "\<exists>m. snd (receive demo_dec demo_mac demo_marshal 5 ''loc'' (demo_listener (Some demo_verifier) True)) = Some (DLoc m)
     \<and> lam_Signature m = None"
proof -
  let ?m = "the (dec_loc demo_dec ''loc'')"
  have "snd (receive demo_dec demo_mac demo_marshal 5 ''loc'' (demo_listener (Some demo_verifier) True)) = Some (DLoc ?m)"
    by (rule location_not_authenticated [where raw = "\<lparr>raw_Type = MessageLocationAnnounce, raw_MessageID = ''loc''\<rparr>"])
       (simp_all add: demo_dec_def demo_listener_def NewDuplicateFilter_def is_digit_def)
  moreover have "lam_Signature ?m = None" by (simp add: demo_dec_def)
  ultimately show ?thesis by blast
qed

text \<open>C21: A verbatim copy of a signed announcement that was accepted at time \<open>t\<close> is rejected at
  every later time, whatever messages and cleanup ticks come in between, with one exception: the
  signature carries the very second of \<open>t\<close>, the clock is in the 300th second after it, and more
  than 300 seconds have passed since \<open>t\<close>. The duplicate filter holds the identifier for 300
  seconds, and the age of the signature, counted in whole seconds, exceeds 300 only from the next
  second on. The stamp is not below \<open>- 2 ^ 62\<close> and the clock is before 2116.\<close>

theorem verbatim_replay_rejected:
  assumes "receive dec hm marshal t data l = (l1, Some (DMsg m))" and "df_ok (l_duplicateFilter l)"
    and "df_ttl (l_duplicateFilter l) = 5 * Minute" and "l_keyManager l = Some km"
    and "bm_Signature m = Some ms" and "- (2 ^ 62) \<le> ms_Timestamp ms"
    and "\<forall>e \<in> set es. event_time e \<le> now" and "now < 2 ^ 62"
    and "l2 = l1\<lparr>l_duplicateFilter := fold df_step es (l_duplicateFilter l1)\<rparr>"
  shows "snd (receive dec hm marshal now data l2) = None
    \<or> ms_Timestamp ms = unix_secs t \<and> unix_secs now = unix_secs t + 300 \<and> t + 300 * Second < now"
proof -
  have l1: "l1 = l\<lparr>l_duplicateFilter := l_duplicateFilter l1\<rparr>" by (rule receive_frame [OF assms(1)])
  have df1: "l_duplicateFilter l1 = df_step (EvSeen t (datagram_id dec data)) (l_duplicateFilter l)"
    using assms(1) by (auto simp: receive_def Let_def split: option.splits if_splits prod.splits)
  show ?thesis
  proof (cases "now \<le> t + 300 * Second")
    case True
    have "map_of (df_seen (fold df_step es (l_duplicateFilter l1))) (datagram_id dec data) = Some t"
    proof (rule df_fold_keeps)
      show "\<forall>e \<in> set es. event_time e \<le> t + df_ttl (l_duplicateFilter l1)"
        using assms(3,7) True unfolding df1 df_step_ttl by fastforce
      show "df_ok (l_duplicateFilter l1)" unfolding df1 using assms(2) by (rule df_step_ok)
    qed (rule receive_records [OF assms(1)])
    then show ?thesis using assms(9) by (intro disjI1 receive_known) simp
  next
    case False
    then have late: "t + 300 * Second < now" by simp
    have km: "l_keyManager l1 = Some km" using assms(4) by (subst l1) simp
    show ?thesis
    proof (cases "snd (receive dec hm marshal now data l2) = None")
      case False
      then obtain l3 d where r: "receive dec hm marshal now data l2 = (l3, Some d)"
        by (cases "receive dec hm marshal now data l2") auto
      have d: "d = DMsg m" by (rule receive_msg_shape [OF assms(1) r])
      have "Verify hm now km (marshalled marshal (signed_payload m)) (Some ms)"
        using receive_signed(1) [OF r [unfolded d] _ assms(5)] km assms(9) by simp
      from verify_again [OF receive_signed(1) [OF assms(1,4,5)] this assms(6) late assms(8)] late
      show ?thesis by simp
    qed simp
  qed
qed

theorem verbatim_replay_rejected_witness:
  "snd (receive demo_dec demo_mac demo_marshal (1501 * Second) ''a-1''
     ((demo_listener (Some demo_verifier) True)\<lparr>l_duplicateFilter :=
        fold df_step [EvCleanup (1501 * Second)] \<lparr>df_seen = [(''a-1'', 1200 * Second)], df_ttl = 5 * Minute\<rparr>\<rparr>)) = None"
proof -
  let ?l = "(demo_listener (Some demo_verifier) True)\<lparr>l_duplicateFilter :=
        \<lparr>df_seen = [(''a-1'', 1200 * Second)], df_ttl = 5 * Minute\<rparr>\<rparr>"
  have "snd (receive demo_dec demo_mac demo_marshal (1501 * Second) ''a-1''
      (?l\<lparr>l_duplicateFilter := fold df_step [EvCleanup (1501 * Second)] (l_duplicateFilter ?l)\<rparr>)) = None
    \<or> ms_Timestamp demo_signed = unix_secs (1200 * Second) \<and> unix_secs (1501 * Second) = unix_secs (1200 * Second) + 300
       \<and> 1200 * Second + 300 * Second < 1501 * Second"
    by (rule verbatim_replay_rejected [OF demo_receive, where es = "[EvCleanup (1501 * Second)]"])
       (auto simp: demo_listener_def NewDuplicateFilter_def df_ok_def demo_msg_def demo_signed_def)
  then show ?thesis by (simp add: demo_signed_def unix_secs_def)
qed

text \<open>The exception happens: an announcement stamped and accepted at 1000 s is accepted a second
  time one nanosecond after 1300 s, when a cleanup tick has dropped its identifier.\<close>

theorem replay_accepted_in_last_second:
  "\<exists>l1 l3. receive demo_dec demo_mac demo_marshal (1000 * Second) ''a-1'' (demo_listener (Some demo_verifier) True)
       = (l1, Some (DMsg demo_msg))
     \<and> receive demo_dec demo_mac demo_marshal (1300 * Second + 1) ''a-1''
         (l1\<lparr>l_duplicateFilter := df_step (EvCleanup (1300 * Second + 1)) (l_duplicateFilter l1)\<rparr>)
       = (l3, Some (DMsg demo_msg))"
proof -
  have ok: "Verify demo_mac t demo_verifier ''hello'' (Some demo_signed)" if "t \<in> {1000 * Second, 1300 * Second + 1}" for t
    using that by (auto simp: Verify_def demo_verifier_def demo_signed_def replayTTL_def unix_secs_def wrap64_def)
  show ?thesis
    using ok [of "1000 * Second"] ok [of "1300 * Second + 1"]
    by (simp add: receive_def demo_dec_def demo_listener_def Seen_def NewDuplicateFilter_def signature_ok_def
        marshalled_def demo_marshal_def demo_msg_def is_digit_def df_cleanup_def time_Sub_def clamp64_def)
qed

text \<open>C39: A daemon without time synchronisation starts no reader for the channel of time
  announcements. The listener of such a daemon stops after 101 time announcements: a run exists
  after which, in every continuation, no further host announcement is ever queued.\<close>

theorem time_announcements_stall_listener:
  assumes "NewListener env listen addr km False = Inr l0"
    and "\<forall>data \<in> set ds. time_datagram dec data" and "distinct (map (datagram_id dec) ds)" and "length ds = 101"
  shows "\<exists>l. (listener_step dec hm marshal False lr)\<^sup>*\<^sup>* l0 l
    \<and> (\<forall>l'. (listener_step dec hm marshal False lr)\<^sup>*\<^sup>* l l' \<longrightarrow> l_messageChan l' = [])"
proof -
  note f = NewListener_fields [OF assms(1)]
  have "ds \<noteq> []" using assms(4) by auto
  then obtain l where l: "(listener_step dec hm marshal False lr)\<^sup>*\<^sup>* l0 l" "stalled l" "l_messageChan l = []"
    using time_flood [of ds dec l0 hm marshal lr] assms f by (auto simp: chan_size_def NewDuplicateFilter_def)
  then have "l_messageChan l' = []" if "(listener_step dec hm marshal False lr)\<^sup>*\<^sup>* l l'" for l'
    using stalled_steps [OF that] by auto
  with l(1) show ?thesis by blast
qed

theorem time_announcements_stall_listener_witness:
  "\<exists>l. (listener_step demo_dec demo_mac demo_marshal False True)\<^sup>*\<^sup>* (demo_listener None False) l
    \<and> (\<forall>l'. (listener_step demo_dec demo_mac demo_marshal False True)\<^sup>*\<^sup>* l l' \<longrightarrow> l_messageChan l' = [])"
proof (rule time_announcements_stall_listener [where ds = "map dec_nat [0..<101]"])
  show "NewListener demo_env (Inr ()) ''255.255.255.255:5354'' None False = Inr (demo_listener None False)"
    by (rule demo_NewListener) simp
  have "list_all (\<lambda>n. length (dec_nat n) \<le> buf_size) [0..<101]" by code_simp
  then have "length (dec_nat n) \<le> buf_size" if "n < 101" for n using that by (simp add: list_all_iff)
  then show "\<forall>data \<in> set (map dec_nat [0..<101]). time_datagram demo_dec data"
    by (auto simp: time_datagram_def demo_dec_def dec_nat_digits)
  have "inj dec_nat" by (rule inj_on_inverseI [where g = digits_val]) (rule digits_val_dec_nat)
  then show "distinct (map (datagram_id demo_dec) (map dec_nat [0..<101]))"
    by (simp add: demo_dec_def distinct_map comp_def inj_on_def)
qed simp

text \<open>C22: An announcement that a node signs and broadcasts is delivered by every listener that
  trusts the node, provided the bytes read decode to the message that was sent, its identifier is
  new, and it arrives within 300 seconds.\<close>

theorem announcement_accepted:
  assumes "createAnnouncement env hm marshal (Inr nonce) t a = (a', msg)" and "a_keyManager a = Some km"
    and "marshal (signed_payload (msg\<lparr>bm_Signature := None\<rparr>)) = Inr sigData"
    and "dec_raw dec data = Some \<lparr>raw_Type = bm_Type msg, raw_MessageID = bm_MessageID msg\<rparr>"
    and "dec_msg dec data = Some msg"
    and "map_of (df_seen (l_duplicateFilter l)) (bm_MessageID msg) = None"
    and "l_keyManager l = Some km'" and "map_of (km_trustedPeers km') (km_nodeID km) = Some (km_sharedSecret km)"
    and "0 \<le> t" "t \<le> now" "now < 2 ^ 62" "unix_secs now - unix_secs t \<le> 300"
  shows "snd (receive dec hm marshal now data l) = Some (DMsg msg)"
  using assms by (rule announcement_received)

theorem announcement_accepted_witness:
  "\<exists>msg. snd (receive (demo_dec\<lparr>dec_raw := (\<lambda>_. Some \<lparr>raw_Type = bm_Type msg, raw_MessageID = bm_MessageID msg\<rparr>),
       dec_msg := (\<lambda>_. Some msg)\<rparr>) demo_mac demo_marshal 9 ''x'' (demo_listener (Some demo_verifier) True))
     = Some (DMsg msg) \<and> bm_Hostname msg = ''a''"
proof -
  define a where "a = \<lparr>a_broadcastAddr = ''255.255.255.255:5354'', a_hostname = ''a'', a_machineID = [],
    a_interval = Minute, a_services = [], a_rateLimiter = NewRateLimiter 0 10 10, a_keyManager = Some demo_signer,
    a_cachedBroadcastAddr = ([255, 255, 255, 255], 5354), a_cachedPort = ''5354'', a_ifaceFilter = [],
    a_ifaceCache = [], a_ifaceCacheTime = zero_time, a_ifaceCacheTTL = 30 * Second\<rparr>"
  obtain a' msg where c: "createAnnouncement demo_env demo_mac demo_marshal (Inr ''n'') 5 a = (a', msg)"
    by (cases "createAnnouncement demo_env demo_mac demo_marshal (Inr ''n'') 5 a")
  then have "bm_Hostname msg = ''a''"
    by (auto simp: createAnnouncement_def a_def sign_announcement_def demo_marshal_def Sign_def generateNonce_def
        Let_def split: prod.splits)
  moreover have "snd (receive (demo_dec\<lparr>dec_raw := (\<lambda>_. Some \<lparr>raw_Type = bm_Type msg, raw_MessageID = bm_MessageID msg\<rparr>),
       dec_msg := (\<lambda>_. Some msg)\<rparr>) demo_mac demo_marshal 9 ''x'' (demo_listener (Some demo_verifier) True))
     = Some (DMsg msg)"
    by (rule announcement_accepted [OF c, where km = demo_signer and km' = demo_verifier and sigData = "''hello''"])
       (simp_all add: a_def demo_marshal_def demo_listener_def NewDuplicateFilter_def demo_sig_defs)
  ultimately show ?thesis by blast
qed

text \<open>The directed broadcast address keeps every bit of the network part and sets every bit of
  the host part, so all addresses of one subnet have the same one.\<close>

theorem broadcast_address_of_subnet:
  "(i < 4 \<and> n < 8 \<longrightarrow> bit (broadcast_ip ip msk ! i) n = (bit (ip ! i) n \<or> \<not> bit (msk ! i) n)) \<and>
   ((\<forall>j < 4. ip ! j AND msk ! j = ip' ! j AND msk ! j) \<longrightarrow> broadcast_ip ip msk = broadcast_ip ip' msk)"
proof (intro conjI impI)
  show "bit (broadcast_ip ip msk ! i) n = (bit (ip ! i) n \<or> \<not> bit (msk ! i) n)" if "i < 4 \<and> n < 8"
    using that by (simp add: broadcast_ip_nth bit_or_iff bit_not_iff)
  have or: "x OR NOT w = (x AND w) OR NOT w" for x w :: byte
    by (rule bit_word_eqI) (auto simp: bit_or_iff bit_not_iff bit_and_iff)
  show "broadcast_ip ip msk = broadcast_ip ip' msk" if "\<forall>j < 4. ip ! j AND msk ! j = ip' ! j AND msk ! j"
    using that unfolding broadcast_ip_def by (subst or, subst (2) or) simp
qed

theorem broadcast_address_of_subnet_witness:
  "broadcast_ip [192, 168, 1, 7] [255, 255, 255, 0] = broadcast_ip [192, 168, 1, 200] [255, 255, 255, 0]"
proof -
  have "\<forall>j < 4. [192, 168, 1, 7] ! j AND [255, 255, 255, 0] ! j = [192, 168, 1, 200] ! j AND ([255, 255, 255, 0] ! j :: byte)"
    by (auto simp: less_Suc_eq numeral_nat)
  with broadcast_address_of_subnet show ?thesis by blast
qed

end
