(* ===== verification/Dns_Server.thy ===== *)
theory Dns_Server
  imports Record_Store Broadcast
begin

text \<open>
  The DNS server of the daemon (\<^verbatim>\<open>internal/dns/server.go\<close>). The packet library is not part
  of the program: a message is its questions and answers, and \<open>set_reply\<close>, the library's
  preparation of a reply, is an argument. The records come from a provider, the interface
  \<^verbatim>\<open>RecordProvider\<close> of the code (locale \<open>record_provider\<close>), which the record store
  implements. Of \<^verbatim>\<open>net.ParseIP\<close> the IPv4 syntax is defined; the parser for texts with a
  colon is an argument \<open>v6\<close>. TTLs and ports are reduced to their width on the wire.
\<close>

section \<open>Messages\<close>

abbreviation TypeA :: int where "TypeA \<equiv> 1"
abbreviation TypeCNAME :: int where "TypeCNAME \<equiv> 5"
abbreviation TypePTR :: int where "TypePTR \<equiv> 12"
abbreviation TypeTXT :: int where "TypeTXT \<equiv> 16"
abbreviation TypeAAAA :: int where "TypeAAAA \<equiv> 28"
abbreviation TypeSRV :: int where "TypeSRV \<equiv> 33"

record Question =
  qu_Name :: string
  qu_Qtype :: int

text \<open>A resource record: owner name and TTL, then the data. The class is always IN.\<close>

datatype RR =
    RR_A string "32 word" IP
  | RR_TXT string "32 word" "string list"
  | RR_SRV string "32 word" "16 word" "16 word" "16 word" string
  | RR_CNAME string "32 word" string
  | RR_PTR string "32 word" string

record Msg =
  m_Id :: int
  m_Question :: "Question list"
  m_Answer :: "RR list"
  m_Authoritative :: bool

record DnsConfig =
  dsc_Enabled :: bool
  dsc_Port :: int
  dsc_Domain :: string
  dsc_BindAddresses :: "string list"
  dsc_TTLHealthy :: int
  dsc_TTLStale :: int

section \<open>IP addresses\<close>

definition parse_octet :: "string \<Rightarrow> byte option" where
  "parse_octet s =
     (if s \<noteq> [] \<and> list_all is_digit s \<and> \<not> (length s > 1 \<and> hd s = CHR ''0'') \<and> digits_val s \<le> 255
      then Some (of_nat (digits_val s)) else None)"

definition parse_ip4 :: "string \<Rightarrow> IP option" where
  "parse_ip4 s =
     (let fs = split_on CHR ''.'' s
      in if length fs = 4 \<and> list_all (\<lambda>f. parse_octet f \<noteq> None) fs
         then Some (replicate 10 0 @ [255, 255] @ map (\<lambda>f. the (parse_octet f)) fs) else None)"

definition ParseIP :: "(string \<Rightarrow> IP option) \<Rightarrow> string \<Rightarrow> IP option" where
  "ParseIP v6 s =
     (case find (\<lambda>c. c = CHR ''.'' \<or> c = CHR '':'' \<or> c = CHR ''%'') s of
        None \<Rightarrow> None
      | Some c \<Rightarrow> if c = CHR ''.'' then parse_ip4 s else if c = CHR '':'' then v6 s else None)"

section \<open>Handlers\<close>

text \<open>A provider returns the state it leaves behind and the records.\<close>

type_synonym 's provider = "'s \<Rightarrow> 's \<times> DNSRecord list"

definition getTTL :: "DnsConfig \<Rightarrow> string \<Rightarrow> 32 word" where
  "getTTL cfg status = word_of_int (if status = ''stale'' then dsc_TTLStale cfg else dsc_TTLHealthy cfg)"

definition dns_matched :: "string \<Rightarrow> DNSRecord \<Rightarrow> bool" where
  "dns_matched name rec \<longleftrightarrow> dr_Hostname rec = name \<or> name \<in> set (dr_Aliases rec)"

definition a_answers :: "(string \<Rightarrow> IP option) \<Rightarrow> DnsConfig \<Rightarrow> string \<Rightarrow> DNSRecord \<Rightarrow> RR list" where
  "a_answers v6 cfg qname rec =
     concat (map (\<lambda>addr. case ParseIP v6 addr of
                None \<Rightarrow> []
              | Some ip \<Rightarrow> if To4 ip = None then [] else [RR_A qname (getTTL cfg (dr_Status rec)) ip])
       (dr_Addresses rec))"

definition handleAQuery ::
  "(string \<Rightarrow> IP option) \<Rightarrow> DnsConfig \<Rightarrow> 's provider \<Rightarrow> Question \<Rightarrow> string \<Rightarrow> 's \<Rightarrow> 's \<times> RR list" where
  "handleAQuery v6 cfg provider q domain s =
     (let suffix = ''.'' @ domain; name = TrimSuffix (qu_Name q) suffix
      in if \<not> HasSuffix (qu_Name q) suffix then (s, [])
         else if name = [] then (s, [])
         else let (s1, records) = provider s
         in (s1, case find (dns_matched name) records of
                   None \<Rightarrow> []
                 | Some rec \<Rightarrow> a_answers v6 cfg (qu_Name q) rec))"

definition txt_strings :: "DNSRecord \<Rightarrow> string list" where
  "txt_strings rec =
     (let services = map (\<lambda>(name, svc). name @ '':'' @ itoa (dsi_Port svc)) (dr_Services rec)
      in [''status='' @ dr_Status rec, ''last_seen='' @ itoa (unix_secs (dr_LastSeen rec))]
         @ (if dr_IsStatic rec then [''static=true''] else [])
         @ (if length services > 0 then [''services='' @ join_with '','' services] else []))"

definition handleTXTQuery :: "DnsConfig \<Rightarrow> 's provider \<Rightarrow> Question \<Rightarrow> string \<Rightarrow> 's \<Rightarrow> 's \<times> RR list" where
  "handleTXTQuery cfg provider q domain s =
     (let suffix = ''.'' @ domain; name = TrimSuffix (qu_Name q) suffix
      in if \<not> HasSuffix (qu_Name q) suffix then (s, [])
         else let (s1, records) = provider s
         in (s1, case find (\<lambda>rec. dr_Hostname rec = name) records of
                 None \<Rightarrow> []
               | Some rec \<Rightarrow> [RR_TXT (qu_Name q) (getTTL cfg (dr_Status rec)) (txt_strings rec)]))"

definition srv_answers :: "DnsConfig \<Rightarrow> string \<Rightarrow> string \<Rightarrow> string \<Rightarrow> string \<Rightarrow> DNSRecord \<Rightarrow> RR list" where
  "srv_answers cfg qname serviceName proto domain rec =
     map (\<lambda>(svcName, svc). RR_SRV qname (getTTL cfg (dr_Status rec)) 10 60 (word_of_int (dsi_Port svc))
            (dr_Hostname rec @ ''.'' @ domain))
       (filter (\<lambda>(svcName, svc). svcName = serviceName \<and> dsi_Protocol svc = proto) (dr_Services rec))"

definition handleSRVQuery :: "DnsConfig \<Rightarrow> 's provider \<Rightarrow> Question \<Rightarrow> string \<Rightarrow> 's \<Rightarrow> 's \<times> RR list" where
  "handleSRVQuery cfg provider q domain s =
     (let parts = split_on CHR ''.'' (TrimSuffix (qu_Name q) ''.'')
      in if length parts < 3 then (s, [])
         else let serviceName = TrimPrefix (parts ! 0) ''_'';
                  proto = TrimPrefix (parts ! 1) ''_'';
                  queryDomain = join_with ''.'' (drop 2 parts) @ ''.''
         in if queryDomain \<noteq> domain then (s, [])
            else let (s1, records) = provider s
            in (s1, concat (map (srv_answers cfg (qu_Name q) serviceName proto domain) records)))"

fun cname_loop :: "DnsConfig \<Rightarrow> string \<Rightarrow> string \<Rightarrow> string \<Rightarrow> DNSRecord list \<Rightarrow> RR list" where
  "cname_loop cfg qname name domain [] = []"
| "cname_loop cfg qname name domain (rec # records) =
     (if list_ex (\<lambda>(svcName, _). name = svcName @ ''.'' @ dr_Hostname rec) (dr_Services rec)
      then [RR_CNAME qname (getTTL cfg (dr_Status rec)) (dr_Hostname rec @ ''.'' @ domain)]
      else cname_loop cfg qname name domain records)"

definition handleCNAMEQuery :: "DnsConfig \<Rightarrow> 's provider \<Rightarrow> Question \<Rightarrow> string \<Rightarrow> 's \<Rightarrow> 's \<times> RR list" where
  "handleCNAMEQuery cfg provider q domain s =
     (let suffix = ''.'' @ domain
      in if \<not> HasSuffix (qu_Name q) suffix then (s, [])
         else let (s1, records) = provider s
         in (s1, cname_loop cfg (qu_Name q) (TrimSuffix (qu_Name q) suffix) domain records))"

definition handlePTRQuery :: "DnsConfig \<Rightarrow> 's provider \<Rightarrow> Question \<Rightarrow> 's \<Rightarrow> 's \<times> RR list" where
  "handlePTRQuery cfg provider q s =
     (let parts = split_on CHR ''.'' (TrimSuffix (qu_Name q) ''.'')
      in if length parts < 4 then (s, [])
         else let ipStr = parts ! 3 @ ''.'' @ parts ! 2 @ ''.'' @ parts ! 1 @ ''.'' @ parts ! 0;
                  (s1, records) = provider s
         in (s1, case find (\<lambda>rec. ipStr \<in> set (dr_Addresses rec)) records of
               None \<Rightarrow> []
             | Some rec \<Rightarrow> [RR_PTR (qu_Name q) (getTTL cfg (dr_Status rec))
                             (dr_Hostname rec @ ''.'' @ dsc_Domain cfg @ ''.'')]))"

text \<open>The answers to one question.\<close>

definition answer_question :: "(string \<Rightarrow> IP option) \<Rightarrow> DnsConfig \<Rightarrow> 's provider \<Rightarrow> Question \<Rightarrow> 's \<Rightarrow> 's \<times> RR list" where
  "answer_question v6 cfg provider q s =
     (let domain = dsc_Domain cfg @ ''.''
      in if qu_Qtype q = TypeA then handleAQuery v6 cfg provider q domain s
         else if qu_Qtype q = TypeAAAA then (s, [])
         else if qu_Qtype q = TypeTXT then handleTXTQuery cfg provider q domain s
         else if qu_Qtype q = TypeSRV then handleSRVQuery cfg provider q domain s
         else if qu_Qtype q = TypeCNAME then handleCNAMEQuery cfg provider q domain s
         else (s, []))"

fun answer_all :: "(Question \<Rightarrow> 's \<Rightarrow> 's \<times> RR list) \<Rightarrow> Question list \<Rightarrow> 's \<Rightarrow> 's \<times> RR list" where
  "answer_all f [] s = (s, [])"
| "answer_all f (q # qs) s = (let (s1, rrs) = f q s; (s2, rest) = answer_all f qs s1 in (s2, rrs @ rest))"

definition dns_handleQuery ::
  "(Msg \<Rightarrow> Msg) \<Rightarrow> (string \<Rightarrow> IP option) \<Rightarrow> DnsConfig \<Rightarrow> 's provider \<Rightarrow> Msg \<Rightarrow> 's \<Rightarrow> 's \<times> Msg" where
  "dns_handleQuery set_reply v6 cfg provider r s =
     (let m = (set_reply r)\<lparr>m_Authoritative := True\<rparr>;
          (s1, rrs) = answer_all (answer_question v6 cfg provider) (m_Question r) s
      in (s1, m\<lparr>m_Answer := m_Answer m @ rrs\<rparr>))"

definition answer_reverse :: "DnsConfig \<Rightarrow> 's provider \<Rightarrow> Question \<Rightarrow> 's \<Rightarrow> 's \<times> RR list" where
  "answer_reverse cfg provider q s =
     (if qu_Qtype q = TypePTR then handlePTRQuery cfg provider q s else (s, []))"

definition handleReverse ::
  "(Msg \<Rightarrow> Msg) \<Rightarrow> DnsConfig \<Rightarrow> 's provider \<Rightarrow> Msg \<Rightarrow> 's \<Rightarrow> 's \<times> Msg" where
  "handleReverse set_reply cfg provider r s =
     (let m = (set_reply r)\<lparr>m_Authoritative := True\<rparr>;
          (s1, rrs) = answer_all (answer_reverse cfg provider) (m_Question r) s
      in (s1, m\<lparr>m_Answer := m_Answer m @ rrs\<rparr>))"

text \<open>The sockets that \<^verbatim>\<open>Start\<close> opens, each with the zones of its two handlers.\<close>

definition dns_Start :: "DnsConfig \<Rightarrow> (string \<times> string list) list" where
  "dns_Start cfg =
     (if \<not> dsc_Enabled cfg then []
      else map (\<lambda>addr. (addr @ '':'' @ itoa (dsc_Port cfg), [dsc_Domain cfg @ ''.'', ''in-addr.arpa.'']))
             (dsc_BindAddresses cfg))"

section \<open>Lemmas on addresses\<close>

lemma dec_nat_hd: "0 < n \<Longrightarrow> hd (dec_nat n) \<noteq> CHR ''0''"
proof (induction n rule: dec_nat.induct)
  case (1 n)
  show ?case
  proof (cases "n < 10")
    case True
    have "digit_val (char_of (48 + n)) \<noteq> digit_val CHR ''0''"
      using digit_char [OF True] 1(2) by (simp add: digit_val_def)
    then have "char_of (48 + n) \<noteq> CHR ''0''" by metis
    with True show ?thesis by (subst dec_nat.simps) simp
  next
    case False
    with 1 have "hd (dec_nat (n div 10)) \<noteq> CHR ''0''" by simp
    with False show ?thesis by (subst dec_nat.simps) (simp add: hd_append)
  qed
qed

lemma dec_nat_0: "dec_nat 0 = ''0''"
  using char_of_char [of "CHR ''0''"] by (subst dec_nat.simps) (simp add: of_char_def)

lemma parse_octet_dec: "parse_octet (dec_nat (unat b)) = Some b" for b :: byte
proof -
  have "unat b \<le> 255" using unsigned_less [of b, where 'a = nat] by simp
  moreover have "\<not> (length (dec_nat (unat b)) > 1 \<and> hd (dec_nat (unat b)) = CHR ''0'')"
    using dec_nat_hd [of "unat b"] by (cases "unat b = 0") (auto simp: dec_nat_0)
  ultimately show ?thesis by (simp add: parse_octet_def dec_nat_digits digits_val_dec_nat)
qed

lemma dec_nat_no_dot: "CHR ''.'' \<notin> set (dec_nat n)"
  using dec_nat_digits [of n] by (auto simp: list_all_iff is_digit_def)

lemma split_ip4_String: "ip \<noteq> [] \<Longrightarrow> split_on CHR ''.'' (ip4_String ip) = map (\<lambda>b. dec_nat (unat b)) ip"
  unfolding ip4_String_def by (rule split_join) (auto simp: dec_nat_no_dot)

lemma find_first: "\<forall>x \<in> set xs. \<not> P x \<Longrightarrow> P y \<Longrightarrow> find P (xs @ y # ys) = Some y"
  by (induction xs) auto

lemma ParseIP_ip4:
  assumes "length ip = 4"
  shows "ParseIP v6 (ip4_String ip) = Some (replicate 10 0 @ [255, 255] @ ip)"
proof -
  obtain a b c d where ip: "ip = [a, b, c, d]"
    using assms by (auto simp: numeral_eq_Suc length_Suc_conv)
  have "\<forall>x \<in> set (dec_nat (unat a)). \<not> (x = CHR ''.'' \<or> x = CHR '':'' \<or> x = CHR ''%'')"
    using dec_nat_digits [of "unat a"] by (auto simp: list_all_iff is_digit_def)
  then have "find (\<lambda>x. x = CHR ''.'' \<or> x = CHR '':'' \<or> x = CHR ''%'') (ip4_String ip) = Some CHR ''.''"
    using find_first [of "dec_nat (unat a)" "\<lambda>x. x = CHR ''.'' \<or> x = CHR '':'' \<or> x = CHR ''%''" "CHR ''.''"]
    by (simp add: ip ip4_String_def)
  moreover have "parse_ip4 (ip4_String ip) = Some (replicate 10 0 @ [255, 255] @ ip)"
    using split_ip4_String [of ip] by (simp add: ip parse_ip4_def parse_octet_dec)
  ultimately show ?thesis by (simp add: ParseIP_def)
qed

text \<open>An address text that is not IPv4: it does not parse, or as an address outside IPv4.\<close>

definition not_ip4 :: "(string \<Rightarrow> IP option) \<Rightarrow> string \<Rightarrow> bool" where
  "not_ip4 v6 addr \<longleftrightarrow> (case ParseIP v6 addr of None \<Rightarrow> True | Some ip \<Rightarrow> To4 ip = None)"

lemma a_answers_ip4:
  assumes "dr_Addresses rec = map (case_sum ip4_String id) addrs"
    and "\<forall>ip. Inl ip \<in> set addrs \<longrightarrow> length ip = 4" and "\<forall>addr. Inr addr \<in> set addrs \<longrightarrow> not_ip4 v6 addr"
  shows "a_answers v6 cfg qname rec =
    [RR_A qname (getTTL cfg (dr_Status rec)) (replicate 10 0 @ [255, 255] @ ip). Inl ip \<leftarrow> addrs]"
proof -
  have ip4: "(case ParseIP v6 (ip4_String ip) of None \<Rightarrow> []
      | Some ip' \<Rightarrow> if To4 ip' = None then [] else [RR_A qname (getTTL cfg (dr_Status rec)) ip']) =
    [RR_A qname (getTTL cfg (dr_Status rec)) (replicate 10 0 @ [255, 255] @ ip)]" if "length ip = 4" for ip
    using that by (simp add: ParseIP_ip4 To4_def)
  have other: "(case ParseIP v6 addr of None \<Rightarrow> []
      | Some ip' \<Rightarrow> if To4 ip' = None then [] else [RR_A qname (getTTL cfg (dr_Status rec)) ip']) = []"
    if "not_ip4 v6 addr" for addr
    using that by (auto simp: not_ip4_def split: option.splits)
  have "concat (map (\<lambda>addr. case ParseIP v6 addr of None \<Rightarrow> []
      | Some ip \<Rightarrow> if To4 ip = None then [] else [RR_A qname (getTTL cfg (dr_Status rec)) ip])
        (map (case_sum ip4_String id) addrs)) =
    [RR_A qname (getTTL cfg (dr_Status rec)) (replicate 10 0 @ [255, 255] @ ip). Inl ip \<leftarrow> addrs]"
    using assms(2,3)
  proof (induction addrs)
    case (Cons a addrs)
    then show ?case using ip4 other by (cases a) auto
  qed simp
  then show ?thesis by (simp only: a_answers_def assms(1))
qed

section \<open>The interface of the record provider\<close>

locale record_provider =
  fixes get_all :: "'s provider" and pinv :: "'s \<Rightarrow> bool"
  assumes keeps: "pinv s \<Longrightarrow> pinv (fst (get_all s))"
    and names: "pinv s \<Longrightarrow> distinct (map dr_Hostname (snd (get_all s)))"
    and alive: "pinv s \<Longrightarrow> rec \<in> set (snd (get_all s)) \<Longrightarrow> dr_Status rec \<noteq> StatusLost"
begin

lemma find_unique:
  assumes "rec \<in> set records" and "P rec" and "\<And>rec'. rec' \<in> set records \<Longrightarrow> P rec' \<Longrightarrow> rec' = rec"
  shows "find P records = Some rec"
proof (cases "find P records")
  case None
  then have "\<not> (\<exists>x. x \<in> set records \<and> P x)" by (simp only: find_None_iff not_False_eq_True)
  with assms(1,2) show ?thesis by blast
next
  case (Some x)
  with assms(3) find_SomeD [OF Some] show ?thesis by blast
qed

text \<open>A host whose name no other record claims gets its own addresses, wherever it stands in the list.\<close>

lemma a_query_hit:
  assumes "pinv s" and "rec \<in> set (snd (get_all s))" and "dr_Hostname rec = name" and "name \<noteq> []"
    and "\<And>rec'. rec' \<in> set (snd (get_all s)) \<Longrightarrow> name \<in> set (dr_Aliases rec') \<Longrightarrow> rec' = rec"
  shows "handleAQuery v6 cfg get_all \<lparr>qu_Name = name @ ''.'' @ domain, qu_Qtype = t\<rparr> domain s =
    (fst (get_all s), a_answers v6 cfg (name @ ''.'' @ domain) rec)"
proof -
  have "find (dns_matched name) (snd (get_all s)) = Some rec"
  proof (rule find_unique [OF assms(2)])
    show "dns_matched name rec" using assms(3) by (simp add: dns_matched_def)
    show "rec' = rec" if r: "rec' \<in> set (snd (get_all s))" "dns_matched name rec'" for rec'
    proof (cases "dr_Hostname rec' = name")
      case True
      have "inj_on dr_Hostname (set (snd (get_all s)))" using names [OF assms(1)] by (simp add: distinct_map)
      with True assms(2,3) r(1) show ?thesis by (metis inj_onD)
    next
      case False
      with r assms(5) show ?thesis by (simp add: dns_matched_def)
    qed
  qed
  with assms(4) show ?thesis by (simp add: handleAQuery_def Let_def split_beta)
qed

text \<open>No answer of any query type is derived from a record that the provider holds back.\<close>

lemma txt_query_alive:
  assumes "pinv s" and "handleTXTQuery cfg get_all q domain s = (s', rrs)" and "rr \<in> set rrs"
  shows "\<exists>rec \<in> set (snd (get_all s)). dr_Status rec \<noteq> StatusLost
    \<and> rr = RR_TXT (qu_Name q) (getTTL cfg (dr_Status rec)) (txt_strings rec)"
  using assms alive
  by (auto simp: handleTXTQuery_def Let_def split_beta split: if_splits option.splits dest!: find_SomeD)

end

lemma GetAllRecords_snd:
  "snd (GetAllRecords now rs) =
     map dns_record (filter (\<lambda>r. r_Status r \<noteq> StatusLost) (map (UpdateRecordStatus (rs_healthTracker rs) now \<circ> snd) (rs_records rs)))"
  by (simp add: GetAllRecords_def refresh_all_def Let_def comp_def split_beta)

lemma dns_record_sel [simp]:
  "dr_Hostname (dns_record r) = r_Hostname r" "dr_Aliases (dns_record r) = r_Aliases r"
  "dr_Addresses (dns_record r) = r_Addresses r" "dr_Status (dns_record r) = r_Status r"
  "dr_IsStatic (dns_record r) = r_IsStatic r"
  by (simp_all add: dns_record_def)

abbreviation served :: "RecordStore \<Rightarrow> time \<Rightarrow> Record \<Rightarrow> bool" where
  "served rs now r \<equiv> ComputeStatus (rs_healthTracker rs) now r \<noteq> StatusLost"

abbreviation dns_view :: "RecordStore \<Rightarrow> time \<Rightarrow> Record \<Rightarrow> DNSRecord" where
  "dns_view rs now r \<equiv> dns_record (UpdateRecordStatus (rs_healthTracker rs) now r)"

lemma GetAllRecords_in:
  assumes "store_inv rs"
  shows "rec \<in> set (snd (GetAllRecords now rs)) \<longleftrightarrow>
    (\<exists>h r. map_of (rs_records rs) h = Some r \<and> served rs now r \<and> rec = dns_view rs now r)"
proof -
  have "gm_wf (rs_records rs)" using store_inv_wf [OF assms] by blast
  then show ?thesis
    unfolding GetAllRecords_snd by (auto simp: gm_in_iff [symmetric]) force+
qed

interpretation provider: record_provider "GetAllRecords now" store_inv
  for now
proof
  show "store_inv (fst (GetAllRecords now s))" if "store_inv s" for s
    using that by (simp add: refresh_all_inv)
  show "dr_Status rec \<noteq> StatusLost" if "store_inv s" "rec \<in> set (snd (GetAllRecords now s))" for s rec
    using that by (auto simp: GetAllRecords_in)
  show "distinct (map dr_Hostname (snd (GetAllRecords now s)))" if inv: "store_inv s" for s
  proof -
    have "map dr_Hostname (snd (GetAllRecords now s)) =
        map fst (filter (\<lambda>e. served s now (snd e)) (rs_records s))"
      using store_inv_record [OF inv] store_inv_wf [OF inv]
      unfolding GetAllRecords_snd
      by (auto simp: filter_map comp_def split_beta gm_in_iff [symmetric] intro!: map_cong)
    then show ?thesis using store_inv_wf [OF inv] by (simp add: distinct_map_filter)
  qed
qed

lemma dns_record_service:
  assumes "gm_wf (r_Services r)" and "map_of (r_Services r) n = Some v"
  shows "(n, dns_service v) \<in> set (dr_Services (dns_record r))"
proof -
  have "map_of (dr_Services (dns_record r)) n = Some (dns_service v)"
    using gm_rebuild(1) [OF assms(1), where g = "\<lambda>k v. dns_service v" and k = n] assms(2) by (simp add: dns_record_def)
  then show ?thesis by (rule map_of_SomeD)
qed

lemma srv_query_name:
  assumes "CHR ''.'' \<notin> set n" and "CHR ''.'' \<notin> set proto"
    and "q = \<lparr>qu_Name = ''_'' @ n @ ''._'' @ proto @ ''.'' @ dmn @ ''.'', qu_Qtype = TypeSRV\<rparr>"
  shows "handleSRVQuery cfg provider q (dmn @ ''.'') s =
    (let (s1, records) = provider s
     in (s1, concat (map (srv_answers cfg (qu_Name q) n proto (dmn @ ''.'')) records)))"
proof -
  have "TrimSuffix (qu_Name q) ''.'' = ''_'' @ n @ ''._'' @ proto @ ''.'' @ dmn"
    using TrimSuffix_append [of "''_'' @ n @ ''._'' @ proto @ ''.'' @ dmn" "''.''"] assms(3) by simp
  then have "split_on CHR ''.'' (TrimSuffix (qu_Name q) ''.'') = (CHR ''_'' # n) # (CHR ''_'' # proto) # split_on CHR ''.'' dmn"
    using split_on_append [of "CHR ''.''" "CHR ''_'' # n" "CHR ''_'' # proto @ CHR ''.'' # dmn"] assms(1,2)
      split_on_append [of "CHR ''.''" "CHR ''_'' # proto" dmn] by simp
  moreover have "\<not> length (split_on CHR ''.'' dmn) < 1" by (cases "split_on CHR ''.'' dmn") simp_all
  ultimately show ?thesis
    using join_split [of "CHR ''.''" dmn]
    by (simp add: handleSRVQuery_def Let_def TrimPrefix_def HasPrefix_def)
qed

lemma stored_in_dns:
  assumes "store_inv rs" and "\<not> IsStatic (rs_healthTracker rs) (r_Hostname r)"
    and "time_Sub now' (time_Unix (unix_secs now)) < hc_ExpireAfter (ht_config (rs_healthTracker rs))"
  shows "\<exists>rec \<in> set (snd (GetAllRecords now' (AddOrUpdate now r rs))).
     dr_Hostname rec = r_Hostname r \<and> dr_Services rec = dr_Services (dns_record r) \<and> dr_Addresses rec = r_Addresses r"
proof -
  let ?r = "stored_record (rs_healthTracker rs) (rs_ttl rs) now r (map_of (rs_records rs) (r_Hostname r))"
  have "map_of (rs_records (AddOrUpdate now r rs)) (r_Hostname r) = Some ?r"
    using assms(2) by (simp add: AddOrUpdate_records)
  moreover have "live (rs_healthTracker rs) now' ?r" using assms(3) by (simp add: live_def record_age_def)
  ultimately have "dns_view (AddOrUpdate now r rs) now' ?r \<in> set (snd (GetAllRecords now' (AddOrUpdate now r rs)))"
    using GetAllRecords_in [OF AddOrUpdate_inv [OF assms(1)]] by (auto simp: live_iff)
  then show ?thesis by (rule bexI [rotated]) (simp_all add: dns_record_def)
qed
lemma split_reverse_name:
  assumes "length ip = 4"
  shows "split_on CHR ''.'' (ip4_String (rev ip) @ ''.in-addr.arpa'') =
    map (\<lambda>b. dec_nat (unat b)) (rev ip) @ [''in-addr'', ''arpa'']"
proof -
  obtain a b c d where "ip = [a, b, c, d]" using assms by (auto simp: numeral_eq_Suc length_Suc_conv)
  then show ?thesis by (simp add: ip4_String_def split_on_append dec_nat_no_dot)
qed

lemma ptr_answer:
  assumes "length ip = 4" and "q = \<lparr>qu_Name = ip4_String (rev ip) @ ''.in-addr.arpa.'', qu_Qtype = t\<rparr>"
  shows "snd (handlePTRQuery cfg get_all q s) =
    (case find (\<lambda>rec. ip4_String ip \<in> set (dr_Addresses rec)) (snd (get_all s)) of
       None \<Rightarrow> []
     | Some rec \<Rightarrow> [RR_PTR (qu_Name q) (getTTL cfg (dr_Status rec)) (dr_Hostname rec @ ''.'' @ dsc_Domain cfg @ ''.'')])"
proof -
  obtain a b c d where ip: "ip = [a, b, c, d]" using assms by (auto simp: numeral_eq_Suc length_Suc_conv)
  have t: "TrimSuffix (ip4_String (rev ip) @ ''.in-addr.arpa.'') ''.'' = ip4_String (rev ip) @ ''.in-addr.arpa''"
    using TrimSuffix_append [of "ip4_String (rev ip) @ ''.in-addr.arpa''" "''.''"] by simp
  note sp = split_reverse_name [OF assms(1)]
  have "dec_nat (unat a) @ ''.'' @ dec_nat (unat b) @ ''.'' @ dec_nat (unat c) @ ''.'' @ dec_nat (unat d) = ip4_String ip"
    by (simp add: ip ip4_String_def)
  with t sp show ?thesis
    unfolding handlePTRQuery_def assms(2) by (simp add: ip Let_def split_beta)
qed

section \<open>Properties\<close>

text \<open>C26: A DNS query for the name of a live host that no other live record claims as an alias
  returns exactly the host's IPv4 addresses in their order, with the TTL of its status: addresses
  of the record that are not IPv4 are left out and do not hide the ones after them. It does not
  matter in which order the store iterates over its records. A live record that lists the name as
  its alias may answer in the host's place.\<close>

theorem dns_a_query_resolves:
  assumes "store_inv rs" and "map_of (rs_records rs) name = Some r" and "served rs now r" and "name \<noteq> []"
    and "\<forall>h r'. map_of (rs_records rs) h = Some r' \<and> served rs now r' \<and> name \<in> set (r_Aliases r') \<longrightarrow> h = name"
    and "r_Addresses r = map (case_sum ip4_String id) addrs"
    and "\<forall>ip. Inl ip \<in> set addrs \<longrightarrow> length ip = 4" and "\<forall>addr. Inr addr \<in> set addrs \<longrightarrow> not_ip4 v6 addr"
    and "qname = name @ ''.'' @ dsc_Domain cfg @ ''.''"
  shows "snd (answer_question v6 cfg (GetAllRecords now) \<lparr>qu_Name = qname, qu_Qtype = TypeA\<rparr> rs) =
    [RR_A qname (getTTL cfg (ComputeStatus (rs_healthTracker rs) now r)) (replicate 10 0 @ [255, 255] @ ip).
       Inl ip \<leftarrow> addrs]"
proof -
  have h: "r_Hostname r = name" using store_inv_record [OF assms(1,2)] by blast
  have "handleAQuery v6 cfg (GetAllRecords now) \<lparr>qu_Name = name @ ''.'' @ dsc_Domain cfg @ ''.'', qu_Qtype = TypeA\<rparr>
      (dsc_Domain cfg @ ''.'') rs = (fst (GetAllRecords now rs), a_answers v6 cfg (name @ ''.'' @ dsc_Domain cfg @ ''.'') (dns_view rs now r))"
  proof (rule provider.a_query_hit [OF assms(1)])
    show "dns_view rs now r \<in> set (snd (GetAllRecords now rs))"
      using assms(2,3) by (auto simp: GetAllRecords_in [OF assms(1)])
    show "rec' = dns_view rs now r" if in': "rec' \<in> set (snd (GetAllRecords now rs))" "name \<in> set (dr_Aliases rec')" for rec'
    proof -
      obtain k r' where r': "map_of (rs_records rs) k = Some r'" "rec' = dns_view rs now r'" "served rs now r'"
        using in' unfolding GetAllRecords_in [OF assms(1)] by blast
      then have "k = name" using in' assms(5) by simp
      with r' show ?thesis using assms(2) by simp
    qed
  qed (use h assms(4) in simp_all)
  then have "snd (answer_question v6 cfg (GetAllRecords now) \<lparr>qu_Name = qname, qu_Qtype = TypeA\<rparr> rs)
      = a_answers v6 cfg qname (dns_view rs now r)"
    using assms(9) by (simp add: answer_question_def)
  then show ?thesis
    using a_answers_ip4 [of "dns_view rs now r", OF _ assms(7,8)] assms(6) by (simp cong: sum.case_cong)
qed

text \<open>The DNS server lets an alias shadow a host: if a live record lists the name of another
  host as its alias, some iteration order of the same store answers queries for that host with
  the addresses of the record that claims the alias, while lookups over the socket keep finding
  the host itself.\<close>

theorem alias_shadows_host_in_dns:
  assumes "store_inv rs" and "map_of (rs_records rs) name = Some victim"
    and "map_of (rs_records rs) h = Some evil" and "h \<noteq> name" and "name \<in> set (r_Aliases evil)"
    and "served rs now evil" and "name \<noteq> []" and "qname = name @ ''.'' @ dsc_Domain cfg @ ''.''"
  shows "\<exists>rs'. reordered (rs_records rs) (rs_records rs') \<and> rs' = rs\<lparr>rs_records := rs_records rs'\<rparr>
    \<and> snd (answer_question v6 cfg (GetAllRecords now) \<lparr>qu_Name = qname, qu_Qtype = TypeA\<rparr> rs')
        = a_answers v6 cfg qname (dns_view rs now evil)
    \<and> Get rs' now name = Get rs now name"
proof -
  define rs' where "rs' = rs\<lparr>rs_records := (h, evil) # remove1 (h, evil) (rs_records rs)\<rparr>"
  have wf: "gm_wf (rs_records rs)" using store_inv_wf [OF assms(1)] by blast
  have "(h, evil) \<in> set (rs_records rs)" using assms(3) by (rule map_of_SomeD)
  then have re: "reordered (rs_records rs) (rs_records rs')" by (simp add: rs'_def reordered_def)
  have "find (dns_matched name) (snd (GetAllRecords now rs')) = Some (dns_view rs now evil)"
    unfolding GetAllRecords_snd using assms(5,6) by (simp add: rs'_def dns_matched_def)
  then have "snd (answer_question v6 cfg (GetAllRecords now) \<lparr>qu_Name = qname, qu_Qtype = TypeA\<rparr> rs')
      = a_answers v6 cfg qname (dns_view rs now evil)"
    unfolding assms(8) answer_question_def handleAQuery_def Let_def split_beta append_assoc [symmetric]
    using assms(7) by simp
  moreover have "Get rs' now name = Get rs now name"
  proof -
    have "map_of (rs_records rs') = map_of (rs_records rs)" by (rule reordered_map_of [OF re wf])
    moreover have "rs_aliasIndex rs' = rs_aliasIndex rs" "rs_healthTracker rs' = rs_healthTracker rs"
      by (simp_all add: rs'_def)
    ultimately show ?thesis using assms(2) by (simp add: Get_eq find_record_hostname)
  qed
  moreover have "rs' = rs\<lparr>rs_records := rs_records rs'\<rparr>" by (simp add: rs'_def)
  ultimately show ?thesis using re by blast
qed

text \<open>C27: Reverse queries are exact: a query for the reversed form of an IPv4 address is answered
  with the name of a host that has this address and is not lost, and with no answer only if no
  such host exists.\<close>

theorem ptr_query_exact:
  assumes "store_inv rs" and "length ip = 4"
    and "q = \<lparr>qu_Name = ip4_String (rev ip) @ ''.in-addr.arpa.'', qu_Qtype = TypePTR\<rparr>"
    and "rrs = snd (answer_reverse cfg (GetAllRecords now) q rs)"
  shows "(rrs = [] \<and> (\<forall>h r. map_of (rs_records rs) h = Some r \<and> served rs now r \<longrightarrow> ip4_String ip \<notin> set (r_Addresses r)))
    \<or> (\<exists>h r. map_of (rs_records rs) h = Some r \<and> served rs now r \<and> ip4_String ip \<in> set (r_Addresses r)
        \<and> rrs = [RR_PTR (qu_Name q) (getTTL cfg (ComputeStatus (rs_healthTracker rs) now r))
                   (h @ ''.'' @ dsc_Domain cfg @ ''.'')])"
proof (cases "find (\<lambda>rec. ip4_String ip \<in> set (dr_Addresses rec)) (snd (GetAllRecords now rs))")
  case None
  with assms(4) have "rrs = []" using ptr_answer [OF assms(2,3), of cfg "GetAllRecords now" rs] assms(3)
    by (simp add: answer_reverse_def)
  with None show ?thesis by (fastforce simp: find_None_iff GetAllRecords_in [OF assms(1)])
next
  case (Some rec)
  with find_SomeD [OF Some] obtain h r where r: "map_of (rs_records rs) h = Some r" "served rs now r"
    "rec = dns_view rs now r" "ip4_String ip \<in> set (r_Addresses r)"
    by (auto simp: GetAllRecords_in [OF assms(1)])
  have "r_Hostname r = h" using store_inv_record [OF assms(1) r(1)] by blast
  with Some r(3) assms(4) ptr_answer [OF assms(2,3), of cfg "GetAllRecords now" rs] assms(3)
  have "rrs = [RR_PTR (qu_Name q) (getTTL cfg (ComputeStatus (rs_healthTracker rs) now r)) (h @ ''.'' @ dsc_Domain cfg @ ''.'')]"
    by (simp add: answer_reverse_def)
  with r show ?thesis by blast
qed


section \<open>Witnesses\<close>

definition demo_dns :: DnsConfig where
  "demo_dns = \<lparr>dsc_Enabled = True, dsc_Port = 53, dsc_Domain = ''disco'', dsc_BindAddresses = [''127.0.0.1''],
     dsc_TTLHealthy = 300, dsc_TTLStale = 30\<rparr>"

lemma demo_store_inv: "store_inv demo_store"
  by (rule store_ts.reach_inv [OF demo_reach])

lemma demo_web1:
  "map_of (rs_records demo_store) ''web1'' = Some (demo_record\<lparr>r_TTL := 3600, r_FirstSeen := 1000, r_Timestamp := 1000,
     r_Status := StatusHealthy\<rparr>)"
  "served demo_store (1030 * Second) (demo_record\<lparr>r_TTL := 3600, r_FirstSeen := 1000, r_Timestamp := 1000,
     r_Status := StatusHealthy\<rparr>)"
  by (simp_all add: demo_store_eval demo_record_def zero_Record_def ComputeStatus_def record_age_def time_Sub_def
      clamp64_def time_Unix_def demo_health_def Let_def)

lemma demo_ip_text: "ip4_String [10, 0, 0, 5] = ''10.0.0.5''" "ip4_String [10, 0, 0, 7] = ''10.0.0.7''"
proof -
  have d: "dec_nat 5 = ''5''" "dec_nat 7 = ''7''" "dec_nat 1 = ''1''" "dec_nat 10 = ''10''"
    by code_simp+
  then show "ip4_String [10, 0, 0, 5] = ''10.0.0.5''" "ip4_String [10, 0, 0, 7] = ''10.0.0.7''"
    by (simp_all add: ip4_String_def dec_nat_0)
qed

text \<open>A host announced with an address that is not IPv4 between two that are.\<close>

definition demo_mixed :: Record where
  "demo_mixed = zero_Record\<lparr>r_Hostname := ''nas'', r_Addresses := [''10.0.0.7'', ''fe80::1'', ''10.0.0.5'']\<rparr>"

definition demo_mixed_store :: RecordStore where
  "demo_mixed_store = AddOrUpdate (1010 * Second) demo_mixed demo_store"

theorem dns_a_query_resolves_witness:
  "\<exists>ttl. snd (answer_question (\<lambda>_. None) demo_dns (GetAllRecords (1030 * Second))
     \<lparr>qu_Name = ''nas.disco.'', qu_Qtype = TypeA\<rparr> demo_mixed_store) =
     [RR_A ''nas.disco.'' ttl (replicate 10 0 @ [255, 255] @ [10, 0, 0, 7]),
      RR_A ''nas.disco.'' ttl (replicate 10 0 @ [255, 255] @ [10, 0, 0, 5])]"
proof -
  let ?r = "stored_record (rs_healthTracker demo_store) (rs_ttl demo_store) (1010 * Second) demo_mixed None"
  let ?addrs = "[Inl [10, 0, 0, 7], Inr ''fe80::1'', Inl [10, 0, 0, 5]] :: (byte list + string) list"
  have ns: "\<not> IsStatic (rs_healthTracker demo_store) (r_Hostname demo_mixed)"
    by (simp add: demo_store_eval demo_mixed_def IsStatic_def zero_Record_def)
  have inv: "store_inv demo_mixed_store" unfolding demo_mixed_store_def by (rule AddOrUpdate_inv [OF demo_store_inv])
  have recs: "map_of (rs_records demo_mixed_store) = (map_of (rs_records demo_store))(''nas'' \<mapsto> ?r)"
    unfolding demo_mixed_store_def AddOrUpdate_records [OF ns]
    by (simp add: demo_mixed_def zero_Record_def update_conv') (simp add: demo_store_eval)
  have served: "served demo_mixed_store (1030 * Second) ?r"
    by (simp add: demo_mixed_store_def demo_mixed_def zero_Record_def stored_record_def demo_store_eval
        ComputeStatus_def record_age_def time_Sub_def clamp64_def time_Unix_def unix_secs_def demo_health_def Let_def)
  have free: "\<forall>h r'. map_of (rs_records demo_mixed_store) h = Some r' \<and> served demo_mixed_store (1030 * Second) r'
      \<and> ''nas'' \<in> set (r_Aliases r') \<longrightarrow> h = ''nas''"
    unfolding recs
    by (auto simp: demo_store_eval demo_record_def static_record_def zero_Record_def split: if_splits)
  have addrs: "r_Addresses ?r = map (case_sum ip4_String id) ?addrs"
    by (simp add: demo_ip_text stored_record_def demo_mixed_def)
  have "not_ip4 (\<lambda>_. None) ''fe80::1''"
    by (simp add: not_ip4_def ParseIP_def)
  with dns_a_query_resolves [OF inv _ served _ free addrs, of "\<lambda>_. None" "''nas.disco.''" demo_dns] recs
  show ?thesis by (auto simp: demo_dns_def)
qed

text \<open>A second announcement that claims the first host's name as its alias.\<close>

definition demo_rogue :: Record where
  "demo_rogue = zero_Record\<lparr>r_Hostname := ''rogue'', r_Aliases := [''web1''], r_Addresses := [''10.0.0.66'']\<rparr>"

definition demo_rogue_store :: RecordStore where
  "demo_rogue_store = AddOrUpdate (1010 * Second) demo_rogue demo_store"

lemma demo_rogue_facts:
  "store_inv demo_rogue_store"
  "\<exists>v. map_of (rs_records demo_rogue_store) ''web1'' = Some v"
  "\<exists>e. map_of (rs_records demo_rogue_store) ''rogue'' = Some e \<and> r_Aliases e = [''web1''] \<and> r_Addresses e = [''10.0.0.66'']
     \<and> served demo_rogue_store (1030 * Second) e"
proof -
  show "store_inv demo_rogue_store" unfolding demo_rogue_store_def by (rule AddOrUpdate_inv [OF demo_store_inv])
  have ns: "\<not> IsStatic (rs_healthTracker demo_store) (r_Hostname demo_rogue)"
    by (simp add: demo_store_eval demo_rogue_def IsStatic_def zero_Record_def)
  show "\<exists>v. map_of (rs_records demo_rogue_store) ''web1'' = Some v"
    unfolding demo_rogue_store_def AddOrUpdate_records [OF ns] by (simp add: demo_rogue_def demo_web1 zero_Record_def)
  show "\<exists>e. map_of (rs_records demo_rogue_store) ''rogue'' = Some e \<and> r_Aliases e = [''web1''] \<and> r_Addresses e = [''10.0.0.66'']
     \<and> served demo_rogue_store (1030 * Second) e"
    unfolding demo_rogue_store_def AddOrUpdate_records [OF ns]
    by (simp add: demo_rogue_def zero_Record_def stored_record_def demo_store_eval ComputeStatus_def record_age_def
        time_Sub_def clamp64_def time_Unix_def unix_secs_def demo_health_def Let_def)
qed

theorem alias_shadows_host_in_dns_witness:
  "\<exists>rs' e. reordered (rs_records demo_rogue_store) (rs_records rs') \<and> r_Addresses e = [''10.0.0.66'']
    \<and> snd (answer_question (\<lambda>_. None) demo_dns (GetAllRecords (1030 * Second))
        \<lparr>qu_Name = ''web1'' @ ''.'' @ dsc_Domain demo_dns @ ''.'', qu_Qtype = TypeA\<rparr> rs')
      = a_answers (\<lambda>_. None) demo_dns (''web1'' @ ''.'' @ dsc_Domain demo_dns @ ''.'')
          (dns_view demo_rogue_store (1030 * Second) e)"
proof -
  obtain v e where v: "map_of (rs_records demo_rogue_store) ''web1'' = Some v"
    and e: "map_of (rs_records demo_rogue_store) ''rogue'' = Some e" "r_Aliases e = [''web1'']" "r_Addresses e = [''10.0.0.66'']"
      "served demo_rogue_store (1030 * Second) e"
    using demo_rogue_facts by blast
  have "''rogue'' \<noteq> ''web1''" "''web1'' \<in> set (r_Aliases e)" "''web1'' \<noteq> []" using e(2) by simp_all
  from alias_shadows_host_in_dns [OF demo_rogue_facts(1) v e(1) this(1,2) e(4) this(3) refl] e(3)
  show ?thesis by blast
qed

theorem ptr_query_exact_witness:
  "\<exists>h ttl. snd (answer_reverse demo_dns (GetAllRecords (1030 * Second))
     \<lparr>qu_Name = ip4_String (rev [10, 0, 0, 5]) @ ''.in-addr.arpa.'', qu_Qtype = TypePTR\<rparr> demo_store) =
       [RR_PTR (ip4_String (rev [10, 0, 0, 5]) @ ''.in-addr.arpa.'') ttl (h @ ''.disco.'')]"
proof -
  let ?q = "\<lparr>qu_Name = ip4_String (rev [10, 0, 0, 5]) @ ''.in-addr.arpa.'', qu_Qtype = TypePTR\<rparr>"
  have len: "length ([10, 0, 0, 5] :: IP) = 4" by simp
  have "ip4_String [10, 0, 0, 5] \<in> set (r_Addresses (demo_record\<lparr>r_TTL := 3600, r_FirstSeen := 1000, r_Timestamp := 1000,
     r_Status := StatusHealthy\<rparr>))" by (simp add: demo_ip_text demo_record_def zero_Record_def)
  then obtain h ttl where "snd (answer_reverse demo_dns (GetAllRecords (1030 * Second)) ?q demo_store)
      = [RR_PTR (qu_Name ?q) ttl (h @ ''.'' @ dsc_Domain demo_dns @ ''.'')]"
    using ptr_query_exact [OF demo_store_inv len refl refl, of demo_dns "1030 * Second"] demo_web1 by blast
  moreover have "h @ ''.'' @ dsc_Domain demo_dns @ ''.'' = h @ ''.disco.''" by (simp add: demo_dns_def)
  ultimately show ?thesis unfolding Question.select_convs by metis
qed

end
