(* ===== verification/Location_Store.thy ===== *)
theory Location_Store
  imports Nss_Protocol Broadcast
begin

text \<open>
  The positions announced by location sources (\<^verbatim>\<open>internal/daemon/location_store.go\<close>) and
  the rendering of ages that the socket server shares (\<^verbatim>\<open>formatDuration\<close> of
  \<^verbatim>\<open>internal/daemon/socket.go\<close>). Positions have no expiry: the latest announcement of a
  source stays until the daemon stops.
\<close>

definition formatDuration :: "duration \<Rightarrow> string" where
  "formatDuration d =
     (if d < Minute then itoa (dur_secs d) @ ''s''
      else if d < Hour then itoa (d sdiv Minute) @ ''m''
      else itoa (d sdiv Hour) @ ''h'' @ itoa ((d sdiv Minute) smod 60) @ ''m'')"

record LocationStore =
  ls_records :: "(string, LocationHealth) gomap"

definition NewLocationStore :: LocationStore where
  "NewLocationStore = \<lparr>ls_records = []\<rparr>"

definition Location_AddOrUpdate :: "time \<Rightarrow> LocationAnnounceMessage \<Rightarrow> LocationStore \<Rightarrow> LocationStore" where
  "Location_AddOrUpdate now msg ls =
     (let ts = (if lam_Timestamp msg = 0 then unix_secs now else lam_Timestamp msg)
      in ls\<lparr>ls_records := AList.update (lam_SourceID msg)
           \<lparr>lh_SourceID = lam_SourceID msg, lh_Latitude = li_Latitude (lam_Location msg),
            lh_Longitude = li_Longitude (lam_Location msg), lh_Altitude = li_Altitude (lam_Location msg),
            lh_Satellites = li_Satellites (lam_Location msg), lh_Fix = li_Fix (lam_Location msg),
            lh_LastSeen = ts, lh_LastSeenAgo = []\<rparr> (ls_records ls)\<rparr>)"

definition with_age :: "time \<Rightarrow> LocationHealth \<Rightarrow> LocationHealth" where
  "with_age now r = r\<lparr>lh_LastSeenAgo := formatDuration (time_Sub now (time_Unix (lh_LastSeen r)))\<rparr>"

definition Location_Get :: "time \<Rightarrow> string \<Rightarrow> LocationStore \<Rightarrow> LocationHealth option" where
  "Location_Get now sourceID ls =
     (case map_of (ls_records ls) sourceID of None \<Rightarrow> None | Some r \<Rightarrow> Some (with_age now r))"

definition Location_List :: "time \<Rightarrow> LocationStore \<Rightarrow> LocationHealth list" where
  "Location_List now ls = map (\<lambda>(_, r). with_age now r) (ls_records ls)"

section \<open>Lemmas\<close>

definition location_inv :: "LocationStore \<Rightarrow> bool" where
  "location_inv ls \<longleftrightarrow> gm_wf (ls_records ls) \<and> list_all (\<lambda>(k, r). lh_SourceID r = k) (ls_records ls)"

lemma location_inv_new: "location_inv NewLocationStore"
  by (simp add: location_inv_def NewLocationStore_def)

lemma location_inv_add: "location_inv ls \<Longrightarrow> location_inv (Location_AddOrUpdate now msg ls)"
  by (auto simp: location_inv_def Location_AddOrUpdate_def Let_def list_all_gm)

lemma location_fold_inv: "location_inv ls \<Longrightarrow> location_inv (fold (\<lambda>(t, m). Location_AddOrUpdate t m) ms ls)"
  by (induction ms arbitrary: ls) (auto simp: location_inv_add)

lemma location_fold_other:
  "\<forall>(t, m) \<in> set ms. lam_SourceID m \<noteq> sid \<Longrightarrow>
     map_of (ls_records (fold (\<lambda>(t, m). Location_AddOrUpdate t m) ms ls)) sid = map_of (ls_records ls) sid"
  by (induction ms arbitrary: ls) (auto simp: Location_AddOrUpdate_def Let_def)

lemma sdiv_nonneg: "0 \<le> d \<Longrightarrow> 0 < c \<Longrightarrow> d sdiv c = d div (c::int)"
  by (cases "d = 0") (auto simp: signed_divide_int_def)

lemma smod_nonneg: "0 \<le> d \<Longrightarrow> 0 < c \<Longrightarrow> d smod c = d mod (c::int)"
  by (cases "d = 0") (auto simp: signed_modulo_int_def)

section \<open>Properties\<close>

text \<open>After any sequence of location announcements, the store serves for a source exactly the
  position of its latest announcement, and lists each source once.\<close>

theorem latest_position_served:
  assumes "\<forall>(t, m') \<in> set after. lam_SourceID m' \<noteq> lam_SourceID m"
    and "ls = fold (\<lambda>(t, m). Location_AddOrUpdate t m) (before @ (t, m) # after) NewLocationStore"
  shows "\<exists>r. Location_Get now (lam_SourceID m) ls = Some r \<and> lh_SourceID r = lam_SourceID m
      \<and> lh_Latitude r = li_Latitude (lam_Location m) \<and> lh_Longitude r = li_Longitude (lam_Location m)
      \<and> lh_LastSeen r = (if lam_Timestamp m = 0 then unix_secs t else lam_Timestamp m)
      \<and> r \<in> set (Location_List now ls)
    \<and> distinct (map lh_SourceID (Location_List now ls))"
proof -
  have inv: "location_inv ls" unfolding assms(2) by (rule location_fold_inv) (rule location_inv_new)
  let ?r = "\<lparr>lh_SourceID = lam_SourceID m, lh_Latitude = li_Latitude (lam_Location m),
            lh_Longitude = li_Longitude (lam_Location m), lh_Altitude = li_Altitude (lam_Location m),
            lh_Satellites = li_Satellites (lam_Location m), lh_Fix = li_Fix (lam_Location m),
            lh_LastSeen = (if lam_Timestamp m = 0 then unix_secs t else lam_Timestamp m), lh_LastSeenAgo = []\<rparr>"
  have r: "map_of (ls_records ls) (lam_SourceID m) = Some ?r"
    using assms(1) unfolding assms(2)
    by (simp add: location_fold_other) (simp add: Location_AddOrUpdate_def Let_def)
  have "map lh_SourceID (Location_List now ls) = map fst (ls_records ls)"
    using inv by (auto simp: Location_List_def location_inv_def list_all_iff with_age_def)
  with inv have "distinct (map lh_SourceID (Location_List now ls))"
    by (simp only: location_inv_def)
  moreover have "with_age now ?r \<in> set (Location_List now ls)"
    using map_of_SomeD [OF r] unfolding Location_List_def by force
  ultimately show ?thesis using r by (simp add: Location_Get_def with_age_def)
qed

theorem latest_position_served_witness:
  "\<exists>r. Location_Get 9 ''gps'' (Location_AddOrUpdate 5 (the (dec_loc demo_dec ''loc'')) NewLocationStore) = Some r
     \<and> lh_Latitude r = 1"
  using latest_position_served [of "[]" "the (dec_loc demo_dec ''loc'')" _ "[]" 5 9]
  by (auto simp: demo_dec_def)

text \<open>The age shown for a record is the true age rounded down to its unit: seconds below a
  minute, minutes below an hour, and from there hours with minutes between 0 and 59.\<close>

theorem formatDuration_rounds_down:
  assumes "0 \<le> d"
  shows "(d < Minute \<longrightarrow> (\<exists>s. formatDuration d = itoa s @ ''s'' \<and> s * Second \<le> d \<and> d < (s + 1) * Second))
    \<and> (Minute \<le> d \<and> d < Hour \<longrightarrow> (\<exists>m. formatDuration d = itoa m @ ''m'' \<and> m * Minute \<le> d \<and> d < (m + 1) * Minute))
    \<and> (Hour \<le> d \<longrightarrow> (\<exists>h m. formatDuration d = itoa h @ ''h'' @ itoa m @ ''m'' \<and> 0 \<le> m \<and> m < 60
          \<and> h * Hour + m * Minute \<le> d \<and> d < h * Hour + (m + 1) * Minute))"
proof (intro conjI impI)
  have q: "d div c * c \<le> d \<and> d < (d div c + 1) * c" if "0 < c" for c :: int
    using div_mult_mod_eq [of d c] pos_mod_bound [OF that, of d] pos_mod_sign [OF that, of d]
    by (simp only: distrib_right mult_1) linarith
  show "\<exists>s. formatDuration d = itoa s @ ''s'' \<and> s * Second \<le> d \<and> d < (s + 1) * Second" if "d < Minute"
    using that assms q [of Second] by (intro exI [of _ "d div Second"]) (simp add: formatDuration_def dur_secs_nonneg)
  show "\<exists>m. formatDuration d = itoa m @ ''m'' \<and> m * Minute \<le> d \<and> d < (m + 1) * Minute"
    if "Minute \<le> d \<and> d < Hour"
    using that assms q [of Minute] by (intro exI [of _ "d div Minute"]) (simp add: formatDuration_def sdiv_nonneg)
  show "\<exists>h m. formatDuration d = itoa h @ ''h'' @ itoa m @ ''m'' \<and> 0 \<le> m \<and> m < 60
      \<and> h * Hour + m * Minute \<le> d \<and> d < h * Hour + (m + 1) * Minute" if "Hour \<le> d"
  proof -
    have "d div Minute = d div Hour * 60 + d div Minute mod 60"
      using zdiv_zmult2_eq [of 60 d Minute] div_mult_mod_eq [of "d div Minute" 60] by simp
    with that assms q [of Minute] show ?thesis
      by (intro exI [of _ "d div Hour"] exI [of _ "d div Minute mod 60"])
         (simp add: formatDuration_def sdiv_nonneg smod_nonneg)
  qed
qed

theorem formatDuration_rounds_down_witness:
  "\<exists>h m. formatDuration (2 * Hour + 5 * Minute + 7) = itoa h @ ''h'' @ itoa m @ ''m'' \<and> 0 \<le> m \<and> m < 60
     \<and> h * Hour + m * Minute \<le> 2 * Hour + 5 * Minute + 7 \<and> 2 * Hour + 5 * Minute + 7 < h * Hour + (m + 1) * Minute"
  using formatDuration_rounds_down [of "2 * Hour + 5 * Minute + 7"] by simp

end
