(* ===== verification/Go_Float.thy ===== *)
theory Go_Float
  imports Disco_Prelude "HOL-Library.Log_Nat"
begin

text \<open>
  The rounding of Go's \<^verbatim>\<open>float64\<close>. An operation of the program on floats is the operation on rationals followed by
  \<open>float_round\<close>: to 53 significant bits, to the nearest, and to an even last bit in a tie. The exponent is not bounded,
  which is right for results between \<open>2 ^ (-1022)\<close> and \<open>2 ^ 1024\<close>; what the program computes from dispersions that
  are not negative stays far inside. Every
  product is rounded before it is added to something, as on amd64; compilers for other platforms may fuse the two
  operations.
\<close>

section \<open>Rounding\<close>

text \<open>The nearest integer, an even one in a tie.\<close>

definition round_even :: "rat \<Rightarrow> int" where
  "round_even x =
     (let f = \<lfloor>x\<rfloor>; d = x - of_int f
      in if d < 1 / 2 then f else if d > 1 / 2 then f + 1 else if even f then f else f + 1)"

text \<open>The exponent of a positive number: the greatest power of two below it.\<close>

definition binary_exponent :: "rat \<Rightarrow> int" where
  "binary_exponent x =
     (let (n, d) = quotient_of x; k = int (floorlog 2 (nat n)) - int (floorlog 2 (nat d))
      in if 2 powi k \<le> x then k else k - 1)"

definition float_round :: "rat \<Rightarrow> float64" where
  "float_round x =
     (if x = 0 then 0
      else let ulp = 2 powi (binary_exponent \<bar>x\<bar> - 52) in of_int (round_even (x / ulp)) * ulp)"

text \<open>\<^verbatim>\<open>Duration.Seconds\<close>.\<close>

definition duration_Seconds :: "duration \<Rightarrow> float64" where
  "duration_Seconds d =
     (let sec = d sdiv Second; nsec = d smod Second
      in float_round (float_round (of_int sec) + float_round (float_round (of_int nsec) / of_int Second)))"

section \<open>The error of a rounding\<close>

abbreviation unit_roundoff :: rat where "unit_roundoff \<equiv> 1 / 2 ^ 53"

lemma round_even_error: "\<bar>of_int (round_even x) - x\<bar> \<le> 1 / 2"
proof -
  define d where "d = x - of_int \<lfloor>x\<rfloor>"
  have "0 \<le> d" by (simp add: d_def)
  moreover have "d < 1" using floor_correct [of x] by (simp add: d_def algebra_simps)
  moreover have "x = of_int \<lfloor>x\<rfloor> + d" by (simp add: d_def)
  ultimately show ?thesis
    unfolding round_even_def Let_def by (auto simp: d_def [symmetric] abs_if)
qed

lemma binary_exponent_bounds:
  assumes "0 < x"
  shows "2 powi binary_exponent x \<le> x \<and> x < 2 powi (binary_exponent x + 1)"
proof -
  obtain n d where q: "quotient_of x = (n, d)" by (cases "quotient_of x")
  have d: "0 < d" and x: "x = of_int n / of_int d"
    using quotient_of_denom_pos [OF q] quotient_of_div [OF q] by simp_all
  then have n: "0 < n" using assms by (simp add: zero_less_divide_iff)
  have b: "(2::rat) powi (int (floorlog 2 (nat m)) - 1) \<le> of_int m \<and> of_int m < (2::rat) powi int (floorlog 2 (nat m))"
    if "0 < m" for m
  proof -
    have f: "0 < floorlog 2 (nat m)" using that floorlog_eq_zero_iff [of 2 "nat m"] by auto
    have "2 ^ (floorlog 2 (nat m) - 1) \<le> nat m \<and> nat m < 2 ^ floorlog 2 (nat m)" using that by (intro floorlog_bounds) auto
    then have "(2::rat) ^ (floorlog 2 (nat m) - 1) \<le> of_nat (nat m) \<and> of_nat (nat m) < (2::rat) ^ floorlog 2 (nat m)"
      by (metis of_nat_le_iff of_nat_less_iff of_nat_numeral of_nat_power)
    moreover have "int (floorlog 2 (nat m)) - 1 = int (floorlog 2 (nat m) - 1)" using f by simp
    ultimately show ?thesis using that by (simp add: power_int_of_nat del: of_nat_diff)
  qed
  let ?a = "int (floorlog 2 (nat n))" and ?c = "int (floorlog 2 (nat d))"
  have "(2::rat) powi (?a - ?c - 1) = 2 powi (?a - 1) / 2 powi ?c" by (simp add: power_int_diff)
  also have "\<dots> \<le> x" unfolding x using b [OF n] b [OF d] d n by (intro frac_le) auto
  finally have lo: "2 powi (?a - ?c - 1) \<le> x" .
  have "x < 2 powi ?a / 2 powi (?c - 1)" unfolding x using b [OF n] b [OF d] n by (intro frac_less) auto
  also have "\<dots> = (2::rat) powi (?a - ?c + 1)"
    by (subst power_int_diff [symmetric]) (simp_all add: algebra_simps)
  finally have hi: "x < 2 powi (?a - ?c + 1)" .
  show ?thesis using lo hi by (auto simp: binary_exponent_def q Let_def)
qed

text \<open>The relative error is at most half a unit in the last place.\<close>

lemma float_round_error: "\<bar>float_round x - x\<bar> \<le> \<bar>x\<bar> * unit_roundoff"
proof (cases "x = 0")
  case False
  define ulp where "ulp = (2::rat) powi (binary_exponent \<bar>x\<bar> - 52)"
  have pos: "0 < ulp" by (simp add: ulp_def)
  have "float_round x - x = (of_int (round_even (x / ulp)) - x / ulp) * ulp"
    using False pos by (simp add: float_round_def ulp_def [symmetric] Let_def left_diff_distrib)
  then have "\<bar>float_round x - x\<bar> = \<bar>of_int (round_even (x / ulp)) - x / ulp\<bar> * ulp" using pos by (simp add: abs_mult)
  also have "\<dots> \<le> 1 / 2 * ulp" using round_even_error pos by (intro mult_right_mono) simp_all
  also have "ulp = 2 powi binary_exponent \<bar>x\<bar> / 2 ^ 52" by (simp add: ulp_def power_int_diff)
  also have "1 / 2 * (2 powi binary_exponent \<bar>x\<bar> / 2 ^ 52) \<le> 1 / 2 * (\<bar>x\<bar> / 2 ^ 52)"
    using binary_exponent_bounds [of "\<bar>x\<bar>"] False by simp
  finally show ?thesis by simp
qed (simp add: float_round_def)

lemma float_round_bounds:
  assumes "0 \<le> x"
  shows "(1 - unit_roundoff) * x \<le> float_round x" and "float_round x \<le> (1 + unit_roundoff) * x"
proof -
  define u :: rat where "u = unit_roundoff"
  have "\<bar>float_round x - x\<bar> \<le> x * u" using float_round_error [of x] assms by (simp add: u_def)
  then show "(1 - unit_roundoff) * x \<le> float_round x" and "float_round x \<le> (1 + unit_roundoff) * x"
    unfolding u_def [symmetric] by (simp_all add: abs_le_iff algebra_simps)
qed

lemma float_round_pos: "0 < x \<Longrightarrow> 0 < float_round x"
proof -
  assume x: "0 < x"
  have "0 < (1 - unit_roundoff) * x" using x by (intro mult_pos_pos) simp_all
  also have "\<dots> \<le> float_round x" using x by (intro float_round_bounds) simp
  finally show ?thesis .
qed

lemma float_round_0 [simp]: "float_round 0 = 0"
  by (simp add: float_round_def)

lemma float_round_nonneg: "0 \<le> x \<Longrightarrow> 0 \<le> float_round x"
  using float_round_pos [of x] by (cases "x = 0") auto

text \<open>The error of \<^verbatim>\<open>Seconds\<close>, with the quotient and the remainder of the same sign.\<close>

lemma duration_Seconds_error:
  "\<bar>duration_Seconds d - of_int d / of_int Second\<bar> \<le> 5 * unit_roundoff * (\<bar>of_int d\<bar> / of_int Second)"
proof -
  define u :: rat where "u = unit_roundoff"
  have u: "0 \<le> u" "u * u \<le> u / 8" "u \<le> 1 / 8" by (simp_all add: u_def)
  define a b :: rat where "a = of_int (d sdiv Second)" and "b = of_int (d smod Second) / of_int Second"
  define A B :: rat where "A = float_round a" and "B = float_round (float_round (of_int (d smod Second)) / of_int Second)"
  define x :: rat where "x = of_int d / of_int Second"
  have "of_int d = of_int (d sdiv Second) * of_int Second + (of_int (d smod Second) :: rat)"
    using sdiv_mult_smod_eq [of d Second] by (metis of_int_add of_int_mult)
  then have x: "x = a + b" by (simp add: x_def a_def b_def add_divide_distrib)
  have ab: "\<bar>a\<bar> + \<bar>b\<bar> = \<bar>x\<bar>"
  proof (cases "0 \<le> d")
    case True
    then have "0 \<le> a" "0 \<le> b" by (simp_all add: a_def b_def signed_divide_int_def signed_modulo_int_def sgn_if pos_imp_zdiv_nonneg_iff)
    then show ?thesis by (simp add: x)
  next
    case False
    then have "d sdiv Second = - (- d div Second)" "d smod Second = - (\<bar>d\<bar> mod Second)"
      by (simp_all add: signed_divide_int_def signed_modulo_int_def sgn_if)
    moreover have "0 \<le> - d div Second" "0 \<le> \<bar>d\<bar> mod Second" using False by (simp_all add: pos_imp_zdiv_nonneg_iff)
    ultimately have "a \<le> 0" "b \<le> 0" by (simp_all add: a_def b_def)
    then show ?thesis by (simp add: x)
  qed
  have A: "\<bar>A - a\<bar> \<le> u * \<bar>a\<bar>" using float_round_error [of a] by (simp add: A_def u_def)
  define f :: rat where "f = float_round (of_int (d smod Second)) / of_int Second"
  have f: "\<bar>f - b\<bar> \<le> u * \<bar>b\<bar>"
  proof -
    have "\<bar>f - b\<bar> = \<bar>float_round (of_int (d smod Second)) - of_int (d smod Second)\<bar> / of_int Second"
      by (simp add: f_def b_def abs_divide flip: diff_divide_distrib)
    also have "\<dots> \<le> (\<bar>of_int (d smod Second)\<bar> * u) / of_int Second"
      using float_round_error [of "of_int (d smod Second)"] by (intro divide_right_mono) (simp_all add: u_def)
    finally show ?thesis by (simp add: b_def abs_divide mult.commute)
  qed
  have Bf: "\<bar>B - f\<bar> \<le> u * \<bar>f\<bar>" using float_round_error [of f] by (simp add: B_def f_def u_def)
  have "u * \<bar>f\<bar> \<le> u * (\<bar>b\<bar> + u * \<bar>b\<bar>)" using f u(1) by (intro mult_left_mono) linarith+
  also have "\<dots> = u * \<bar>b\<bar> + u * u * \<bar>b\<bar>" by (simp add: algebra_simps)
  also have "u * u * \<bar>b\<bar> \<le> u * \<bar>b\<bar>" using u by (intro mult_right_mono) linarith+
  finally have B: "\<bar>B - b\<bar> \<le> 3 * (u * \<bar>b\<bar>)" using f Bf by linarith
  have "u * \<bar>x\<bar> = u * \<bar>a\<bar> + u * \<bar>b\<bar>" unfolding ab [symmetric] by (rule distrib_left)
  moreover have "0 \<le> u * \<bar>a\<bar>" "0 \<le> u * \<bar>b\<bar>" using u(1) by simp_all
  ultimately have AB: "\<bar>(A + B) - x\<bar> \<le> 3 * (u * \<bar>x\<bar>)" using A B x by linarith
  have "\<bar>float_round (A + B) - (A + B)\<bar> \<le> u * \<bar>A + B\<bar>" using float_round_error [of "A + B"] by (simp add: u_def)
  moreover have "u * \<bar>A + B\<bar> \<le> u * (\<bar>x\<bar> + 3 * (u * \<bar>x\<bar>))" using AB u(1) by (intro mult_left_mono) linarith+
  moreover have "u * (\<bar>x\<bar> + 3 * (u * \<bar>x\<bar>)) = u * \<bar>x\<bar> + 3 * (u * u * \<bar>x\<bar>)" by (simp add: algebra_simps)
  moreover have "u * u * \<bar>x\<bar> \<le> u / 8 * \<bar>x\<bar>" using u by (intro mult_right_mono) simp_all
  ultimately have "\<bar>float_round (A + B) - x\<bar> \<le> 5 * (u * \<bar>x\<bar>)" using AB by linarith
  then show ?thesis by (simp add: duration_Seconds_def Let_def A_def B_def a_def x_def u_def abs_divide)
qed

end
