(* ===== verification/Time_Sync.thy ===== *)
theory Time_Sync
  imports Config Broadcast Go_Float
begin

text \<open>
  Clock synchronisation from announced times (\<^verbatim>\<open>internal/timesync\<close>): the store of
  sources, the selection of the best time, the decision how to adjust the clock, the system
  calls that do it, and the service that ties them together.

  \<^verbatim>\<open>sort.Slice\<close> is an argument \<open>srt\<close>: Go's sort is not stable, so any function that
  permutes the sources into ascending order is allowed (locale \<open>slice_sorter\<close>, interpreted
  on the library's insertion sort). The kernel is an argument that maps a clock action to the
  error it returns, if any. Differences of time stamps are 64-bit integers and wrap.
\<close>

section \<open>Sources\<close>

record TimeSource =
  src_SourceID :: string
  src_Timestamp :: int
  src_ReceivedAt :: time
  src_ClockInfo :: ClockInfo
  src_LeapIndicator :: int

record TimeSourceStore =
  tss_sources :: "(string, TimeSource) gomap"
  tss_maxStale :: duration

definition NewTimeSourceStore :: "duration \<Rightarrow> TimeSourceStore" where
  "NewTimeSourceStore maxStale = \<lparr>tss_sources = [], tss_maxStale = maxStale\<rparr>"

definition Source_Add :: "time \<Rightarrow> TimeAnnounceMessage \<Rightarrow> TimeSourceStore \<Rightarrow> TimeSourceStore" where
  "Source_Add now msg s =
     s\<lparr>tss_sources := AList.update (tam_SourceID msg)
        \<lparr>src_SourceID = tam_SourceID msg, src_Timestamp = tam_Timestamp msg, src_ReceivedAt = now,
         src_ClockInfo = tam_ClockInfo msg, src_LeapIndicator = tam_LeapIndicator msg\<rparr> (tss_sources s)\<rparr>"

definition source_fresh :: "time \<Rightarrow> TimeSourceStore \<Rightarrow> TimeSource \<Rightarrow> bool" where
  "source_fresh now s src \<longleftrightarrow> time_Sub now (src_ReceivedAt src) \<le> tss_maxStale s"

definition GetValidSources :: "time \<Rightarrow> TimeSourceStore \<Rightarrow> TimeSource list" where
  "GetValidSources now s = filter (source_fresh now s) (map snd (tss_sources s))"

fun min_sources_loop :: "(TimeSource \<Rightarrow> bool) \<Rightarrow> int \<Rightarrow> int \<Rightarrow> TimeSource list \<Rightarrow> bool" where
  "min_sources_loop fresh mn cnt [] = False"
| "min_sources_loop fresh mn cnt (src # srcs) =
     (if fresh src then
        (if cnt + 1 \<ge> mn then True else min_sources_loop fresh mn (cnt + 1) srcs)
      else min_sources_loop fresh mn cnt srcs)"

definition HasMinimumSources :: "time \<Rightarrow> int \<Rightarrow> TimeSourceStore \<Rightarrow> bool" where
  "HasMinimumSources now mn s = min_sources_loop (source_fresh now s) mn 0 (map snd (tss_sources s))"

definition Source_Count :: "TimeSourceStore \<Rightarrow> int" where
  "Source_Count s = int (length (tss_sources s))"

definition Source_Remove :: "string \<Rightarrow> TimeSourceStore \<Rightarrow> TimeSourceStore" where
  "Source_Remove sourceID s = s\<lparr>tss_sources := AList.delete sourceID (tss_sources s)\<rparr>"

definition Source_Clear :: "TimeSourceStore \<Rightarrow> TimeSourceStore" where
  "Source_Clear s = s\<lparr>tss_sources := []\<rparr>"

section \<open>Selection\<close>

record TimeUpdate =
  tu_Offset :: float64
  tu_SourceCount :: int
  tu_BestTime :: time

text \<open>The error of the selection: a message, or the run-time panic of an index out of range.\<close>

datatype sel_error = SelErr string | SelPanic

text \<open>The text of a duration (\<^verbatim>\<open>Duration.String\<close>); the micro sign is its two UTF-8 bytes.\<close>

fun trim_zeros :: "string \<Rightarrow> string" where
  "trim_zeros s = (if s \<noteq> [] \<and> last s = CHR ''0'' then trim_zeros (butlast s) else s)"

declare trim_zeros.simps [simp del]

definition frac_text :: "nat \<Rightarrow> nat \<Rightarrow> string" where
  "frac_text prec v =
     (let ds = dec_nat (v mod 10 ^ prec); f = trim_zeros (replicate (prec - length ds) CHR ''0'' @ ds)
      in dec_nat (v div 10 ^ prec) @ (if f = [] then [] else CHR ''.'' # f))"

definition duration_text :: "duration \<Rightarrow> string" where
  "duration_text d =
     (let u = nat \<bar>d\<bar>; sign = (if d < 0 then ''-'' else [])
      in if u = 0 then ''0s''
         else if u < 1000 then sign @ dec_nat u @ ''ns''
         else if u < 1000000 then sign @ frac_text 3 u @ [CHR 0xC2, CHR 0xB5] @ ''s''
         else if u < 1000000000 then sign @ frac_text 6 u @ ''ms''
         else let secs = u div 1000000000; m = secs div 60; h = m div 60;
                  s = frac_text 9 (u mod 60000000000)
              in sign @ (if h > 0 then dec_nat h @ ''h'' else [])
                 @ (if m > 0 then dec_nat (m mod 60) @ ''m'' else []) @ s @ ''s'')"

text \<open>The inner loop of \<^verbatim>\<open>findAgreeingSubset\<close>: the sources from \<open>i\<close> on, up to the first that is too far.\<close>

fun agreeing_from :: "int \<Rightarrow> duration \<Rightarrow> TimeSource list \<Rightarrow> TimeSource list" where
  "agreeing_from ts tolerance [] = []"
| "agreeing_from ts tolerance (s # ss) =
     (if wrap64 (src_Timestamp s - ts) \<le> tolerance then s # agreeing_from ts tolerance ss else [])"

text \<open>The outer loop, on the sources that are left.\<close>

fun agreeing_loop :: "duration \<Rightarrow> TimeSource list \<Rightarrow> TimeSource list \<Rightarrow> TimeSource list" where
  "agreeing_loop tolerance best [] = best"
| "agreeing_loop tolerance best (s # ss) =
     (let subset = agreeing_from (src_Timestamp s) tolerance (s # ss)
      in agreeing_loop tolerance (if length subset > length best then subset else best) ss)"

definition findAgreeingSubset :: "TimeSource list \<Rightarrow> duration \<Rightarrow> TimeSource list" where
  "findAgreeingSubset sources tolerance = agreeing_loop tolerance [] sources"

definition valid_source :: "TimeSource \<Rightarrow> bool" where
  "valid_source s \<longleftrightarrow>
     \<not> ci_Stratum (src_ClockInfo s) > 15 \<and> \<not> ci_RootDispersion (src_ClockInfo s) > 1"

text \<open>
  The weight of a source, \<open>None\<close> for the infinite weight of a zero denominator. The weighted
  mean is \<open>None\<close> where the division yields no finite number (a NaN or an infinity, which the
  conversion turns into the least integer).
\<close>

definition source_weight :: "TimeSource \<Rightarrow> float64 option" where
  "source_weight s =
     (let d = float_round (ci_RootDispersion (src_ClockInfo s) + float_round (1 / 10000))
      in if d = 0 then None else Some (float_round (1 / d)))"

fun weigh :: "TimeSource \<Rightarrow> float64 \<times> float64 \<Rightarrow> float64 \<times> float64" where
  "weigh src (weightedTime, totalWeight) =
     (let weight = the (source_weight src)
      in (float_round (weightedTime + float_round (float_round (of_int (src_Timestamp src)) * weight)),
          float_round (totalWeight + weight)))"

definition weighted_mean :: "TimeSource list \<Rightarrow> float64 option" where
  "weighted_mean srcs =
     (if list_ex (\<lambda>s. source_weight s = None) srcs then None
      else let (weightedTime, totalWeight) = fold weigh srcs (0, 0)
           in if totalWeight = 0 then None else Some (float_round (weightedTime / totalWeight)))"

definition best_time_nanos :: "TimeSource list \<Rightarrow> int" where
  "best_time_nanos srcs = (case weighted_mean srcs of None \<Rightarrow> - (2 ^ 63) | Some f \<Rightarrow> float_to_int64 f)"

definition SelectBestTime :: "(TimeSource list \<Rightarrow> TimeSource list) \<Rightarrow> time \<Rightarrow> TimeSource list \<Rightarrow> int \<Rightarrow> duration
    \<Rightarrow> sel_error + TimeUpdate" where
  "SelectBestTime srt now sources minSources maxSpread =
     (if int (length sources) < minSources then
        Inl (SelErr (''insufficient sources: have '' @ itoa (int (length sources)) @ '', need '' @ itoa minSources))
      else let valid = filter valid_source sources
      in if int (length valid) < minSources then Inl (SelErr ''insufficient valid sources after filtering'')
      else let ordered = srt valid
      in if ordered = [] then Inl SelPanic
      else let spread = wrap64 (src_Timestamp (last ordered) - src_Timestamp (hd ordered));
               agreeing = findAgreeingSubset ordered (maxSpread sdiv 2)
      in if spread > maxSpread \<and> int (length agreeing) < minSources then
           Inl (SelErr (''sources disagree (spread: '' @ duration_text spread @ '')''))
      else let chosen = (if spread > maxSpread then agreeing else ordered);
               bestTime = best_time_nanos chosen
      in Inr \<lparr>tu_Offset = duration_Seconds (time_Sub bestTime now),
              tu_SourceCount = int (length chosen), tu_BestTime = bestTime\<rparr>)"

section \<open>Clock adjustment\<close>

datatype AdjustmentMethod = AdjustmentNone | AdjustmentSlew | AdjustmentStep

record ClockConfig =
  cc_StepThreshold :: duration
  cc_SlewThreshold :: duration
  cc_AllowStepBackward :: bool

record ClockAdjustment =
  adj_Method :: AdjustmentMethod
  adj_Offset :: duration
  adj_Absolute :: time

definition CalculateAdjustment :: "time \<Rightarrow> float64 \<Rightarrow> ClockConfig \<Rightarrow> ClockAdjustment" where
  "CalculateAdjustment now offsetSeconds cfg =
     (let offset = float_to_int64 (float_round (offsetSeconds * of_int Second));
          absOffset = (if offset < 0 then wrap64 (- offset) else offset)
      in if absOffset < cc_SlewThreshold cfg then
           \<lparr>adj_Method = AdjustmentNone, adj_Offset = offset, adj_Absolute = zero_time\<rparr>
         else if offset < 0 \<and> \<not> cc_AllowStepBackward cfg then
           \<lparr>adj_Method = AdjustmentNone, adj_Offset = offset, adj_Absolute = zero_time\<rparr>
         else if absOffset \<ge> cc_StepThreshold cfg then
           \<lparr>adj_Method = AdjustmentStep, adj_Offset = offset, adj_Absolute = now + offset\<rparr>
         else \<lparr>adj_Method = AdjustmentSlew, adj_Offset = offset, adj_Absolute = zero_time\<rparr>)"

datatype clock_action = Settimeofday int int | Adjtimex int int

type_synonym kernel = "clock_action \<Rightarrow> string option"

definition stepClock :: "kernel \<Rightarrow> time \<Rightarrow> clock_action \<times> string option" where
  "stepClock sys target =
     (let act = Settimeofday (unix_secs target) (target mod Second div 1000)
      in (act, case sys act of None \<Rightarrow> None | Some errno \<Rightarrow> Some (''settimeofday failed: '' @ errno)))"

definition slewClock :: "kernel \<Rightarrow> duration \<Rightarrow> clock_action \<times> string option" where
  "slewClock sys offset =
     (let offsetNanos = (if offset \<ge> 0 then offset else wrap64 (- wrap64 (- offset)));
          act = Adjtimex 8193 offsetNanos
      in (act, case sys act of None \<Rightarrow> None | Some errno \<Rightarrow> Some (''adjtimex failed: '' @ errno)))"

definition ApplyAdjustment :: "kernel \<Rightarrow> ClockAdjustment \<Rightarrow> clock_action list \<times> string option" where
  "ApplyAdjustment sys adj =
     (case adj_Method adj of
        AdjustmentNone \<Rightarrow> ([], None)
      | AdjustmentStep \<Rightarrow> (let (act, err) = stepClock sys (adj_Absolute adj) in ([act], err))
      | AdjustmentSlew \<Rightarrow> (let (act, err) = slewClock sys (adj_Offset adj) in ([act], err)))"

text \<open>The build for other platforms.\<close>

definition ApplyAdjustment_other :: "ClockAdjustment \<Rightarrow> string option" where
  "ApplyAdjustment_other adj =
     (case adj_Method adj of
        AdjustmentNone \<Rightarrow> None
      | _ \<Rightarrow> Some ''clock adjustment not supported on this platform'')"

section \<open>Service\<close>

record SyncStatus =
  ss_Synced :: bool
  ss_SourceCount :: int
  ss_LastOffset :: float64
  ss_LastSyncTime :: time
  ss_LastError :: string

record ForceUpdateResult =
  fur_Success :: bool
  fur_Offset :: float64
  fur_Method :: string
  fur_SourceCount :: int
  fur_Error :: string

record TimeSyncService =
  tsv_config :: TimeSyncConfig
  tsv_keyManager :: "KeyManager option"
  tsv_store :: TimeSourceStore
  tsv_status :: SyncStatus

definition zero_SyncStatus :: SyncStatus where
  "zero_SyncStatus = \<lparr>ss_Synced = False, ss_SourceCount = 0, ss_LastOffset = 0, ss_LastSyncTime = zero_time,
     ss_LastError = []\<rparr>"

definition NewTimeSyncService :: "TimeSyncConfig \<Rightarrow> KeyManager option \<Rightarrow> TimeSyncService" where
  "NewTimeSyncService cfg km =
     \<lparr>tsv_config = cfg, tsv_keyManager = km, tsv_store = NewTimeSourceStore (tsc_MaxStaleAge cfg),
      tsv_status = zero_SyncStatus\<rparr>"

definition ProcessMessage :: "time \<Rightarrow> TimeAnnounceMessage \<Rightarrow> TimeSyncService \<Rightarrow> TimeSyncService" where
  "ProcessMessage now msg s =
     (if \<not> tsc_Enabled (tsv_config s) then s
      else if tsc_RequireSigned (tsv_config s) \<and> tam_Signature msg = None \<and> tsv_keyManager s \<noteq> None then s
      else s\<lparr>tsv_store := Source_Add now msg (tsv_store s)\<rparr>)"

definition synced_status :: "time \<Rightarrow> TimeUpdate \<Rightarrow> SyncStatus" where
  "synced_status now update =
     \<lparr>ss_Synced = True, ss_SourceCount = tu_SourceCount update, ss_LastOffset = tu_Offset update,
      ss_LastSyncTime = now, ss_LastError = []\<rparr>"

text \<open>
  One poll: the new state and the clock actions that were tried. \<open>None\<close> is the panic of the
  selection, which ends the daemon.
\<close>

definition evaluateAndAdjust :: "(TimeSource list \<Rightarrow> TimeSource list) \<Rightarrow> kernel \<Rightarrow> time \<Rightarrow> TimeSyncService
    \<Rightarrow> (TimeSyncService \<times> clock_action list) option" where
  "evaluateAndAdjust srt sys now s =
     (let cfg = tsv_config s; sources = GetValidSources now (tsv_store s)
      in case SelectBestTime srt now sources (tsc_MinSources cfg) (tsc_MaxSourceSpread cfg) of
           Inl SelPanic \<Rightarrow> None
         | Inl (SelErr err) \<Rightarrow>
             Some (s\<lparr>tsv_status := (tsv_status s)\<lparr>ss_Synced := False, ss_LastError := err\<rparr>\<rparr>, [])
         | Inr update \<Rightarrow>
             let adj = CalculateAdjustment now (tu_Offset update)
                   \<lparr>cc_StepThreshold = tsc_StepThreshold cfg, cc_SlewThreshold = tsc_SlewThreshold cfg,
                    cc_AllowStepBackward = tsc_AllowStepBackward cfg\<rparr>;
                 s1 = s\<lparr>tsv_status := synced_status now update\<rparr>
             in if adj_Method adj = AdjustmentNone then Some (s1, [])
                else (case ApplyAdjustment sys adj of
                        (acts, None) \<Rightarrow> Some (s1, acts)
                      | (acts, Some err) \<Rightarrow>
                          Some (s1\<lparr>tsv_status := (tsv_status s1)\<lparr>ss_LastError := err\<rparr>\<rparr>, acts)))"

definition GetStatus :: "TimeSyncService \<Rightarrow> SyncStatus" where
  "GetStatus s = tsv_status s"

definition ForceUpdate :: "(TimeSource list \<Rightarrow> TimeSource list) \<Rightarrow> kernel \<Rightarrow> time \<Rightarrow> bool \<Rightarrow> TimeSyncService
    \<Rightarrow> (TimeSyncService \<times> clock_action list \<times> ForceUpdateResult) option" where
  "ForceUpdate srt sys now allowBackward s =
     (let cfg = tsv_config s; sources = GetValidSources now (tsv_store s);
          failed = (\<lambda>err. \<lparr>fur_Success = False, fur_Offset = 0, fur_Method = [], fur_SourceCount = 0, fur_Error = err\<rparr>)
      in case SelectBestTime srt now sources (tsc_MinSources cfg) (tsc_MaxSourceSpread cfg) of
           Inl SelPanic \<Rightarrow> None
         | Inl (SelErr err) \<Rightarrow> Some (s, [], failed err)
         | Inr update \<Rightarrow>
             let adj = CalculateAdjustment now (tu_Offset update)
                   \<lparr>cc_StepThreshold = Millisecond, cc_SlewThreshold = Microsecond,
                    cc_AllowStepBackward = allowBackward\<rparr>;
                 s1 = s\<lparr>tsv_status := synced_status now update\<rparr>;
                 done = (\<lambda>meth. \<lparr>fur_Success = True, fur_Offset = tu_Offset update, fur_Method = meth,
                                 fur_SourceCount = tu_SourceCount update, fur_Error = []\<rparr>)
             in if adj_Method adj = AdjustmentNone then Some (s1, [], done ''none'')
                else (case ApplyAdjustment sys adj of
                        (acts, None) \<Rightarrow>
                          Some (s1, acts, done (if adj_Method adj = AdjustmentStep then ''stepped'' else ''slewed''))
                      | (acts, Some err) \<Rightarrow>
                          Some (s1\<lparr>tsv_status := (tsv_status s1)\<lparr>ss_LastError := err\<rparr>\<rparr>, acts, failed err)))"

section \<open>Lemmas on the source store\<close>

lemma min_sources_loop_iff:
  "min_sources_loop fresh mn cnt srcs \<longleftrightarrow>
     filter fresh srcs \<noteq> [] \<and> mn \<le> cnt + int (length (filter fresh srcs))"
proof (induction srcs arbitrary: cnt)
  case Nil
  then show ?case by simp
next
  case (Cons src srcs)
  then show ?case by (cases "filter fresh srcs") auto
qed

lemma HasMinimumSources_iff:
  "HasMinimumSources now mn s \<longleftrightarrow> max 1 mn \<le> int (length (GetValidSources now s))"
proof -
  have "filter P xs \<noteq> [] \<longleftrightarrow> 1 \<le> int (length (filter P xs))" for P and xs :: "TimeSource list"
    by (cases "filter P xs") auto
  then show ?thesis by (auto simp: HasMinimumSources_def GetValidSources_def min_sources_loop_iff)
qed

section \<open>Lemmas on the agreeing subset\<close>

abbreviation ts_range :: "TimeSource \<Rightarrow> bool" where
  "ts_range s \<equiv> 0 \<le> src_Timestamp s \<and> src_Timestamp s < 2 ^ 62"

definition agree :: "int \<Rightarrow> TimeSource multiset \<Rightarrow> bool" where
  "agree tol M \<longleftrightarrow> (\<forall>a \<in># M. \<forall>b \<in># M. src_Timestamp a - src_Timestamp b \<le> tol)"

lemma agreeing_from_filter:
  assumes "sorted (map src_Timestamp srcs)" and "\<forall>s \<in> set srcs. ts_range s" and "0 \<le> ts" and "ts < 2 ^ 62"
  shows "agreeing_from ts tol srcs = filter (\<lambda>s. src_Timestamp s - ts \<le> tol) srcs"
  using assms
proof (induction srcs)
  case Nil
  then show ?case by simp
next
  case (Cons s srcs)
  have "wrap64 (src_Timestamp s - ts) = src_Timestamp s - ts" using Cons.prems by (intro wrap64_diff) auto
  moreover have "filter (\<lambda>s. src_Timestamp s - ts \<le> tol) srcs = []" if "\<not> src_Timestamp s - ts \<le> tol"
    using that Cons.prems(1) by (force simp: filter_empty_conv)
  ultimately show ?case using Cons by auto
qed

lemma agreeing_loop_length: "length best \<le> length (agreeing_loop tol best srcs)"
proof (induction srcs arbitrary: best)
  case Nil
  then show ?case by simp
next
  case (Cons s ss)
  let ?w = "agreeing_from (src_Timestamp s) tol (s # ss)"
  let ?best = "if length ?w > length best then ?w else best"
  have "length best \<le> length ?best" by simp
  also have "\<dots> \<le> length (agreeing_loop tol ?best ss)" by (rule Cons.IH)
  finally show ?case by (simp only: agreeing_loop.simps Let_def)
qed

lemma window_agrees:
  assumes "sorted (map src_Timestamp (s # ss))" and "\<forall>x \<in> set (s # ss). ts_range x"
  shows "agree tol (mset (agreeing_from (src_Timestamp s) tol (s # ss)))"
    and "mset (agreeing_from (src_Timestamp s) tol (s # ss)) \<subseteq># mset (s # ss)"
proof -
  have eq: "agreeing_from (src_Timestamp s) tol (s # ss) =
      filter (\<lambda>x. src_Timestamp x - src_Timestamp s \<le> tol) (s # ss)"
    using assms by (intro agreeing_from_filter) auto
  show "mset (agreeing_from (src_Timestamp s) tol (s # ss)) \<subseteq># mset (s # ss)"
    unfolding eq by (metis mset_filter multiset_filter_subset)
  have low: "src_Timestamp s \<le> src_Timestamp x" if "x \<in> set (s # ss)" for x using that assms(1) by auto
  show "agree tol (mset (agreeing_from (src_Timestamp s) tol (s # ss)))"
    unfolding eq agree_def set_mset_mset set_filter
  proof (intro ballI)
    fix a b
    assume a: "a \<in> {x \<in> set (s # ss). src_Timestamp x - src_Timestamp s \<le> tol}"
      and "b \<in> {x \<in> set (s # ss). src_Timestamp x - src_Timestamp s \<le> tol}"
    then have "src_Timestamp s \<le> src_Timestamp b" using low by blast
    with a show "src_Timestamp a - src_Timestamp b \<le> tol" by simp
  qed
qed

lemma agreeing_loop_sound:
  assumes "sorted (map src_Timestamp srcs)" and "\<forall>x \<in> set srcs. ts_range x"
    and "agree tol (mset best)" and "mset best \<subseteq># N" and "mset srcs \<subseteq># N"
  shows "agree tol (mset (agreeing_loop tol best srcs)) \<and> mset (agreeing_loop tol best srcs) \<subseteq># N"
  using assms
proof (induction srcs arbitrary: best)
  case Nil
  then show ?case by simp
next
  case (Cons s ss)
  let ?w = "agreeing_from (src_Timestamp s) tol (s # ss)"
  let ?best = "if length ?w > length best then ?w else best"
  have "agree tol (mset ?best) \<and> mset ?best \<subseteq># N"
    using window_agrees [OF Cons.prems(1,2), of tol] Cons.prems(3-5) subset_mset.order_trans
    by (simp del: agreeing_from.simps) blast
  moreover have "mset ss \<subseteq># N" using Cons.prems(5) by (auto intro: subset_mset.order_trans [rotated])
  ultimately show ?case using Cons.IH [of ?best] Cons.prems by (simp add: Let_def del: agreeing_from.simps)
qed

lemma agreeing_loop_optimal:
  assumes "sorted (map src_Timestamp srcs)" and "\<forall>x \<in> set srcs. ts_range x"
    and "M \<subseteq># mset srcs" and "agree tol M"
  shows "size M \<le> length (agreeing_loop tol best srcs)"
  using assms
proof (induction srcs arbitrary: best)
  case Nil
  then show ?case by simp
next
  case (Cons s ss)
  let ?w = "agreeing_from (src_Timestamp s) tol (s # ss)"
  let ?best = "if length ?w > length best then ?w else best"
  have loop: "agreeing_loop tol best (s # ss) = agreeing_loop tol ?best ss" by (simp add: Let_def)
  show ?case
  proof (cases "s \<in># M")
    case True
    have "?w = filter (\<lambda>x. src_Timestamp x - src_Timestamp s \<le> tol) (s # ss)"
      using Cons.prems(1,2) by (intro agreeing_from_filter) auto
    moreover have "filter_mset (\<lambda>x. src_Timestamp x - src_Timestamp s \<le> tol) M = M"
      using True Cons.prems(4) by (subst filter_mset_eq_conv) (auto simp: agree_def)
    then have "M \<subseteq># filter_mset (\<lambda>x. src_Timestamp x - src_Timestamp s \<le> tol) (mset (s # ss))"
      using Cons.prems(3) by (metis multiset_filter_mono)
    ultimately have "size M \<le> length ?w" by (metis mset_filter size_mset size_mset_mono)
    also have "\<dots> \<le> length ?best" by simp
    also have "\<dots> \<le> length (agreeing_loop tol ?best ss)" by (rule agreeing_loop_length)
    finally show ?thesis unfolding loop .
  next
    case False
    then have "M \<subseteq># mset ss" using Cons.prems(3)
      by (metis add_mset_add_single diff_single_trivial mset.simps(2) subset_eq_diff_conv)
    with Cons show ?thesis unfolding loop by simp
  qed
qed

section \<open>Lemmas on the weighted mean\<close>

abbreviation disp_ok :: "TimeSource \<Rightarrow> bool" where
  "disp_ok s \<equiv> 0 \<le> ci_RootDispersion (src_ClockInfo s)"

lemma float_trunc_between: "of_int lo \<le> f \<Longrightarrow> f \<le> of_int hi \<Longrightarrow> lo \<le> float_trunc f \<and> float_trunc f \<le> hi"
  by (auto simp: float_trunc_def le_floor_iff floor_le_iff)
     (linarith | simp add: le_floor_iff floor_le_iff; linarith)+

lemma weight_pos: "disp_ok s \<Longrightarrow> \<exists>w > 0. source_weight s = Some w"
proof -
  assume "disp_ok s"
  then have "0 < float_round (ci_RootDispersion (src_ClockInfo s) + float_round (1 / 10000))"
    by (intro float_round_pos add_nonneg_pos) simp_all
  then show ?thesis using float_round_pos by (simp add: source_weight_def Let_def)
qed

text \<open>Each rounding changes a sum of positive terms at most by the factor \<open>growth\<close>.\<close>

abbreviation growth :: rat where "growth \<equiv> (1 + unit_roundoff) / (1 - unit_roundoff)"

lemma weigh_bounds:
  assumes "source_weight s = Some w" and "0 < w" and "0 \<le> lo" and "lo \<le> of_int (src_Timestamp s)" "of_int (src_Timestamp s) \<le> hi"
    and "0 \<le> wt" "0 \<le> tw" "wt \<le> hi * tw * growth ^ (k + 2)" "lo * tw \<le> wt * growth ^ (k + 2)"
    and "weigh s (wt, tw) = (wt', tw')"
  shows "0 \<le> wt' \<and> 0 < tw' \<and> wt' \<le> hi * tw' * growth ^ (Suc k + 2) \<and> lo * tw' \<le> wt' * growth ^ (Suc k + 2)"
proof -
  define u :: rat where "u = unit_roundoff"
  define g where "g = (1 + u) / (1 - u)"
  define T where "T = float_round (of_int (src_Timestamp s))"
  define p where "p = float_round (T * w)"
  have u: "0 < u" "u < 1" by (simp_all add: u_def)
  note fr = float_round_bounds [folded u_def] float_round_nonneg
  have g: "1 \<le> g" "(1 - u) * g = 1 + u" "1 + u \<le> g" using u by (simp_all add: g_def field_simps)
  have ts: "0 \<le> (of_int (src_Timestamp s) :: rat)" using assms(3,4) by linarith
  have T: "(1 - u) * of_int (src_Timestamp s) \<le> T" "T \<le> (1 + u) * of_int (src_Timestamp s)" "0 \<le> T"
    using fr [OF ts] by (simp_all add: T_def)
  have Tw: "0 \<le> T * w" using T(3) assms(2) by simp
  have p: "(1 - u) * (T * w) \<le> p" "p \<le> (1 + u) * (T * w)" "0 \<le> p" using fr [OF Tw] by (simp_all add: p_def)
  have G: "1 \<le> g ^ k" "0 \<le> g ^ (k + 2)" "g ^ 2 \<le> g ^ (k + 2)" using g(1) power_increasing [of 2 "k + 2" g] by simp_all
  have hi: "0 \<le> hi" using ts assms(5) by linarith
  have p_hi: "p \<le> hi * w * g ^ (k + 2)"
  proof -
    have "T \<le> g * hi" using T(2) mult_mono [OF g(3) assms(5)] ts g(1) by linarith
    then have "p \<le> g * (g * hi * w)"
      using p(2) mult_mono [OF g(3) mult_right_mono [of T "g * hi" w]] Tw assms(2) g(1) by linarith
    also have "\<dots> = hi * w * g ^ 2" by (simp add: power2_eq_square)
    also have "\<dots> \<le> hi * w * g ^ (k + 2)" using G(3) hi assms(2) by (intro mult_left_mono) simp_all
    finally show ?thesis .
  qed
  have p_lo: "lo * w \<le> p * g ^ (k + 2)"
  proof -
    have "lo \<le> T * g"
    proof -
      have "lo * 1 \<le> of_int (src_Timestamp s) * ((1 - u) * g)" using assms(3,4) g(2) u by (intro mult_mono) linarith+
      also have "\<dots> = (1 - u) * of_int (src_Timestamp s) * g" by (simp add: ac_simps)
      also have "\<dots> \<le> T * g" using T(1) g(1) by (intro mult_right_mono) simp_all
      finally show ?thesis by simp
    qed
    then have "lo * w * 1 \<le> (T * g) * w * ((1 - u) * g)" using assms(2,3) g(2) u T(3) g(1) by (intro mult_mono) simp_all
    also have "\<dots> = (1 - u) * (T * w) * g ^ 2" by (simp add: power2_eq_square ac_simps)
    also have "\<dots> \<le> p * g ^ (k + 2)" using p(1,3) G(3) g(1) by (intro mult_mono) simp_all
    finally show ?thesis by simp
  qed
  have w': "wt' = float_round (wt + p)" "tw' = float_round (tw + w)"
    using assms(1,10) by (simp_all add: p_def T_def Let_def)
  have s0: "0 \<le> wt + p" "0 < tw + w" using assms(2,6,7) p(3) by simp_all
  note W = fr [OF s0(1), folded w'(1)] and V = fr [OF less_imp_le [OF s0(2)], folded w'(2)]
  have pos: "0 < tw'" using float_round_pos [OF s0(2)] by (simp add: w')
  have gg: "growth = g" by (simp add: g_def u_def)
  have up: "wt + p \<le> hi * (tw + w) * g ^ (k + 2)" using assms(8) [unfolded gg] p_hi by (simp add: algebra_simps)
  have low: "lo * (tw + w) \<le> (wt + p) * g ^ (k + 2)" using assms(9) [unfolded gg] p_lo by (simp add: algebra_simps)
  have suc: "g ^ (Suc k + 2) = g * g ^ (k + 2)" by simp
  have "wt' \<le> (1 + u) * (hi * (tw + w) * g ^ (k + 2))" using W(2) mult_left_mono [OF up, of "1 + u"] u by linarith
  also have "\<dots> = hi * g ^ (k + 2) * g * ((1 - u) * (tw + w))" by (simp add: g(2) [symmetric] ac_simps)
  also have "\<dots> \<le> hi * g ^ (k + 2) * g * tw'" using V(1) hi G(2) g(1) by (intro mult_left_mono) simp_all
  finally have 1: "wt' \<le> hi * tw' * g ^ (Suc k + 2)" unfolding suc by (simp add: ac_simps)
  have "lo * tw' \<le> lo * ((1 + u) * (tw + w))" using V(2) assms(3) by (intro mult_left_mono)
  also have "\<dots> = (1 + u) * (lo * (tw + w))" by (simp add: ac_simps)
  also have "\<dots> \<le> (1 + u) * ((wt + p) * g ^ (k + 2))" using low u by (intro mult_left_mono) simp_all
  also have "\<dots> = (1 - u) * (wt + p) * (g * g ^ (k + 2))" by (simp add: g(2) [symmetric] ac_simps)
  also have "\<dots> \<le> wt' * (g * g ^ (k + 2))" using W(1) G(2) g(1) by (intro mult_right_mono) simp_all
  finally have 2: "lo * tw' \<le> wt' * g ^ (Suc k + 2)" unfolding suc .
  from 1 2 pos W(3) show ?thesis unfolding gg by blast
qed

lemma fold_weigh_bounds:
  assumes "\<forall>s \<in> set srcs. disp_ok s \<and> lo \<le> of_int (src_Timestamp s) \<and> of_int (src_Timestamp s) \<le> hi" and "0 \<le> lo"
    and "0 \<le> wt" "0 \<le> tw" "wt \<le> hi * tw * growth ^ (k + 2)" "lo * tw \<le> wt * growth ^ (k + 2)"
    and "fold weigh srcs (wt, tw) = (wt', tw')"
  shows "0 \<le> wt' \<and> 0 \<le> tw' \<and> (srcs \<noteq> [] \<longrightarrow> 0 < tw') \<and> wt' \<le> hi * tw' * growth ^ (k + length srcs + 2)
    \<and> lo * tw' \<le> wt' * growth ^ (k + length srcs + 2)"
  using assms
proof (induction srcs arbitrary: wt tw k)
  case (Cons s srcs)
  obtain w where w: "source_weight s = Some w" "0 < w" using weight_pos [of s] Cons.prems(1) by auto
  obtain wt1 tw1 where 1: "weigh s (wt, tw) = (wt1, tw1)" by (cases "weigh s (wt, tw)")
  have b: "0 \<le> wt1 \<and> 0 < tw1 \<and> wt1 \<le> hi * tw1 * growth ^ (Suc k + 2) \<and> lo * tw1 \<le> wt1 * growth ^ (Suc k + 2)"
    using Cons.prems(1-6) by (intro weigh_bounds [OF w _ _ _ _ _ _ _ 1]) auto
  have f: "fold weigh srcs (wt1, tw1) = (wt', tw')" using Cons.prems(7) 1 by (simp del: weigh.simps)
  have "0 \<le> wt' \<and> 0 \<le> tw' \<and> (srcs \<noteq> [] \<longrightarrow> 0 < tw') \<and> wt' \<le> hi * tw' * growth ^ (Suc k + length srcs + 2)
      \<and> lo * tw' \<le> wt' * growth ^ (Suc k + length srcs + 2)"
    using Cons.prems(1,2) b by (intro Cons.IH [OF _ _ _ _ _ _ f]) auto
  moreover have "srcs = [] \<Longrightarrow> 0 < tw'" using f b by auto
  ultimately show ?case by auto
qed simp

lemma growth_power:
  assumes "12 * m \<le> 2 ^ 53"
  shows "growth ^ m \<le> 1 + 4 * of_nat m * unit_roundoff"
proof -
  define u :: rat where "u = unit_roundoff"
  define y where "y = 2 * of_nat m * u"
  have u: "0 < u" "u < 1 / 2" by (simp_all add: u_def)
  have y: "0 \<le> y" "y \<le> 1 / 6"
  proof -
    show "0 \<le> y" using u by (simp add: y_def)
    have "of_nat (12 * m) \<le> (of_nat (2 ^ 53) :: rat)" using assms by (simp only: of_nat_le_iff)
    then show "y \<le> 1 / 6" by (simp add: y_def u_def)
  qed
  have b: "1 - of_nat n * (2 * u) \<le> (1 - 2 * u) ^ n" for n
  proof (induction n)
    case (Suc n)
    have "1 - of_nat (Suc n) * (2 * u) \<le> (1 - 2 * u) * (1 - of_nat n * (2 * u))" using u by (simp add: algebra_simps)
    also have "\<dots> \<le> (1 - 2 * u) * (1 - 2 * u) ^ n" using Suc u by (intro mult_left_mono) simp_all
    finally show ?case by simp
  qed simp
  have "(1 - 2 * u) * ((1 + u) / (1 - u)) \<le> 1" using u by (simp add: field_simps)
  then have "((1 - 2 * u) * ((1 + u) / (1 - u))) ^ m \<le> 1" using u by (intro power_le_one) simp_all
  then have "(1 - 2 * u) ^ m * ((1 + u) / (1 - u)) ^ m \<le> 1" by (simp only: power_mult_distrib)
  moreover have "1 - y \<le> (1 - 2 * u) ^ m" using b [of m] by (simp add: y_def ac_simps)
  moreover have "0 \<le> ((1 + u) / (1 - u)) ^ m" using u by simp
  ultimately have "(1 - y) * ((1 + u) / (1 - u)) ^ m \<le> 1" by (meson mult_right_mono order_trans)
  then have "((1 + u) / (1 - u)) ^ m \<le> 1 / (1 - y)" using y by (simp add: pos_le_divide_eq mult.commute)
  also have "\<dots> \<le> 1 + 2 * y" using y mult_right_mono [of y "1 / 6" y] by (simp add: pos_divide_le_eq algebra_simps)
  finally show ?thesis by (simp add: y_def u_def)
qed

text \<open>The best time lies between the earliest and the latest source it is computed from, up to about two microseconds of
  rounding for each source.\<close>

lemma best_time_between:
  assumes "srcs \<noteq> []" and "\<forall>s \<in> set srcs. disp_ok s \<and> lo \<le> src_Timestamp s \<and> src_Timestamp s \<le> hi"
    and "0 \<le> lo" and "hi < 2 ^ 62" and "length srcs \<le> 2 ^ 40"
  shows "lo - 2048 * (int (length srcs) + 3) \<le> best_time_nanos srcs
    \<and> best_time_nanos srcs \<le> hi + 2048 * (int (length srcs) + 3)"
proof -
  define m where "m = length srcs + 3"
  define e :: rat where "e = 4 * of_nat m * unit_roundoff"
  obtain wt tw where f: "fold weigh srcs (0, 0) = (wt, tw)" by (cases "fold weigh srcs (0, 0)")
  have b: "0 \<le> wt \<and> 0 \<le> tw \<and> (srcs \<noteq> [] \<longrightarrow> 0 < tw) \<and> wt \<le> of_int hi * tw * growth ^ (0 + length srcs + 2)
      \<and> of_int lo * tw \<le> wt * growth ^ (0 + length srcs + 2)"
    using assms(2,3) by (intro fold_weigh_bounds [OF _ _ _ _ _ _ f]) auto
  then have tw: "0 < tw" using assms(1) by simp
  define q where "q = wt / tw"
  define r where "r = float_round q"
  have q0: "0 \<le> q" using b by (simp add: q_def)
  have q: "q \<le> of_int hi * growth ^ (length srcs + 2)" "of_int lo \<le> q * growth ^ (length srcs + 2)"
    using b tw by (simp_all add: q_def field_simps)
  have "\<not> list_ex (\<lambda>s. source_weight s = None) srcs"
    using weight_pos assms(2) by (fastforce simp: list_ex_iff)
  then have mean: "weighted_mean srcs = Some r" using f tw by (simp add: weighted_mean_def r_def q_def)
  have g: "1 \<le> growth" "1 + unit_roundoff \<le> growth" "(1 - unit_roundoff) * growth = 1 + unit_roundoff" by simp_all
  have gm: "x ^ m = x * x ^ (length srcs + 2)" for x :: rat by (simp add: m_def eval_nat_numeral)
  have m12: "12 * m \<le> 2 ^ 53" using assms(5) by (simp add: m_def)
  have gp: "growth ^ m \<le> 1 + e" using growth_power [OF m12] by (simp add: e_def)
  have hi0: "0 \<le> hi" using assms(1-3) by (cases srcs) auto
  have r0: "0 \<le> r" unfolding r_def using q0 by (rule float_round_nonneg)
  have "r \<le> (1 + unit_roundoff) * q" unfolding r_def using q0 by (rule float_round_bounds)
  also have "\<dots> \<le> growth * (of_int hi * growth ^ (length srcs + 2))" using g(2) q(1) q0 by (intro mult_mono) simp_all
  also have "\<dots> = of_int hi * growth ^ m" by (simp only: gm ac_simps)
  also have "\<dots> \<le> of_int hi * (1 + e)" using gp hi0 by (intro mult_left_mono) simp_all
  finally have up: "r \<le> of_int hi * (1 + e)" .
  have "of_int lo \<le> q * growth ^ (length srcs + 2) * 1" using q(2) by simp
  also have "\<dots> \<le> q * growth ^ (length srcs + 2) * ((1 - unit_roundoff) * growth)"
    using q0 g by (intro mult_left_mono mult_nonneg_nonneg) simp_all
  also have "\<dots> = (1 - unit_roundoff) * q * growth ^ m" by (simp only: gm ac_simps)
  also have "\<dots> \<le> r * (1 + e)"
    using float_round_bounds(1) [OF q0] gp r0 g(1) by (intro mult_mono) (simp_all add: r_def)
  finally have low: "of_int lo \<le> r * (1 + e)" .
  have e: "0 \<le> e" by (simp add: e_def)
  have h: "x * e \<le> of_int (2048 * int m)" if "x \<le> 2 ^ 62" "0 \<le> x" for x
  proof -
    have "x * e \<le> 2 ^ 62 * e" using that e by (intro mult_right_mono)
    then show ?thesis by (simp add: e_def)
  qed
  have pow: "of_int n \<le> (2 ^ 62 :: rat)" if "n < 2 ^ 62" for n using that of_int_le_iff [of n "2 ^ 62", where 'a = rat] by simp
  have hi: "r \<le> of_int (hi + 2048 * int m)"
  proof -
    have "of_int hi * e \<le> of_int (2048 * int m)" using pow [OF assms(4)] hi0 by (intro h) simp_all
    then show ?thesis using up by (simp add: algebra_simps)
  qed
  have lo: "of_int (lo - 2048 * int m) \<le> r"
  proof (cases "r \<le> of_int lo")
    case True
    have "lo < 2 ^ 62" using assms(1,2,4) by (cases srcs) auto
    then have "of_int lo \<le> (2 ^ 62 :: rat)" by (rule pow)
    then have "r * e \<le> of_int (2048 * int m)" using True r0 by (intro h) linarith+
    then show ?thesis using low by (simp add: algebra_simps)
  next
    case False
    then have "of_int lo \<le> r" by simp
    then show ?thesis by (simp add: add_increasing2)
  qed
  have "lo - 2048 * int m \<le> float_trunc r \<and> float_trunc r \<le> hi + 2048 * int m"
    using float_trunc_between [OF lo hi] .
  moreover have "int m \<le> 2 ^ 40 + 3" using assms(5) by (simp add: m_def)
  ultimately show ?thesis
    using mean assms(3,4) by (simp add: best_time_nanos_def float_to_int64_def Let_def m_def)
qed

section \<open>The interface of sorting\<close>

locale slice_sorter =
  fixes srt :: "TimeSource list \<Rightarrow> TimeSource list"
  assumes perm: "mset (srt xs) = mset xs"
    and ascending: "sorted (map src_Timestamp (srt xs))"
begin

lemma set_srt [simp]: "set (srt xs) = set xs"
  using perm by (metis set_mset_mset)

lemma length_srt [simp]: "length (srt xs) = length xs"
  using perm by (metis size_mset)

lemma srt_eq_Nil [simp]: "srt xs = [] \<longleftrightarrow> xs = []"
  using length_srt by (metis length_0_conv)

lemma hd_le_last: "xs \<noteq> [] \<Longrightarrow> x \<in> set xs \<Longrightarrow>
    src_Timestamp (hd (srt xs)) \<le> src_Timestamp x \<and> src_Timestamp x \<le> src_Timestamp (last (srt xs))"
proof -
  assume "xs \<noteq> []" and x: "x \<in> set xs"
  then have ne: "srt xs \<noteq> []" by simp
  have "x \<in> set (srt xs)" using x by simp
  then obtain i where "i < length (srt xs)" "x = srt xs ! i" unfolding in_set_conv_nth by blast
  with ascending [of xs] ne show ?thesis
    by (auto simp: hd_conv_nth last_conv_nth sorted_iff_nth_mono)
qed

text \<open>A list that is strictly ascending already is left alone.\<close>

lemma srt_strict:
  assumes "sorted (map src_Timestamp xs)" and "distinct (map src_Timestamp xs)"
  shows "srt xs = xs"
proof (rule map_inj_on [of src_Timestamp])
  have "distinct (map src_Timestamp (srt xs))"
    using assms(2) perm [of xs] by (metis mset_eq_imp_distinct_iff mset_map)
  with assms show "map src_Timestamp (srt xs) = map src_Timestamp xs"
    by (intro sorted_distinct_set_unique ascending) simp_all
  show "inj_on src_Timestamp (set (srt xs) \<union> set xs)" using assms(2) by (simp add: distinct_map)
qed

end

interpretation insertion: slice_sorter "sort_key src_Timestamp"
  by unfold_locales simp_all

section \<open>Lemmas on the selection\<close>

lemma findAgreeingSubset_props:
  assumes "sorted (map src_Timestamp srcs)" and "\<forall>x \<in> set srcs. ts_range x"
  shows "agree tol (mset (findAgreeingSubset srcs tol))" and "mset (findAgreeingSubset srcs tol) \<subseteq># mset srcs"
    and "M \<subseteq># mset srcs \<Longrightarrow> agree tol M \<Longrightarrow> size M \<le> length (findAgreeingSubset srcs tol)"
  using agreeing_loop_sound [OF assms, of tol "[]" "mset srcs"] agreeing_loop_optimal [OF assms, of M tol "[]"]
  by (auto simp: findAgreeingSubset_def agree_def)

lemma half_spread: "0 \<le> d \<Longrightarrow> d sdiv 2 \<le> d \<and> 0 \<le> d sdiv (2::int)"
  by (cases "d = 0") (auto simp: signed_divide_int_def)

lemma agree_mono: "agree a M \<Longrightarrow> a \<le> b \<Longrightarrow> agree b M"
  by (force simp: agree_def)

text \<open>The sources that the mean is taken over, and when the selection succeeds.\<close>

definition chosen_sources :: "(TimeSource list \<Rightarrow> TimeSource list) \<Rightarrow> TimeSource list \<Rightarrow> duration \<Rightarrow> TimeSource list" where
  "chosen_sources srt sources maxSpread =
     (let ordered = srt (filter valid_source sources)
      in if wrap64 (src_Timestamp (last ordered) - src_Timestamp (hd ordered)) > maxSpread
         then findAgreeingSubset ordered (maxSpread sdiv 2) else ordered)"

lemma SelectBestTime_Inr:
  assumes "SelectBestTime srt now sources mn maxSpread = Inr u"
  shows "tu_SourceCount u = int (length (chosen_sources srt sources maxSpread))"
    and "tu_BestTime u = best_time_nanos (chosen_sources srt sources maxSpread)"
    and "tu_Offset u = duration_Seconds (time_Sub (tu_BestTime u) now)"
    and "srt (filter valid_source sources) \<noteq> []" and "mn \<le> int (length (filter valid_source sources))"
    and "wrap64 (src_Timestamp (last (srt (filter valid_source sources)))
           - src_Timestamp (hd (srt (filter valid_source sources)))) \<le> maxSpread
         \<or> mn \<le> int (length (chosen_sources srt sources maxSpread))"
  using assms by (auto simp: SelectBestTime_def chosen_sources_def Let_def split: if_splits)

lemma SelectBestTime_Inr_I:
  assumes "mn \<le> int (length (filter valid_source sources))" and "srt (filter valid_source sources) \<noteq> []"
    and "mn \<le> int (length (chosen_sources srt sources maxSpread))"
  shows "SelectBestTime srt now sources mn maxSpread =
    Inr \<lparr>tu_Offset = duration_Seconds (time_Sub (best_time_nanos (chosen_sources srt sources maxSpread)) now),
         tu_SourceCount = int (length (chosen_sources srt sources maxSpread)),
         tu_BestTime = best_time_nanos (chosen_sources srt sources maxSpread)\<rparr>"
proof -
  have "\<not> int (length sources) < mn" using assms(1) length_filter_le [of valid_source sources] by linarith
  with assms show ?thesis by (auto simp: SelectBestTime_def chosen_sources_def Let_def)
qed

context slice_sorter
begin

lemma spread_exact:
  assumes "xs \<noteq> []" and "\<forall>s \<in> set xs. ts_range s"
  shows "wrap64 (src_Timestamp (last (srt xs)) - src_Timestamp (hd (srt xs))) =
    src_Timestamp (last (srt xs)) - src_Timestamp (hd (srt xs))"
  using assms hd_in_set [of "srt xs"] last_in_set [of "srt xs"] by (intro wrap64_diff) auto

lemma chosen_props:
  assumes "filter valid_source sources \<noteq> []" and "\<forall>s \<in> set sources. ts_range s" and "0 \<le> maxSpread"
  shows "agree maxSpread (mset (chosen_sources srt sources maxSpread))"
    and "mset (chosen_sources srt sources maxSpread) \<subseteq># mset (filter valid_source sources)"
    and "M \<subseteq># mset (filter valid_source sources) \<Longrightarrow> agree (maxSpread sdiv 2) M \<Longrightarrow>
      size M \<le> length (chosen_sources srt sources maxSpread)"
proof -
  let ?v = "filter valid_source sources"
  have r: "\<forall>s \<in> set (srt ?v). ts_range s" using assms(2) by simp
  note f = findAgreeingSubset_props [OF ascending r]
  note sp = spread_exact [OF assms(1)]
  have "agree maxSpread (mset (srt ?v))"
    if "src_Timestamp (last (srt ?v)) - src_Timestamp (hd (srt ?v)) \<le> maxSpread"
    using that hd_le_last [OF assms(1)] unfolding agree_def perm set_mset_mset by (smt (verit, best))
  then show "agree maxSpread (mset (chosen_sources srt sources maxSpread))"
    using f(1) [of "maxSpread sdiv 2"] half_spread [OF assms(3)] sp assms(2)
    by (auto simp: chosen_sources_def Let_def intro: agree_mono)
  show "mset (chosen_sources srt sources maxSpread) \<subseteq># mset ?v"
    using f(2) by (simp add: chosen_sources_def Let_def perm)
  show "size M \<le> length (chosen_sources srt sources maxSpread)"
    if "M \<subseteq># mset ?v" and "agree (maxSpread sdiv 2) M"
    using f(3) [of M] that size_mset_mono [OF that(1), unfolded size_mset]
    by (auto simp: chosen_sources_def Let_def perm)
qed

lemma select_sound:
  assumes "SelectBestTime srt now sources mn maxSpread = Inr u" and "\<forall>s \<in> set sources. ts_range s \<and> disp_ok s"
    and "0 \<le> maxSpread" and "1 \<le> mn" and "length sources \<le> 2 ^ 40"
  shows "\<exists>chosen first final. chosen \<subseteq># mset (filter valid_source sources) \<and> mn \<le> int (size chosen)
    \<and> tu_SourceCount u = int (size chosen) \<and> agree maxSpread chosen \<and> first \<in># chosen \<and> final \<in># chosen
    \<and> src_Timestamp first - 2048 * (int (size chosen) + 3) \<le> tu_BestTime u
    \<and> tu_BestTime u \<le> src_Timestamp final + 2048 * (int (size chosen) + 3)"
proof -
  note u = SelectBestTime_Inr [OF assms(1)]
  let ?c = "chosen_sources srt sources maxSpread"
  have ne: "filter valid_source sources \<noteq> []" using u(4) by simp
  have r: "\<forall>s \<in> set sources. ts_range s" using assms(2) by blast
  note c = chosen_props [OF ne r assms(3)]
  have mn: "mn \<le> int (length ?c)"
    using u(5,6) by (auto simp: chosen_sources_def Let_def split: if_splits)
  then have cne: "?c \<noteq> []" using assms(4) by auto
  have sub: "set ?c \<subseteq> set sources" using set_mset_mono [OF c(2)] by auto
  have len: "length ?c \<le> 2 ^ 40"
    using size_mset_mono [OF c(2), unfolded size_mset] length_filter_le [of valid_source sources] assms(5) by linarith
  let ?lo = "Min (src_Timestamp ` set ?c)" and ?hi = "Max (src_Timestamp ` set ?c)"
  have fin: "finite (src_Timestamp ` set ?c)" "src_Timestamp ` set ?c \<noteq> {}" using cne by auto
  have "?lo \<in> src_Timestamp ` set ?c" "?hi \<in> src_Timestamp ` set ?c" using fin by (rule Min_in Max_in)+
  then obtain a b where ab: "a \<in> set ?c" "b \<in> set ?c" "?lo = src_Timestamp a" "?hi = src_Timestamp b" by auto
  have "?lo - 2048 * (int (length ?c) + 3) \<le> best_time_nanos ?c \<and> best_time_nanos ?c \<le> ?hi + 2048 * (int (length ?c) + 3)"
  proof (rule best_time_between [OF cne])
    show "\<forall>s \<in> set ?c. disp_ok s \<and> ?lo \<le> src_Timestamp s \<and> src_Timestamp s \<le> ?hi"
      using sub assms(2) fin by auto
    show "0 \<le> ?lo" "?hi < 2 ^ 62" using ab sub r by fastforce+
  qed (rule len)
  with c(1,2) mn u(1,2) ab show ?thesis
    by (intro exI [of _ "mset ?c"] exI [of _ a] exI [of _ b]) simp
qed

lemma select_complete:
  assumes "M \<subseteq># mset (filter valid_source sources)" and "agree (maxSpread sdiv 2) M" and "mn \<le> int (size M)"
    and "1 \<le> mn" and "\<forall>s \<in> set sources. ts_range s" and "0 \<le> maxSpread"
  shows "\<exists>u. SelectBestTime srt now sources mn maxSpread = Inr u \<and> int (size M) \<le> tu_SourceCount u"
proof -
  have sz: "size M \<le> length (filter valid_source sources)" using size_mset_mono [OF assms(1)] by (simp only: size_mset)
  then have ne: "filter valid_source sources \<noteq> []" using assms(3,4) by auto
  note c = chosen_props(3) [OF ne assms(5,6,1,2)]
  show ?thesis
    using SelectBestTime_Inr_I [of mn sources srt maxSpread now] sz c assms(3) ne by auto
qed

end

section \<open>Lemmas on the adjustment\<close>

lemma apply_forward:
  assumes "adj = CalculateAdjustment now off cfg" and "\<not> cc_AllowStepBackward cfg"
    and "Microsecond \<le> cc_StepThreshold cfg" and "ApplyAdjustment sys adj = (acts, err)"
  shows "acts = [] \<or> (\<exists>sec usec. acts = [Settimeofday sec usec] \<and> now \<le> sec * Second + usec * 1000)
    \<or> (\<exists>d. acts = [Adjtimex 8193 d] \<and> 0 \<le> d)"
proof -
  have "now \<le> (now + ofs) div Second * Second + (now + ofs) mod Second div 1000 * 1000" if "1000 \<le> ofs" for ofs
  proof -
    have "(now + ofs) div Second * Second + (now + ofs) mod Second = now + ofs" by (rule div_mult_mod_eq)
    moreover have "(now + ofs) mod Second < (now + ofs) mod Second div 1000 * 1000 + 1000"
      using div_mult_mod_eq [of "(now + ofs) mod Second" 1000] pos_mod_bound [of 1000 "(now + ofs) mod Second"] by linarith
    ultimately show ?thesis using that by linarith
  qed
  with assms show ?thesis
    by (auto simp: CalculateAdjustment_def ApplyAdjustment_def stepClock_def slewClock_def Let_def unix_secs_def
        split: if_splits)
qed

section \<open>Data for the witnesses\<close>

definition demo_source :: "int \<Rightarrow> TimeSource" where
  "demo_source t = \<lparr>src_SourceID = itoa t, src_Timestamp = t, src_ReceivedAt = t, src_ClockInfo = demo_clock,
     src_LeapIndicator = 0\<rparr>"

definition demo_tscfg :: TimeSyncConfig where
  "demo_tscfg = \<lparr>tsc_Enabled = True, tsc_MinSources = 2, tsc_MaxSourceSpread = 100 * Millisecond,
     tsc_MaxStaleAge = 30 * Second, tsc_MaxDispersion = 1, tsc_StepThreshold = 128 * Millisecond,
     tsc_SlewThreshold = 500 * Microsecond, tsc_PollInterval = 60 * Second, tsc_RequireSigned = True,
     tsc_AllowStepBackward = True\<rparr>"

lemma demo_source_simps [simp]:
  "src_Timestamp (demo_source t) = t" "valid_source (demo_source t)" "disp_ok (demo_source t)"
  "src_ReceivedAt (demo_source t) = t"
  by (simp_all add: demo_source_def valid_source_def demo_clock_def)

section \<open>Properties\<close>

text \<open>C5: The search for agreeing sources is optimal: on sorted sources it returns sources that
  are pairwise within the tolerance, and no larger collection of the sources is.\<close>

theorem agreeing_subset_optimal:
  assumes "sorted (map src_Timestamp srcs)" and "\<forall>s \<in> set srcs. 0 \<le> src_Timestamp s \<and> src_Timestamp s < 2 ^ 62"
    and "r = findAgreeingSubset srcs tol"
  shows "mset r \<subseteq># mset srcs \<and> agree tol (mset r) \<and>
    (\<forall>M. M \<subseteq># mset srcs \<and> agree tol M \<longrightarrow> size M \<le> length r)"
  using findAgreeingSubset_props [OF assms(1,2)] assms(3) by blast

theorem agreeing_subset_optimal_witness:
  "findAgreeingSubset [demo_source 1, demo_source 5, demo_source 6] 2 = [demo_source 5, demo_source 6]
     \<and> \<not> agree 2 {#demo_source 1, demo_source 5, demo_source 6#}"
proof -
  have f: "findAgreeingSubset [demo_source 1, demo_source 5, demo_source 6] 2 = [demo_source 5, demo_source 6]"
    by (simp add: findAgreeingSubset_def wrap64_def)
  have "\<forall>M. M \<subseteq># mset [demo_source 1, demo_source 5, demo_source 6] \<and> agree 2 M \<longrightarrow> size M \<le> Suc (Suc 0)"
    using agreeing_subset_optimal [of "[demo_source 1, demo_source 5, demo_source 6]" _ 2] f by simp
  from spec [OF this, of "{#demo_source 1, demo_source 5, demo_source 6#}"] f show ?thesis by auto
qed

text \<open>C17: A selected time is trustworthy when stamps are plausible and dispersions are not negative: it is backed by
  at least \<^verbatim>\<open>min_sources\<close> valid sources that agree among each other within the permitted spread, and lies between the
  stamps of two of them, up to the rounding of the floating-point mean (2048 nanoseconds for each of the sources and
  three more), for every way the standard sort may order equal stamps.\<close>

theorem selected_time_backed_by_sources:
  assumes "slice_sorter srt" and "SelectBestTime srt now sources mn maxSpread = Inr u"
    and "\<forall>s \<in> set sources. 0 \<le> src_Timestamp s \<and> src_Timestamp s < 2 ^ 62 \<and>
      0 \<le> ci_RootDispersion (src_ClockInfo s)"
    and "0 \<le> maxSpread" and "1 \<le> mn" and "length sources \<le> 2 ^ 40"
  shows "\<exists>chosen first final. chosen \<subseteq># mset (filter valid_source sources) \<and> mn \<le> int (size chosen)
    \<and> tu_SourceCount u = int (size chosen) \<and> agree maxSpread chosen \<and> first \<in># chosen \<and> final \<in># chosen
    \<and> src_Timestamp first - 2048 * (int (size chosen) + 3) \<le> tu_BestTime u
    \<and> tu_BestTime u \<le> src_Timestamp final + 2048 * (int (size chosen) + 3)"
  using slice_sorter.select_sound [OF assms(1,2)] assms(3-6) by blast

theorem selected_time_backed_by_sources_witness:
  "\<exists>u. SelectBestTime (sort_key src_Timestamp) 9 [demo_source (8 * Second), demo_source (7 * Second)] 2 (2 * Second) = Inr u
    \<and> 7 * Second - 2048 * 5 \<le> tu_BestTime u \<and> tu_BestTime u \<le> 8 * Second + 2048 * 5"
proof -
  let ?srcs = "[demo_source (8 * Second), demo_source (7 * Second)]"
  obtain u where u: "SelectBestTime (sort_key src_Timestamp) 9 ?srcs 2 (2 * Second) = Inr u"
    by (auto simp: SelectBestTime_def Let_def wrap64_def)
  have "\<exists>chosen first final. chosen \<subseteq># mset (filter valid_source ?srcs) \<and> 2 \<le> int (size chosen)
      \<and> tu_SourceCount u = int (size chosen) \<and> agree (2 * Second) chosen \<and> first \<in># chosen \<and> final \<in># chosen
      \<and> src_Timestamp first - 2048 * (int (size chosen) + 3) \<le> tu_BestTime u
      \<and> tu_BestTime u \<le> src_Timestamp final + 2048 * (int (size chosen) + 3)"
    by (rule selected_time_backed_by_sources [OF insertion.slice_sorter_axioms u]) simp_all
  then obtain chosen first final where c: "chosen \<subseteq># mset (filter valid_source ?srcs)" "2 \<le> int (size chosen)"
    "first \<in># chosen" "final \<in># chosen" "src_Timestamp first - 2048 * (int (size chosen) + 3) \<le> tu_BestTime u"
    "tu_BestTime u \<le> src_Timestamp final + 2048 * (int (size chosen) + 3)" by blast
  have "size chosen \<le> 2" using size_mset_mono [OF c(1)] by simp
  then have "int (size chosen) = 2" using c(2) by simp
  moreover have "first \<in> set ?srcs" "final \<in> set ?srcs" using mset_subset_eqD [OF c(1)] c(3,4) by auto
  ultimately show ?thesis using u c(5,6) by auto
qed

text \<open>C18: The selection tolerates faulty sources: whenever at least \<^verbatim>\<open>min_sources\<close> valid
  sources are within half the permitted spread of each other, a time is selected, whatever the
  other sources announce within the plausible range, and at least as many sources back it.\<close>

theorem agreeing_sources_suffice:
  assumes "slice_sorter srt" and "M \<subseteq># mset (filter valid_source sources)" and "agree (maxSpread sdiv 2) M"
    and "mn \<le> int (size M)" and "1 \<le> mn" and "0 \<le> maxSpread"
    and "\<forall>s \<in> set sources. 0 \<le> src_Timestamp s \<and> src_Timestamp s < 2 ^ 62"
  shows "\<exists>u. SelectBestTime srt now sources mn maxSpread = Inr u \<and> int (size M) \<le> tu_SourceCount u"
  using slice_sorter.select_complete [OF assms(1-5,7,6)] .

theorem agreeing_sources_suffice_witness:
  "\<exists>u. SelectBestTime (sort_key src_Timestamp) 9 [demo_source 900, demo_source 7, demo_source 5] 2 10 = Inr u
     \<and> 2 \<le> tu_SourceCount u"
  using agreeing_sources_suffice [OF insertion.slice_sorter_axioms,
      of "{#demo_source 7, demo_source 5#}" "[demo_source 900, demo_source 7, demo_source 5]" 10 2 9]
  by (simp add: agree_def signed_divide_int_def)

text \<open>A faulty source can still break the agreement of good ones: two valid sources whose
  distance is within the permitted spread, but above half of it, are accepted alone and refused
  as soon as a third, distant source is heard.\<close>

theorem outlier_breaks_agreement:
  assumes "slice_sorter srt" and "valid_source a" "valid_source b" "valid_source c"
    and "0 \<le> src_Timestamp a" "src_Timestamp a + maxSpread sdiv 2 < src_Timestamp b"
    and "src_Timestamp b \<le> src_Timestamp a + maxSpread" "src_Timestamp b + maxSpread < src_Timestamp c"
    and "src_Timestamp c < 2 ^ 62" and "0 \<le> maxSpread"
  shows "(\<exists>u. SelectBestTime srt now [a, b] 2 maxSpread = Inr u)
    \<and> (\<exists>err. SelectBestTime srt now [a, b, c] 2 maxSpread = Inl (SelErr err))"
proof -
  have h: "0 \<le> maxSpread sdiv 2" using half_spread [OF assms(10)] by blast
  have w: "wrap64 (src_Timestamp b - src_Timestamp a) = src_Timestamp b - src_Timestamp a"
    "wrap64 (src_Timestamp c - src_Timestamp a) = src_Timestamp c - src_Timestamp a"
    "wrap64 (src_Timestamp c - src_Timestamp b) = src_Timestamp c - src_Timestamp b" "wrap64 0 = 0"
    using assms(5-10) h by (auto intro!: wrap64_diff simp: wrap64_def)
  have s: "srt [a, b] = [a, b]" "srt [a, b, c] = [a, b, c]"
    using assms(5-10) h by (auto intro!: slice_sorter.srt_strict [OF assms(1)])
  have "maxSpread sdiv 2 \<le> maxSpread" using half_spread [OF assms(10)] by blast
  with w s h assms(2-10) show ?thesis
    by (auto simp: SelectBestTime_def findAgreeingSubset_def Let_def)
qed

theorem outlier_breaks_agreement_witness:
  "(\<exists>u. SelectBestTime (sort_key src_Timestamp) 9 [demo_source 0, demo_source 80] 2 100 = Inr u)
    \<and> (\<exists>err. SelectBestTime (sort_key src_Timestamp) 9 [demo_source 0, demo_source 80, demo_source 999] 2 100
          = Inl (SelErr err))"
  by (rule outlier_breaks_agreement [OF insertion.slice_sorter_axioms]) (simp_all add: signed_divide_int_def)

text \<open>The spread is a wrapping 64-bit difference: two valid sources more than \<open>2 ^ 63\<close>
  nanoseconds apart count as agreeing, whatever spread is permitted.\<close>

theorem spread_overflow_counts_as_agreement:
  assumes "slice_sorter srt" and "valid_source a" "valid_source b"
    and "- (2 ^ 63) \<le> src_Timestamp a" "src_Timestamp b < 2 ^ 63" "2 ^ 63 \<le> src_Timestamp b - src_Timestamp a"
    and "0 \<le> maxSpread"
  shows "\<exists>u. SelectBestTime srt now [a, b] 2 maxSpread = Inr u \<and> tu_SourceCount u = 2"
proof -
  let ?d = "src_Timestamp b - src_Timestamp a"
  have s: "srt [a, b] = [a, b]"
    using assms(6) by (intro slice_sorter.srt_strict [OF assms(1)]) auto
  have "(?d + 2 ^ 63 - 2 ^ 64) mod 2 ^ 64 = ?d + 2 ^ 63 - 2 ^ 64"
    using assms(4-6) by (intro mod_pos_pos_trivial) simp_all
  then have "(?d + 2 ^ 63) mod 2 ^ 64 = ?d + 2 ^ 63 - 2 ^ 64" by (simp only: minus_mod_self2)
  then have "wrap64 ?d < 0" using assms(4,5) by (simp add: wrap64_def)
  with s assms show ?thesis by (auto simp: SelectBestTime_def Let_def)
qed

theorem spread_overflow_counts_as_agreement_witness:
  "\<exists>u. SelectBestTime (sort_key src_Timestamp) 9 [demo_source (- (2 ^ 63)), demo_source (17 * 10 ^ 17)] 2 100 = Inr u
     \<and> tu_SourceCount u = 2"
  by (rule spread_overflow_counts_as_agreement [OF insertion.slice_sorter_axioms]) simp_all

lemma adjustment_error:
  "\<bar>float_round (duration_Seconds d * of_int Second) - of_int d\<bar> \<le> \<bar>of_int d\<bar> / 8"
proof -
  define u :: rat where "u = unit_roundoff"
  define S :: rat where "S = of_int Second"
  define x where "x = duration_Seconds d * S"
  have u: "0 \<le> u" "7 * u \<le> 1 / 8" "u \<le> 1" by (simp_all add: u_def)
  have S: "0 < S" by (simp add: S_def)
  have "\<bar>duration_Seconds d - of_int d / S\<bar> * S \<le> 5 * u * (\<bar>of_int d\<bar> / S) * S"
    using duration_Seconds_error [of d, folded S_def u_def] S by (intro mult_right_mono) simp_all
  moreover have "x - of_int d = (duration_Seconds d - of_int d / S) * S" using S by (simp add: x_def left_diff_distrib)
  then have "\<bar>duration_Seconds d - of_int d / S\<bar> * S = \<bar>x - of_int d\<bar>" using S by (simp add: abs_mult)
  ultimately have x: "\<bar>x - of_int d\<bar> \<le> 5 * (u * \<bar>of_int d\<bar>)" using S by (simp add: ac_simps)
  have "\<bar>float_round x - x\<bar> \<le> u * \<bar>x\<bar>" using float_round_error [of x] by (simp add: u_def)
  moreover have "u * \<bar>x\<bar> \<le> u * (2 * \<bar>of_int d\<bar>)"
  proof (rule mult_left_mono)
    have "5 * (u * \<bar>of_int d\<bar>) \<le> 1 * \<bar>of_int d\<bar>" using u by (subst mult.assoc [symmetric], intro mult_right_mono) simp_all
    with x show "\<bar>x\<bar> \<le> 2 * \<bar>of_int d\<bar>" by linarith
  qed (use u in simp)
  ultimately have "\<bar>float_round x - of_int d\<bar> \<le> 7 * u * \<bar>of_int d\<bar>" using x by linarith
  also have "\<dots> \<le> 1 / 8 * \<bar>of_int d\<bar>" using u by (intro mult_right_mono) simp_all
  finally show ?thesis by (simp add: x_def S_def)
qed

text \<open>Announced stamps are not advanced by the time since they were received: on a host whose
  clock is exactly right and whose sources were exactly right when heard, a poll \<open>d\<close>
  nanoseconds later sets the clock back by at least half of \<open>d\<close>, if that is at least the step
  threshold and stepping backwards is permitted. (Without rounding it would be all of \<open>d\<close>.)\<close>

theorem correct_clock_set_back:
  assumes "slice_sorter srt" and "GetValidSources (t + d) (tsv_store s) = srcs"
    and "\<forall>x \<in> set srcs. valid_source x \<and> 0 \<le> ci_RootDispersion (src_ClockInfo x) \<and> src_Timestamp x = t
      \<and> src_ReceivedAt x = t"
    and "1 \<le> tsc_MinSources (tsv_config s)" "tsc_MinSources (tsv_config s) \<le> int (length srcs)"
    and "0 \<le> tsc_MaxSourceSpread (tsv_config s)" and "tsc_AllowStepBackward (tsv_config s)"
    and "2 * tsc_SlewThreshold (tsv_config s) \<le> d" "2 * tsc_StepThreshold (tsv_config s) \<le> d"
    and "0 \<le> t" "t < 2 ^ 61" "d < 2 ^ 61" "length srcs \<le> 2 ^ 40" "16384 * (int (length srcs) + 3) \<le> d"
  shows "\<exists>s' target. 2 * target \<le> 2 * t + d \<and> evaluateAndAdjust srt (\<lambda>_. None) (t + d) s =
    Some (s', [Settimeofday (unix_secs target) (target mod Second div 1000)])"
proof -
  let ?spread = "tsc_MaxSourceSpread (tsv_config s)"
  have f: "filter valid_source srcs = srcs" using assms(3) by simp
  have ne: "srcs \<noteq> []" using assms(4,5) by auto
  have "agree (?spread sdiv 2) (mset srcs)"
    using assms(3) half_spread [OF assms(6)] by (auto simp: agree_def)
  then obtain u where u: "SelectBestTime srt (t + d) srcs (tsc_MinSources (tsv_config s)) ?spread = Inr u"
    using slice_sorter.select_complete [OF assms(1), of "mset srcs" srcs ?spread
        "tsc_MinSources (tsv_config s)" "t + d"] assms(3-6,10,11) f by (auto simp flip: mset_filter)
  have "\<forall>x \<in> set srcs. ts_range x \<and> disp_ok x" using assms(3,10,11) by auto
  from slice_sorter.select_sound [OF assms(1) u this assms(6,4,13)] obtain chosen first final where
    c: "chosen \<subseteq># mset srcs" "first \<in># chosen" "final \<in># chosen"
      "src_Timestamp first - 2048 * (int (size chosen) + 3) \<le> tu_BestTime u"
      "tu_BestTime u \<le> src_Timestamp final + 2048 * (int (size chosen) + 3)"
    by (auto simp: f simp flip: mset_filter)
  have "int (size chosen) \<le> int (length srcs)" using size_mset_mono [OF c(1)] by simp
  moreover have "src_Timestamp first = t" "src_Timestamp final = t" using mset_subset_eqD [OF c(1)] c(2,3) assms(3) by auto
  ultimately have best: "8 * (t - tu_BestTime u) \<le> d" "8 * (tu_BestTime u - t) \<le> d" using c(4,5) assms(14) by simp_all
  define k where "k = t + d - tu_BestTime u"
  have d: "0 < d" using assms(14) by simp
  have k: "7 * d \<le> 8 * k" "8 * k \<le> 9 * d" using best by (simp_all add: k_def)
  have sub: "time_Sub (tu_BestTime u) (t + d) = - k" using k d assms(12) by (simp add: time_Sub_def k_def clamp64_def)
  define r where "r = float_round (tu_Offset u * of_int Second)"
  have "\<bar>r - of_int (- k)\<bar> \<le> \<bar>of_int (- k)\<bar> / 8"
    using adjustment_error [of "- k"] SelectBestTime_Inr(3) [OF u] by (simp add: r_def sub)
  moreover have "0 \<le> (of_int k :: rat)" using k d by simp
  ultimately have r: "r \<le> - (7 / 8) * of_int k" "- (9 / 8) * of_int k \<le> r" by (simp_all add: abs_if split: if_splits)
  define ofs where "ofs = float_to_int64 r"
  have kd: "7 * (of_int d :: rat) \<le> 8 * of_int k" "8 * (of_int k :: rat) \<le> 9 * of_int d"
    using k of_int_le_iff [of "7 * d" "8 * k", where 'a = rat] of_int_le_iff [of "8 * k" "9 * d", where 'a = rat] by simp_all
  have "of_int (- 2 * d) \<le> r" "r \<le> of_int (- (d div 2))"
  proof -
    show "of_int (- 2 * d) \<le> r" using r(2) kd(2) d by (simp add: algebra_simps)
    have "(of_int (2 * (d div 2)) :: rat) \<le> of_int d" using of_int_le_iff [of "2 * (d div 2)" d, where 'a = rat] by simp
    then show "r \<le> of_int (- (d div 2))" using r(1) kd(1) d by simp
  qed
  from float_trunc_between [OF this] have tr: "- 2 * d \<le> float_trunc r" "float_trunc r \<le> - (d div 2)" by simp_all
  then have ofs: "ofs = float_trunc r" using d assms(12) by (simp add: ofs_def float_to_int64_def Let_def)
  have half: "2 * ofs \<le> - d"
  proof -
    have "0 < (of_int k :: rat)" using k d by simp
    then have "r < 0" using r(1) by simp
    then have "of_int (float_trunc r) < r + 1" by (simp add: float_trunc_def) linarith
    moreover have "16384 * 3 \<le> (of_int d :: rat)" using assms(14) of_int_le_iff [of "16384 * 3" d, where 'a = rat] by simp
    ultimately have "2 * (of_int (float_trunc r) :: rat) < - of_int d" using r(1) kd(1) by linarith
    then have "of_int (2 * float_trunc r) < (of_int (- d) :: rat)" by simp
    then show ?thesis unfolding ofs of_int_less_iff by simp
  qed
  have w: "wrap64 (- ofs) = - ofs" using tr d assms(12) ofs by (intro wrap64_id) simp
  let ?target = "t + d + ofs"
  have adj: "CalculateAdjustment (t + d) (tu_Offset u) \<lparr>cc_StepThreshold = tsc_StepThreshold (tsv_config s),
      cc_SlewThreshold = tsc_SlewThreshold (tsv_config s), cc_AllowStepBackward = tsc_AllowStepBackward (tsv_config s)\<rparr>
    = \<lparr>adj_Method = AdjustmentStep, adj_Offset = ofs, adj_Absolute = ?target\<rparr>"
    unfolding CalculateAdjustment_def r_def [symmetric] ofs_def [symmetric] Let_def using half d w assms(7-9) by auto
  have "evaluateAndAdjust srt (\<lambda>_. None) (t + d) s =
      Some (s\<lparr>tsv_status := synced_status (t + d) u\<rparr>, [Settimeofday (unix_secs ?target) (?target mod Second div 1000)])"
    using u assms(2) adj by (simp add: evaluateAndAdjust_def ApplyAdjustment_def stepClock_def Let_def)
  moreover have "2 * ?target \<le> 2 * t + d" using half by simp
  ultimately show ?thesis by blast
qed

definition demo_service :: TimeSyncService where
  "demo_service = \<lparr>tsv_config = demo_tscfg, tsv_keyManager = None,
     tsv_store = \<lparr>tss_sources = [(''a'', demo_source (7 * Second)), (''b'', demo_source (7 * Second))],
       tss_maxStale = 30 * Second\<rparr>, tsv_status = zero_SyncStatus\<rparr>"

theorem correct_clock_set_back_witness:
  "\<exists>s' target. target \<le> 8 * Second + 500 * Millisecond \<and> evaluateAndAdjust (sort_key src_Timestamp) (\<lambda>_. None) (7 * Second + 3 * Second) demo_service =
    Some (s', [Settimeofday (unix_secs target) (target mod Second div 1000)])"
  using correct_clock_set_back [OF insertion.slice_sorter_axioms, of "7 * Second" "3 * Second" demo_service
      "[demo_source (7 * Second), demo_source (7 * Second)]"]
  by (simp add: demo_service_def demo_tscfg_def GetValidSources_def source_fresh_def time_Sub_def clamp64_def)

text \<open>C19: A clock that must not go backwards does not: without permission to step backwards, and
  with a step threshold of at least a microsecond, every poll and every forced update either
  leaves the clock alone, sets it to the present or later, or slews it forwards.\<close>

theorem clock_never_set_back:
  assumes "evaluateAndAdjust srt sys now s = Some (s', acts) \<and> \<not> tsc_AllowStepBackward (tsv_config s)
        \<and> Microsecond \<le> tsc_StepThreshold (tsv_config s)
      \<or> ForceUpdate srt sys now False s = Some (s', acts, res)"
  shows "acts = [] \<or> (\<exists>sec usec. acts = [Settimeofday sec usec] \<and> now \<le> sec * Second + usec * 1000)
    \<or> (\<exists>d. acts = [Adjtimex 8193 d] \<and> 0 \<le> d)"
  using assms
proof (elim disjE conjE)
  assume e: "evaluateAndAdjust srt sys now s = Some (s', acts)" "\<not> tsc_AllowStepBackward (tsv_config s)"
    "Microsecond \<le> tsc_StepThreshold (tsv_config s)"
  then have "acts = [] \<or> (\<exists>off err. ApplyAdjustment sys (CalculateAdjustment now off
      \<lparr>cc_StepThreshold = tsc_StepThreshold (tsv_config s), cc_SlewThreshold = tsc_SlewThreshold (tsv_config s),
       cc_AllowStepBackward = False\<rparr>) = (acts, err))"
    by (auto simp: evaluateAndAdjust_def Let_def split: sum.splits sel_error.splits if_splits prod.splits option.splits)
  with e(3) show ?thesis by (elim disjE exE) (blast, rule apply_forward [OF refl], simp_all)
next
  assume "ForceUpdate srt sys now False s = Some (s', acts, res)"
  then have "acts = [] \<or> (\<exists>off err. ApplyAdjustment sys (CalculateAdjustment now off
      \<lparr>cc_StepThreshold = Millisecond, cc_SlewThreshold = Microsecond, cc_AllowStepBackward = False\<rparr>) = (acts, err))"
    by (auto simp: ForceUpdate_def Let_def split: sum.splits sel_error.splits if_splits prod.splits option.splits)
  then show ?thesis by (elim disjE exE) (blast, rule apply_forward [OF refl], simp_all)
qed

theorem clock_never_set_back_witness:
  "\<exists>acts s' res. ForceUpdate (sort_key src_Timestamp) (\<lambda>_. None) (5 * Second) False demo_service = Some (s', acts, res)
    \<and> (acts = [] \<or> (\<exists>sec usec. acts = [Settimeofday sec usec] \<and> 5 * Second \<le> sec * Second + usec * 1000)
      \<or> (\<exists>d. acts = [Adjtimex 8193 d] \<and> 0 \<le> d))"
proof -
  have "ForceUpdate (sort_key src_Timestamp) (\<lambda>_. None) (5 * Second) False demo_service \<noteq> None"
    by (simp add: ForceUpdate_def demo_service_def demo_tscfg_def GetValidSources_def source_fresh_def time_Sub_def
        clamp64_def SelectBestTime_def wrap64_def Let_def split: prod.splits option.splits)
  then obtain s' acts res where
    f: "ForceUpdate (sort_key src_Timestamp) (\<lambda>_. None) (5 * Second) False demo_service = Some (s', acts, res)"
    by auto
  from clock_never_set_back [OF disjI2 [OF f]] f show ?thesis by blast
qed

text \<open>The selection indexes its first and last source without a check of its own; at least one required source is enough.\<close>

lemma select_no_panic:
  assumes "slice_sorter srt" and "1 \<le> minSources"
  shows "SelectBestTime srt now srcs minSources spread \<noteq> Inl SelPanic"
  using assms(2) slice_sorter.srt_eq_Nil [OF assms(1)] by (auto simp: SelectBestTime_def Let_def)

lemma poll_total:
  assumes "slice_sorter srt" and "1 \<le> tsc_MinSources (tsv_config s)"
  shows "evaluateAndAdjust srt sys now s \<noteq> None"
  using select_no_panic [OF assms]
  by (auto simp: evaluateAndAdjust_def Let_def split: sum.splits sel_error.splits prod.splits option.splits)

lemma force_update_total:
  assumes "slice_sorter srt" and "1 \<le> tsc_MinSources (tsv_config s)"
  shows "ForceUpdate srt sys now allow s \<noteq> None"
  using select_no_panic [OF assms]
  by (auto simp: ForceUpdate_def Let_def split: sum.splits sel_error.splits prod.splits option.splits)

text \<open>The configuration of the service is fixed when it is created.\<close>

lemma tsv_config_frame:
  "tsv_config (ProcessMessage now msg s) = tsv_config s"
  "evaluateAndAdjust srt sys now s = Some (s', acts) \<Longrightarrow> tsv_config s' = tsv_config s"
  "ForceUpdate srt sys now allow s = Some (s', acts, res) \<Longrightarrow> tsv_config s' = tsv_config s"
  by (auto simp: ProcessMessage_def evaluateAndAdjust_def ForceUpdate_def Let_def
      split: if_splits sum.splits sel_error.splits prod.splits option.splits)

text \<open>Requiring signed time messages has no effect without a key manager: the unsigned stamp
  of any host on the network becomes a source.\<close>

theorem unsigned_time_accepted_without_keys:
  assumes "tsc_Enabled (tsv_config s)" and "tsv_keyManager s = None" and "tam_Signature msg = None"
  shows "tsc_RequireSigned (tsv_config s) \<longrightarrow>
    map_of (tss_sources (tsv_store (ProcessMessage now msg s))) (tam_SourceID msg) \<noteq> None"
  using assms by (simp add: ProcessMessage_def Source_Add_def)

theorem unsigned_time_accepted_without_keys_witness:
  "map_of (tss_sources (tsv_store (ProcessMessage 5 (the (dec_time demo_dec ''1'')) demo_service))) ''gps'' \<noteq> None"
  using unsigned_time_accepted_without_keys [of demo_service "the (dec_time demo_dec ''1'')" 5]
  by (simp add: demo_service_def demo_tscfg_def demo_dec_def)

end
