(* ===== verification/Socket_Server.thy ===== *)
theory Socket_Server
  imports Dns_Server Location_Store Time_Sync "HOL-Library.List_Lexorder" "HOL-Library.Char_ord"
begin

declare map_of_eq_Some_iff [simp del] Some_eq_map_of_iff [simp del]

text \<open>
  The daemon's Unix socket (\<^verbatim>\<open>internal/daemon/socket.go\<close>): one handler per query type,
  the dispatch, and the limit on connections. The stores that the Go struct points to are shared
  with the rest of the daemon; here they are the fields of the record \<open>shared\<close>, which the
  daemon's state extends. A handler returns the new state and the response; \<open>None\<close> is a panic
  of the time selection. The text encodings are arguments: \<^verbatim>\<open>json.Marshal\<close> and the
  RFC 3339 rendering of a time. \<^verbatim>\<open>json.Marshal\<close> writes maps in the order of their keys.
  A \<^verbatim>\<open>nil\<close> slice of a stored record is not distinguished from an empty one.
\<close>

record shared =
  sv_store :: RecordStore
  sv_locationStore :: "LocationStore option"
  sv_timeSync :: "TimeSyncService option"

record sock_env =
  se_marshal :: marshaller
  se_rfc3339 :: "time \<Rightarrow> string"
  se_sort :: "TimeSource list \<Rightarrow> TimeSource list"
  se_kernel :: kernel

text \<open>The callback for service announcements: the daemon's new state and an error, if any.\<close>

type_synonym 'd announcer_fn = "string \<Rightarrow> int \<Rightarrow> string list \<Rightarrow> 'd \<Rightarrow> 'd \<times> string option"

definition ok_response :: "Query \<Rightarrow> Response" where
  "ok_response query = zero_Response\<lparr>rsp_Type := ResponseOK, rsp_RequestID := q_RequestID query\<rparr>"

section \<open>Connections\<close>

definition maxConnections :: nat where "maxConnections = 100"

text \<open>
  The semaphore of \<^verbatim>\<open>acceptLoop\<close>: the number of connections being served. A connection
  beyond the limit is closed at once; one that ends gives its place back.
\<close>

inductive conn_step :: "nat \<Rightarrow> nat \<Rightarrow> bool" where
  conn_accept: "n < maxConnections \<Longrightarrow> conn_step n (Suc n)"
| conn_reject: "\<not> n < maxConnections \<Longrightarrow> conn_step n n"
| conn_done: "0 < n \<Longrightarrow> conn_step n (n - 1)"

section \<open>Name service queries\<close>

definition handleQueryByName :: "time \<Rightarrow> Query \<Rightarrow> 'z shared_scheme \<Rightarrow> Response" where
  "handleQueryByName now query s =
     (case Get (sv_store s) now (q_Name query) of
        None \<Rightarrow> NewNotFoundResponse (q_RequestID query)
      | Some record \<Rightarrow> NewOKResponse (q_RequestID query) (r_Hostname record) (r_Addresses record))"

definition handleQueryByAddr :: "time \<Rightarrow> Query \<Rightarrow> 'z shared_scheme \<Rightarrow> Response" where
  "handleQueryByAddr now query s =
     (case GetByAddr (sv_store s) now (q_Addr query) of
        None \<Rightarrow> NewNotFoundResponse (q_RequestID query)
      | Some record \<Rightarrow> NewOKResponse (q_RequestID query) (r_Hostname record) (r_Addresses record))"

definition json_strings :: "string list \<Rightarrow> json" where
  "json_strings xs = JArr (map JStr xs)"

definition json_map :: "('v \<Rightarrow> json) \<Rightarrow> (string, 'v) gomap \<Rightarrow> json" where
  "json_map f m = JObj (sort_key fst (map (\<lambda>(k, v). (k, f v)) m))"

definition json_recordInfo :: "Record \<Rightarrow> json" where
  "json_recordInfo r =
     JObj ([(''hostname'', JStr (r_Hostname r)), (''addresses'', json_strings (r_Addresses r))]
       @ json_opt (r_Services r \<noteq> []) ''services'' (json_map JStr (r_Services r))
       @ [(''timestamp'', JInt (r_Timestamp r)), (''ttl'', JInt (r_TTL r))])"

definition handleQueryList :: "marshaller \<Rightarrow> time \<Rightarrow> Query \<Rightarrow> 'z shared_scheme \<Rightarrow> Response" where
  "handleQueryList marshal now query s =
     (case marshal (JArr (map json_recordInfo (ListRecords (sv_store s) now))) of
        Inl _ \<Rightarrow> NewErrorResponse (q_RequestID query) ''internal error''
      | Inr data \<Rightarrow> (ok_response query)\<lparr>rsp_Records := data\<rparr>)"

text \<open>The remaining lifetime is computed with 64-bit integers.\<close>

definition expires_in :: "time \<Rightarrow> Record \<Rightarrow> int" where
  "expires_in now r =
     (let e = wrap64 (wrap64 (r_Timestamp r + r_TTL r) - unix_secs now) in if e < 0 then 0 else e)"

definition json_hostInfo :: "time \<Rightarrow> Record \<Rightarrow> json" where
  "json_hostInfo now r =
     JObj [(''hostname'', JStr (r_Hostname r)), (''addresses'', json_strings (r_Addresses r)),
       (''services'', json_strings (map fst (r_Services r))),
       (''first_seen'', JInt (if r_FirstSeen r = 0 then r_Timestamp r else r_FirstSeen r)),
       (''last_seen'', JInt (r_Timestamp r)), (''ttl'', JInt (r_TTL r)),
       (''expires_in'', JInt (expires_in now r))]"

definition handleQueryListHosts :: "marshaller \<Rightarrow> time \<Rightarrow> Query \<Rightarrow> 'z shared_scheme \<Rightarrow> Response" where
  "handleQueryListHosts marshal now query s =
     (let records = ListRecords (sv_store s) now;
          doc = JObj [(''type'', JStr ResponseOK), (''hosts'', JArr (map (json_hostInfo now) records)),
                  (''count'', JInt (int (length records)))]
      in case marshal doc of
           Inl _ \<Rightarrow> NewErrorResponse (q_RequestID query) ''internal error''
         | Inr data \<Rightarrow> (ok_response query)\<lparr>rsp_Records := data, rsp_Count := int (length records)\<rparr>)"

record serviceHost =
  sho_Hostname :: string
  sho_Address :: string
  sho_Port :: int

definition add_service_host :: "string \<Rightarrow> string \<times> string \<Rightarrow> (string, serviceHost list) gomap
    \<Rightarrow> (string, serviceHost list) gomap" where
  "add_service_host hostname e services =
     (case SplitHostPort (snd e) of
        Inl _ \<Rightarrow> services
      | Inr (host, portStr) \<Rightarrow>
          (case Atoi portStr of
             (_, False) \<Rightarrow> services
           | (port, True) \<Rightarrow>
               AList.update (fst e)
                 ((case map_of services (fst e) of None \<Rightarrow> [] | Some l \<Rightarrow> l)
                    @ [\<lparr>sho_Hostname = hostname, sho_Address = host, sho_Port = port\<rparr>]) services))"

definition list_services :: "Record list \<Rightarrow> (string, serviceHost list) gomap" where
  "list_services records = fold (\<lambda>r. fold (add_service_host (r_Hostname r)) (r_Services r)) records []"

definition json_serviceHost :: "serviceHost \<Rightarrow> json" where
  "json_serviceHost h = JObj [(''hostname'', JStr (sho_Hostname h)), (''address'', JStr (sho_Address h)),
     (''port'', JInt (sho_Port h))]"

definition handleQueryListServices :: "marshaller \<Rightarrow> time \<Rightarrow> Query \<Rightarrow> 'z shared_scheme \<Rightarrow> Response" where
  "handleQueryListServices marshal now query s =
     (let services = list_services (ListRecords (sv_store s) now);
          doc = JObj [(''type'', JStr ResponseOK), (''services'', json_map (\<lambda>hs. JArr (map json_serviceHost hs)) services),
                  (''count'', JInt (int (length services)))]
      in case marshal doc of
           Inl _ \<Rightarrow> NewErrorResponse (q_RequestID query) ''internal error''
         | Inr data \<Rightarrow> (ok_response query)\<lparr>rsp_Records := data, rsp_Count := int (length services)\<rparr>)"

section \<open>Host administration\<close>

definition host_health :: "time \<Rightarrow> Record \<Rightarrow> HostHealth" where
  "host_health now r =
     \<lparr>hh_Hostname = r_Hostname r, hh_MachineID = r_MachineID r, hh_Addresses = r_Addresses r, hh_Status = r_Status r,
      hh_Services = r_Services r, hh_LastSeen = r_Timestamp r,
      hh_LastSeenAgo = (if r_IsStatic r then ''(static)''
                        else formatDuration (time_Sub now (time_Unix (r_Timestamp r)))),
      hh_IsStatic = r_IsStatic r\<rparr>"

definition handleHostsList :: "time \<Rightarrow> Query \<Rightarrow> 'z shared_scheme \<Rightarrow> 'z shared_scheme \<times> Response" where
  "handleHostsList now query s =
     (let (store1, records) = ListAll now (sv_store s); hosts = map (host_health now) records
      in (s\<lparr>sv_store := store1\<rparr>, (ok_response query)\<lparr>rsp_Hosts := hosts, rsp_Count := int (length hosts)\<rparr>))"

definition handleHostsShow :: "time \<Rightarrow> Query \<Rightarrow> 'z shared_scheme \<Rightarrow> 'z shared_scheme \<times> Response" where
  "handleHostsShow now query s =
     (let name = q_Name query
      in if name = [] then (s, NewErrorResponse (q_RequestID query) ''hostname or machine ID required'')
         else let (store1, records) = ListAll now (sv_store s); s1 = s\<lparr>sv_store := store1\<rparr>
         in (case find (\<lambda>r. r_Hostname r = name \<or> (r_MachineID r \<noteq> [] \<and> r_MachineID r = name)) records of
               None \<Rightarrow> (s1, NewNotFoundResponse (q_RequestID query))
             | Some r \<Rightarrow> (s1, (ok_response query)\<lparr>rsp_Hosts := [host_health now r], rsp_Count := 1\<rparr>)))"

definition handleHostsForget :: "Query \<Rightarrow> 'z shared_scheme \<Rightarrow> 'z shared_scheme \<times> Response" where
  "handleHostsForget query s =
     (let hostname = q_Name query
      in if hostname = [] then (s, NewErrorResponse (q_RequestID query) ''hostname required'')
         else (s\<lparr>sv_store := Forget hostname (sv_store s)\<rparr>, (ok_response query)\<lparr>rsp_Name := hostname\<rparr>))"

definition handleHostsMarkLost :: "Query \<Rightarrow> 'z shared_scheme \<Rightarrow> 'z shared_scheme \<times> Response" where
  "handleHostsMarkLost query s =
     (let hostname = q_Name query
      in if hostname = [] then (s, NewErrorResponse (q_RequestID query) ''hostname required'')
         else (s\<lparr>sv_store := MarkLost hostname (sv_store s)\<rparr>, (ok_response query)\<lparr>rsp_Name := hostname\<rparr>))"

section \<open>Service administration\<close>

definition add_service_health :: "Record \<Rightarrow> string \<times> string \<Rightarrow> (string, ServiceHealth) gomap
    \<Rightarrow> (string, ServiceHealth) gomap" where
  "add_service_health r e services =
     (let svc = (case map_of services (fst e) of
                   Some svc \<Rightarrow> svc
                 | None \<Rightarrow> \<lparr>sh_Name = fst e, sh_Protocol = snd e, sh_Port = 0, sh_Hosts = [], sh_Aliases = [],
                            sh_Status = r_Status r\<rparr>)
      in AList.update (fst e) (svc\<lparr>sh_Hosts := sh_Hosts svc @ [r_Hostname r]\<rparr>) services)"

definition services_by_name :: "Record list \<Rightarrow> (string, ServiceHealth) gomap" where
  "services_by_name records = fold (\<lambda>r. fold (add_service_health r) (r_Services r)) records []"

definition handleServicesList :: "time \<Rightarrow> Query \<Rightarrow> 'z shared_scheme \<Rightarrow> 'z shared_scheme \<times> Response" where
  "handleServicesList now query s =
     (let (store1, records) = ListAll now (sv_store s); services = map snd (services_by_name records)
      in (s\<lparr>sv_store := store1\<rparr>, (ok_response query)\<lparr>rsp_Services := services, rsp_Count := int (length services)\<rparr>))"

text \<open>The loop of \<^verbatim>\<open>handleServicesShow\<close>: hosts, protocol and status found so far.\<close>

definition show_service :: "string \<Rightarrow> Record \<Rightarrow> string list \<times> string \<times> string \<Rightarrow> string list \<times> string \<times> string" where
  "show_service serviceName r acc =
     (case acc of (hosts, protocol, status) \<Rightarrow>
        (case map_of (r_Services r) serviceName of
           None \<Rightarrow> acc
         | Some proto \<Rightarrow>
             (hosts @ [r_Hostname r], proto, if status = [] \<or> status = StatusHealthy then r_Status r else status)))"

definition handleServicesShow :: "time \<Rightarrow> Query \<Rightarrow> 'z shared_scheme \<Rightarrow> 'z shared_scheme \<times> Response" where
  "handleServicesShow now query s =
     (let serviceName = q_Name query
      in if serviceName = [] then (s, NewErrorResponse (q_RequestID query) ''service name required'')
         else let (store1, records) = ListAll now (sv_store s); s1 = s\<lparr>sv_store := store1\<rparr>;
                  (hosts, protocol, status) = fold (show_service serviceName) records ([], [], [])
         in if length hosts = 0 then (s1, NewNotFoundResponse (q_RequestID query))
            else (s1, (ok_response query)\<lparr>rsp_Services := [\<lparr>sh_Name = serviceName, sh_Protocol = protocol, sh_Port = 0,
                         sh_Hosts = hosts, sh_Aliases = [], sh_Status = status\<rparr>], rsp_Count := 1\<rparr>))"

definition handleServicesForget :: "Query \<Rightarrow> Response" where
  "handleServicesForget query = NewErrorResponse (q_RequestID query) ''not implemented: services are tied to hosts''"

definition handleServiceAnnounce :: "'z shared_scheme announcer_fn option \<Rightarrow> Query \<Rightarrow> 'z shared_scheme
    \<Rightarrow> 'z shared_scheme \<times> Response" where
  "handleServiceAnnounce announceService query s =
     (case announceService of
        None \<Rightarrow> (s, NewErrorResponse (q_RequestID query) ''service announcements not available'')
      | Some announce \<Rightarrow>
          if q_Name query = [] then (s, NewErrorResponse (q_RequestID query) ''service name required'')
          else if q_Port query \<le> 0 \<or> q_Port query > 65535 then (s, NewErrorResponse (q_RequestID query) ''valid port required'')
          else (case announce (q_Name query) (q_Port query) (q_Aliases query) s of
                  (s1, Some err) \<Rightarrow> (s1, NewErrorResponse (q_RequestID query) err)
                | (s1, None) \<Rightarrow> (s1, (ok_response query)\<lparr>rsp_Name := q_Name query\<rparr>)))"

section \<open>Locations\<close>

definition handleLocationList :: "time \<Rightarrow> Query \<Rightarrow> 'z shared_scheme \<Rightarrow> Response" where
  "handleLocationList now query s =
     (case sv_locationStore s of
        None \<Rightarrow> (ok_response query)\<lparr>rsp_Locations := [], rsp_Count := 0\<rparr>
      | Some ls \<Rightarrow>
          let locations = Location_List now ls
          in (ok_response query)\<lparr>rsp_Locations := locations, rsp_Count := int (length locations)\<rparr>)"

definition handleLocationShow :: "time \<Rightarrow> Query \<Rightarrow> 'z shared_scheme \<Rightarrow> Response" where
  "handleLocationShow now query s =
     (if q_Name query = [] then NewErrorResponse (q_RequestID query) ''source ID required''
      else (case sv_locationStore s of
              None \<Rightarrow> NewNotFoundResponse (q_RequestID query)
            | Some ls \<Rightarrow>
                (case Location_Get now (q_Name query) ls of
                   None \<Rightarrow> NewNotFoundResponse (q_RequestID query)
                 | Some record \<Rightarrow> (ok_response query)\<lparr>rsp_Locations := [record], rsp_Count := 1\<rparr>)))"

section \<open>Time\<close>

definition time_disabled :: "Query \<Rightarrow> Response" where
  "time_disabled query = zero_Response\<lparr>rsp_Type := ResponseError, rsp_RequestID := q_RequestID query,
     rsp_Error := ''time sync not enabled''\<rparr>"

definition handleTimeStatus :: "sock_env \<Rightarrow> Query \<Rightarrow> 'z shared_scheme \<Rightarrow> Response" where
  "handleTimeStatus env query s =
     (case sv_timeSync s of
        None \<Rightarrow> time_disabled query
      | Some ts \<Rightarrow>
          let status = GetStatus ts;
              doc = JObj ([(''type'', JStr ResponseOK), (''request_id'', JStr (q_RequestID query)),
                 (''synced'', JBool (ss_Synced status)), (''source_count'', JInt (ss_SourceCount status)),
                 (''last_offset'', JNum (ss_LastOffset status)),
                 (''last_sync_time'', JStr (se_rfc3339 env (ss_LastSyncTime status)))]
                 @ json_opt (ss_LastError status \<noteq> []) ''last_error'' (JStr (ss_LastError status)))
          in (case se_marshal env doc of
                Inl _ \<Rightarrow> NewErrorResponse (q_RequestID query) ''internal error''
              | Inr data \<Rightarrow> (ok_response query)\<lparr>rsp_Records := data\<rparr>))"

definition handleTimeForceUpdate :: "sock_env \<Rightarrow> time \<Rightarrow> Query \<Rightarrow> 'z shared_scheme
    \<Rightarrow> ('z shared_scheme \<times> Response) option" where
  "handleTimeForceUpdate env now query s =
     (case sv_timeSync s of
        None \<Rightarrow> Some (s, time_disabled query)
      | Some ts \<Rightarrow>
          let allowBackward = (q_Name query = ''true'' \<or> q_Name query = ''1'')
          in (case ForceUpdate (se_sort env) (se_kernel env) now allowBackward ts of
                None \<Rightarrow> None
              | Some (ts1, acts, result) \<Rightarrow>
                  let s1 = s\<lparr>sv_timeSync := Some ts1\<rparr>;
                      doc = JObj ([(''type'', JStr ResponseOK), (''request_id'', JStr (q_RequestID query)),
                         (''success'', JBool (fur_Success result)), (''offset'', JNum (fur_Offset result)),
                         (''method'', JStr (fur_Method result)), (''source_count'', JInt (fur_SourceCount result))]
                         @ json_opt (fur_Error result \<noteq> []) ''error'' (JStr (fur_Error result)))
                  in (case se_marshal env doc of
                        Inl _ \<Rightarrow> Some (s1, NewErrorResponse (q_RequestID query) ''internal error'')
                      | Inr data \<Rightarrow> Some (s1, (ok_response query)\<lparr>rsp_Records := data\<rparr>))))"

section \<open>Dispatch\<close>

definition handleQuery :: "sock_env \<Rightarrow> 'z shared_scheme announcer_fn option \<Rightarrow> time \<Rightarrow> Query \<Rightarrow> 'z shared_scheme
    \<Rightarrow> ('z shared_scheme \<times> Response) option" where
  "handleQuery env announce now query s =
     (let t = q_Type query
      in if t = QueryByName then Some (s, handleQueryByName now query s)
         else if t = QueryByAddr then Some (s, handleQueryByAddr now query s)
         else if t = QueryList then Some (s, handleQueryList (se_marshal env) now query s)
         else if t = QueryListHosts then Some (s, handleQueryListHosts (se_marshal env) now query s)
         else if t = QueryListServices then Some (s, handleQueryListServices (se_marshal env) now query s)
         else if t = ''TIME_STATUS'' then Some (s, handleTimeStatus env query s)
         else if t = ''TIME_FORCE_UPDATE'' then handleTimeForceUpdate env now query s
         else if t = HostsList then Some (handleHostsList now query s)
         else if t = HostsShow then Some (handleHostsShow now query s)
         else if t = HostsForget then Some (handleHostsForget query s)
         else if t = HostsMarkLost then Some (handleHostsMarkLost query s)
         else if t = ServicesList then Some (handleServicesList now query s)
         else if t = ServicesShow then Some (handleServicesShow now query s)
         else if t = ServicesForget then Some (s, handleServicesForget query)
         else if t = ServiceAnnounce then Some (handleServiceAnnounce announce query s)
         else if t = LocationList then Some (s, handleLocationList now query s)
         else if t = LocationShow then Some (s, handleLocationShow now query s)
         else Some (s, NewErrorResponse (q_RequestID query) ''unknown query type''))"

text \<open>One connection: a request that does not decode closes it without an answer.\<close>

definition handleConnection :: "('q \<Rightarrow> Query option) \<Rightarrow> sock_env \<Rightarrow> 'z shared_scheme announcer_fn option \<Rightarrow> time
    \<Rightarrow> 'q \<Rightarrow> 'z shared_scheme \<Rightarrow> ('z shared_scheme \<times> Response option) option" where
  "handleConnection decode env announce now request s =
     (case decode request of
        None \<Rightarrow> Some (s, None)
      | Some query \<Rightarrow>
          (case handleQuery env announce now query s of
             None \<Rightarrow> None
           | Some (s1, response) \<Rightarrow> Some (s1, Some response)))"

section \<open>Lemmas\<close>

interpretation conn_ts: transition_system "\<lambda>n. n = 0" conn_step "\<lambda>n. n \<le> maxConnections"
  by unfold_locales (auto elim: conn_step.cases)

text \<open>A response that belongs to a query: its identifier, and one of the three types.\<close>

definition answers :: "Query \<Rightarrow> Response \<Rightarrow> bool" where
  "answers query rsp \<longleftrightarrow> rsp_RequestID rsp = q_RequestID query
     \<and> rsp_Type rsp \<in> {ResponseOK, ResponseNotFound, ResponseError}"

named_theorems answers_intros \<open>every handler answers its query\<close>

lemma answers_base [answers_intros]:
  "answers query (NewNotFoundResponse (q_RequestID query))" "answers query (NewErrorResponse (q_RequestID query) e)"
  "answers query (NewOKResponse (q_RequestID query) n as)" "answers query (time_disabled query)"
  "answers query (ok_response query)"
  by (simp_all add: answers_def response_defs time_disabled_def ok_response_def)

lemma answers_upd [simp]:
  "answers query (rsp\<lparr>rsp_Name := n\<rparr>) = answers query rsp" "answers query (rsp\<lparr>rsp_Records := d\<rparr>) = answers query rsp"
  "answers query (rsp\<lparr>rsp_Count := c\<rparr>) = answers query rsp" "answers query (rsp\<lparr>rsp_Hosts := hs\<rparr>) = answers query rsp"
  "answers query (rsp\<lparr>rsp_Services := ss\<rparr>) = answers query rsp"
  "answers query (rsp\<lparr>rsp_Locations := ls\<rparr>) = answers query rsp"
  by (simp_all add: answers_def)

lemma answers_handlers [answers_intros]:
  "answers query (handleQueryByName now query s)" "answers query (handleQueryByAddr now query s)"
  "answers query (handleQueryList m now query s)" "answers query (handleQueryListHosts m now query s)"
  "answers query (handleQueryListServices m now query s)" "answers query (handleTimeStatus env query s)"
  "answers query (handleServicesForget query)" "answers query (handleLocationList now query s)"
  "answers query (handleLocationShow now query s)"
  by (simp_all add: answers_intros handleQueryByName_def handleQueryByAddr_def handleQueryList_def
      handleQueryListHosts_def handleQueryListServices_def handleTimeStatus_def handleServicesForget_def
      handleLocationList_def handleLocationShow_def Let_def split: option.splits sum.splits)

lemma answers_handlers_state [answers_intros]:
  "answers query (snd (handleHostsList now query s))" "answers query (snd (handleHostsShow now query s))"
  "answers query (snd (handleHostsForget query s))" "answers query (snd (handleHostsMarkLost query s))"
  "answers query (snd (handleServicesList now query s))" "answers query (snd (handleServicesShow now query s))"
  "answers query (snd (handleServiceAnnounce a query s))"
  by (simp_all add: answers_intros handleHostsList_def handleHostsShow_def handleHostsForget_def
      handleHostsMarkLost_def handleServicesList_def handleServicesShow_def handleServiceAnnounce_def
      Let_def split_beta split: option.splits)

lemma answers_force [answers_intros]:
  "handleTimeForceUpdate env now query s = Some r \<Longrightarrow> answers query (snd r)"
  by (auto simp: answers_intros handleTimeForceUpdate_def Let_def split: option.splits sum.splits)

lemma handleQuery_answers: "handleQuery env announce now query s = Some r \<Longrightarrow> answers query (snd r)"
  unfolding handleQuery_def Let_def by (auto simp: answers_intros split: if_splits)

lemma handleQuery_None: "handleQuery env announce now query s = None \<Longrightarrow> handleTimeForceUpdate env now query s = None"
  by (auto simp: handleQuery_def Let_def split: if_splits)

lemma handleQuery_total:
  assumes "slice_sorter (se_sort env)"
    and "case sv_timeSync s of None \<Rightarrow> True | Some ts \<Rightarrow> 1 \<le> tsc_MinSources (tsv_config ts)"
  shows "handleQuery env announce now query s \<noteq> None"
proof -
  have "handleTimeForceUpdate env now query s \<noteq> None"
  proof (cases "sv_timeSync s")
    case (Some ts)
    then have "ForceUpdate (se_sort env) (se_kernel env) now (q_Name query = ''true'' \<or> q_Name query = ''1'') ts \<noteq> None"
      using assms(2) by (intro force_update_total [OF assms(1)]) simp
    with Some show ?thesis by (auto simp: handleTimeForceUpdate_def Let_def split: option.splits sum.splits)
  qed (simp add: handleTimeForceUpdate_def)
  then show ?thesis using handleQuery_None [of env announce now query s] by argo
qed

text \<open>What queries that only read leave behind: the store as it was, or with its status fields refreshed.\<close>

lemma read_only_store:
  assumes "handleQuery env announce now query s = Some (s', rsp)"
    and "q_Type query \<notin> {HostsForget, HostsMarkLost, ServiceAnnounce}"
  shows "(sv_store s' = sv_store s \<or> sv_store s' = refresh_all now (sv_store s)) \<and> sv_locationStore s' = sv_locationStore s"
  using assms
  by (auto simp: handleQuery_def handleTimeForceUpdate_def handleHostsList_def handleHostsShow_def
      handleServicesList_def handleServicesShow_def ListAll_def Let_def split_beta
      split: if_splits option.splits sum.splits)

text \<open>A record without its status, which every operation computes afresh.\<close>

definition bare :: "Record \<Rightarrow> Record" where
  "bare r = r\<lparr>r_Status := []\<rparr>"

lemma Get_refresh: "map_option bare (Get (refresh_all now rs) t n) = map_option bare (Get rs t n)"
proof -
  let ?u = "UpdateRecordStatus (rs_healthTracker rs) now"
  have "find_record (refresh_all now rs) n = map_option ?u (find_record rs n)"
    by (auto simp: find_record_def refresh_all_def map_of_map_snd split: option.splits)
  moreover have "live (rs_healthTracker rs) t (?u r) = live (rs_healthTracker rs) t r" for r
    by (simp add: live_iff)
  moreover have "bare (?u r) = bare r" for r by (simp add: bare_def UpdateRecordStatus_def)
  moreover have "rs_healthTracker (refresh_all now rs) = rs_healthTracker rs" by (simp add: refresh_all_def)
  ultimately show ?thesis by (auto simp: Get_eq split: option.splits)
qed

section \<open>Lemmas on the service listing\<close>

lemma add_service_health_other: "n \<noteq> fst e \<Longrightarrow> map_of (add_service_health r e m) n = map_of m n"
  by (simp add: add_service_health_def Let_def)

lemma add_services_other:
  "n \<notin> fst ` set svcs \<Longrightarrow> map_of (fold (add_service_health r) svcs m) n = map_of m n"
  by (induction svcs arbitrary: m) (auto simp: add_service_health_other)

definition hosts_of :: "(string, ServiceHealth) gomap \<Rightarrow> string \<Rightarrow> string list" where
  "hosts_of m n = (case map_of m n of None \<Rightarrow> [] | Some svc \<Rightarrow> sh_Hosts svc)"

lemma add_services_hosts:
  assumes "gm_wf svcs"
  shows "hosts_of (fold (add_service_health r) svcs m) n =
    hosts_of m n @ (if n \<in> fst ` set svcs then [r_Hostname r] else [])"
  using assms
proof (induction svcs arbitrary: m)
  case Nil
  then show ?case by simp
next
  case (Cons e svcs)
  show ?case
  proof (cases "n = fst e")
    case True
    with Cons.prems have "n \<notin> fst ` set svcs" by auto
    then have "hosts_of (fold (add_service_health r) (e # svcs) m) n = hosts_of (add_service_health r e m) n"
      by (simp add: hosts_of_def add_services_other)
    also have "\<dots> = hosts_of m n @ [r_Hostname r]"
      using True by (simp add: hosts_of_def add_service_health_def Let_def split: option.splits)
    finally show ?thesis using True by simp
  next
    case False
    then have "hosts_of (add_service_health r e m) n = hosts_of m n" by (simp add: hosts_of_def add_service_health_other)
    with Cons False show ?thesis by auto
  qed
qed

lemma services_by_name_hosts:
  assumes "\<forall>r \<in> set records. gm_wf (r_Services r)"
  shows "hosts_of (services_by_name records) n =
    map r_Hostname (filter (\<lambda>r. n \<in> fst ` set (r_Services r)) records)"
proof -
  have "hosts_of (fold (\<lambda>r. fold (add_service_health r) (r_Services r)) records m) n =
      hosts_of m n @ map r_Hostname (filter (\<lambda>r. n \<in> fst ` set (r_Services r)) records)" for m
    using assms by (induction records arbitrary: m) (auto simp: add_services_hosts)
  from this [of "[]"] show ?thesis by (simp add: services_by_name_def hosts_of_def)
qed

lemma services_by_name_wf:
  "gm_wf (services_by_name records) \<and>
   (\<forall>n svc. map_of (services_by_name records) n = Some svc \<longrightarrow> sh_Name svc = n \<and> sh_Hosts svc \<noteq> [])"
proof -
  define ok where "ok m \<longleftrightarrow> gm_wf m \<and> (\<forall>n svc. map_of m n = Some svc \<longrightarrow> sh_Name svc = n \<and> sh_Hosts svc \<noteq> [])"
    for m :: "(string, ServiceHealth) gomap"
  have add: "ok m \<Longrightarrow> ok (add_service_health r e m)" for r e m
    by (auto simp: ok_def add_service_health_def Let_def split: option.splits)
  have inner: "ok m \<Longrightarrow> ok (fold (add_service_health r) svcs m)" for r svcs m
    by (induction svcs arbitrary: m) (auto simp: add)
  have outer: "ok m \<Longrightarrow> ok (fold (\<lambda>r. fold (add_service_health r) (r_Services r)) records m)" for m
    by (induction records arbitrary: m) (auto simp: inner)
  have "ok (services_by_name records)" unfolding services_by_name_def by (rule outer) (simp add: ok_def)
  then show ?thesis unfolding ok_def .
qed

section \<open>Properties\<close>

text \<open>Every request gets an answer: for every query, known or not, the dispatch returns a
  response with the identifier of the request and the type OK, NOTFOUND or ERROR. The only
  operation that could end the daemon, a forced time update, cannot when at least one time
  source is required.\<close>

theorem every_query_answered:
  assumes "slice_sorter (se_sort env)"
    and "case sv_timeSync s of None \<Rightarrow> True | Some ts \<Rightarrow> 1 \<le> tsc_MinSources (tsv_config ts)"
  shows "\<exists>s' rsp. handleQuery env announce now query s = Some (s', rsp) \<and> rsp_RequestID rsp = q_RequestID query
    \<and> rsp_Type rsp \<in> {ResponseOK, ResponseNotFound, ResponseError}"
proof -
  obtain r where "handleQuery env announce now query s = Some r" using handleQuery_total [OF assms] by blast
  with handleQuery_answers [OF this] show ?thesis by (cases r) (auto simp: answers_def)
qed

definition demo_sock_env :: sock_env where
  "demo_sock_env = \<lparr>se_marshal = demo_marshal, se_rfc3339 = itoa, se_sort = sort_key src_Timestamp,
     se_kernel = (\<lambda>_. None)\<rparr>"

definition demo_shared :: shared where
  "demo_shared = \<lparr>sv_store = demo_store, sv_locationStore = Some NewLocationStore, sv_timeSync = Some demo_service\<rparr>"

theorem every_query_answered_witness:
  "\<exists>s' rsp. handleQuery demo_sock_env None 0 (zero_Query\<lparr>q_Type := ''TIME_FORCE_UPDATE'', q_RequestID := ''r7''\<rparr>)
     demo_shared = Some (s', rsp) \<and> rsp_RequestID rsp = ''r7''"
  using every_query_answered [of demo_sock_env demo_shared None 0
      "zero_Query\<lparr>q_Type := ''TIME_FORCE_UPDATE'', q_RequestID := ''r7''\<rparr>"]
  by (simp add: demo_sock_env_def demo_shared_def demo_service_def demo_tscfg_def insertion.slice_sorter_axioms) blast

text \<open>Only the commands that forget a host, mark it lost or announce a service can change what
  names resolve to: any other query leaves the answer to every name lookup at every later time
  unchanged, up to the status field that each lookup computes again.\<close>

theorem queries_do_not_change_names:
  assumes "handleQuery env announce now query s = Some (s', rsp)"
    and "q_Type query \<notin> {HostsForget, HostsMarkLost, ServiceAnnounce}"
  shows "map_option bare (Get (sv_store s') t n) = map_option bare (Get (sv_store s) t n)
    \<and> sv_locationStore s' = sv_locationStore s"
  using read_only_store [OF assms] Get_refresh [of now "sv_store s" t n] by auto

theorem queries_do_not_change_names_witness:
  "\<exists>s' rsp. handleQuery demo_sock_env None 9 (zero_Query\<lparr>q_Type := HostsList\<rparr>) demo_shared = Some (s', rsp)
     \<and> map_option bare (Get (sv_store s') 10 ''web1'') = map_option bare (Get (sv_store demo_shared) 10 ''web1'')"
proof -
  obtain s' rsp where q: "handleQuery demo_sock_env None 9 (zero_Query\<lparr>q_Type := HostsList\<rparr>) demo_shared = Some (s', rsp)"
    by (cases "handleHostsList 9 (zero_Query\<lparr>q_Type := HostsList\<rparr>) demo_shared") (simp add: handleQuery_def zero_Query_def)
  from queries_do_not_change_names [OF q] q show ?thesis by (simp add: zero_Query_def)
qed

text \<open>A host that an administrator forgets is gone at once: after the command, no name lookup
  over the socket, of any name or alias and at any time, is answered with that host, unless the
  host is configured statically.\<close>

theorem forgotten_host_not_answered:
  assumes "store_inv (sv_store s)" and "\<not> IsStatic (rs_healthTracker (sv_store s)) h" and "h \<noteq> []"
    and "q_Type query = HostsForget" and "q_Name query = h"
    and "handleQuery env announce now query s = Some (s', rsp)"
    and "rsp' = handleQueryByName t query' s'" and "rsp_Type rsp' = ResponseOK"
  shows "rsp_Name rsp' \<noteq> h"
proof -
  have s': "sv_store s' = Forget h (sv_store s)"
    using assms(3-6) by (auto simp: handleQuery_def handleHostsForget_def Let_def)
  obtain r where r: "Get (sv_store s') t (q_Name query') = Some r" "rsp_Name rsp' = r_Hostname r"
    using assms(7,8) by (auto simp: handleQueryByName_def response_defs split: option.splits)
  show ?thesis
    using cache.forgotten_not_served [OF assms(1,2) r(1) [unfolded s']] r(2) by simp
qed

text \<open>C7: The service list is complete and exact: it has one entry for each service name that some record
  carries and no other, the count is the number of entries, and each entry shows exactly the hosts whose
  records carry the service, lost hosts included. The services of a record are a map, so no name stands
  in it twice.\<close>

theorem service_list_exact:
  assumes "handleServicesList now query s = (s', rsp)"
    and "\<forall>(h, r) \<in> set (rs_records (sv_store s)). gm_wf (r_Services r)"
  shows "distinct (map sh_Name (rsp_Services rsp)) \<and> rsp_Count rsp = int (length (rsp_Services rsp)) \<and>
    (\<forall>n. (\<exists>svc \<in> set (rsp_Services rsp). sh_Name svc = n) \<longleftrightarrow>
         (\<exists>(h, r) \<in> set (rs_records (sv_store s)). n \<in> fst ` set (r_Services r))) \<and>
    (\<forall>svc \<in> set (rsp_Services rsp). set (sh_Hosts svc) =
         {r_Hostname r | h r. (h, r) \<in> set (rs_records (sv_store s)) \<and> sh_Name svc \<in> fst ` set (r_Services r)})"
proof -
  let ?recs = "snd (ListAll now (sv_store s))"
  let ?m = "services_by_name ?recs"
  have rsp: "rsp_Services rsp = map snd ?m" "rsp_Count rsp = int (length ?m)"
    using assms(1) by (auto simp: handleServicesList_def ok_response_def Let_def split_beta)
  have recs: "?recs = map (UpdateRecordStatus (rs_healthTracker (sv_store s)) now \<circ> snd) (rs_records (sv_store s))"
    by (simp add: ListAll_def refresh_all_def Let_def comp_def split_beta)
  have wf: "\<forall>r \<in> set ?recs. gm_wf (r_Services r)" unfolding recs using assms(2) by auto
  note h = services_by_name_hosts [OF wf] and w = services_by_name_wf [of ?recs]
  have nm: "map sh_Name (map snd ?m) = map fst ?m"
    using w by (auto simp: gm_in_iff [symmetric])
  have ent: "(\<exists>svc. map_of ?m n = Some svc) \<longleftrightarrow> (\<exists>r \<in> set ?recs. n \<in> fst ` set (r_Services r))" for n
  proof -
    have "(\<exists>svc. map_of ?m n = Some svc) \<longleftrightarrow> hosts_of ?m n \<noteq> []"
      using w by (auto simp: hosts_of_def split: option.splits)
    then show ?thesis unfolding h by (auto simp: filter_empty_conv)
  qed
  have mem: "svc \<in> set (map snd ?m) \<longleftrightarrow> map_of ?m (sh_Name svc) = Some svc" for svc
  proof
    assume "svc \<in> set (map snd ?m)"
    then obtain n where "(n, svc) \<in> set ?m" by auto
    with w have "map_of ?m n = Some svc" by (intro map_of_is_SomeI) blast+
    with w show "map_of ?m (sh_Name svc) = Some svc" by auto
  next
    assume "map_of ?m (sh_Name svc) = Some svc"
    from map_of_SomeD [OF this] show "svc \<in> set (map snd ?m)" by force
  qed
  have hs: "sh_Hosts svc = map r_Hostname (filter (\<lambda>r. sh_Name svc \<in> fst ` set (r_Services r)) ?recs)"
    if "svc \<in> set (map snd ?m)" for svc
    using that h [of "sh_Name svc"] by (simp only: mem hosts_of_def option.case)
  show ?thesis
  proof (intro conjI allI ballI)
    show "distinct (map sh_Name (rsp_Services rsp))" unfolding rsp(1) nm using w by blast
    show "rsp_Count rsp = int (length (rsp_Services rsp))" using rsp by simp
    show "(\<exists>svc \<in> set (rsp_Services rsp). sh_Name svc = n) \<longleftrightarrow>
         (\<exists>(h, r) \<in> set (rs_records (sv_store s)). n \<in> fst ` set (r_Services r))" for n
    proof -
      have "(\<exists>svc \<in> set (rsp_Services rsp). sh_Name svc = n) \<longleftrightarrow> (\<exists>svc. map_of ?m n = Some svc)"
        unfolding rsp(1) using mem w by blast
      also have "\<dots> \<longleftrightarrow> (\<exists>(h, r) \<in> set (rs_records (sv_store s)). n \<in> fst ` set (r_Services r))"
        unfolding ent unfolding recs by force
      finally show ?thesis .
    qed
    show "set (sh_Hosts svc) = {r_Hostname r | h r. (h, r) \<in> set (rs_records (sv_store s)) \<and> sh_Name svc \<in> fst ` set (r_Services r)}"
      if "svc \<in> set (rsp_Services rsp)" for svc
      using hs [of svc] that unfolding rsp(1) recs by (force simp: image_iff)
  qed
qed

theorem forgotten_host_not_answered_witness:
  "\<exists>s' rsp. handleQuery demo_sock_env None 0 (zero_Query\<lparr>q_Type := HostsForget, q_Name := ''web1''\<rparr>) demo_shared
       = Some (s', rsp)
    \<and> (rsp_Type (handleQueryByName 0 (zero_Query\<lparr>q_Name := ''www''\<rparr>) s') = ResponseOK \<longrightarrow>
         rsp_Name (handleQueryByName 0 (zero_Query\<lparr>q_Name := ''www''\<rparr>) s') \<noteq> ''web1'')"
proof -
  let ?q = "zero_Query\<lparr>q_Type := HostsForget, q_Name := ''web1''\<rparr>"
  obtain s' rsp where q: "handleQuery demo_sock_env None 0 ?q demo_shared = Some (s', rsp)"
    by (cases "handleHostsForget ?q demo_shared") (simp add: handleQuery_def zero_Query_def)
  have "store_inv (sv_store demo_shared)" "\<not> IsStatic (rs_healthTracker (sv_store demo_shared)) ''web1''"
    using demo_store_inv by (simp_all add: demo_shared_def demo_store_eval IsStatic_def)
  from forgotten_host_not_answered [OF this _ _ _ q] q show ?thesis by (auto simp: zero_Query_def)
qed

theorem service_list_exact_witness:
  "\<exists>s' rsp. handleServicesList 0 zero_Query (demo_shared\<lparr>sv_store := demo_store\<lparr>rs_records :=
       [(''a'', zero_Record\<lparr>r_Hostname := ''a'', r_Services := [(''www'', '':80'')]\<rparr>)]\<rparr>\<rparr>) = (s', rsp)
     \<and> (\<exists>svc \<in> set (rsp_Services rsp). sh_Name svc = ''www'')"
proof -
  let ?s = "demo_shared\<lparr>sv_store := demo_store\<lparr>rs_records :=
       [(''a'', zero_Record\<lparr>r_Hostname := ''a'', r_Services := [(''www'', '':80'')]\<rparr>)]\<rparr>\<rparr>"
  obtain s' rsp where q: "handleServicesList 0 zero_Query ?s = (s', rsp)" by (cases "handleServicesList 0 zero_Query ?s")
  have "\<forall>(h, r) \<in> set (rs_records (sv_store ?s)). gm_wf (r_Services r)" by simp
  from service_list_exact [OF q this] q show ?thesis by simp
qed

end
