(* ===== verification/Detector.thy ===== *)
theory Detector
  imports Broadcast
begin

text \<open>
  The detector of local services (\<^verbatim>\<open>internal/service/detector.go\<close>). Connecting to a local
  port is an argument: \<open>None\<close> when the port refuses, otherwise the IPv4 address of the local
  end of the connection, if it has one.
\<close>

type_synonym dialer = "int \<Rightarrow> IP option option"

record DetectedService =
  ds_Name :: string
  ds_Port :: int
  ds_Addr :: string

record Detector =
  dt_portMapping :: "(string, int list) gomap"
  dt_interval :: duration
  dt_services :: "(string, DetectedService) gomap"

definition NewDetector :: "(string, int list) gomap \<Rightarrow> duration \<Rightarrow> Detector" where
  "NewDetector portMapping interval = \<lparr>dt_portMapping = portMapping, dt_interval = interval, dt_services = []\<rparr>"

definition checkPort :: "dialer \<Rightarrow> int \<Rightarrow> string \<times> bool" where
  "checkPort dial port =
     (case dial port of
        None \<Rightarrow> ([], False)
      | Some None \<Rightarrow> ([], True)
      | Some (Some ip) \<Rightarrow> (ip4_String ip, True))"

definition detect_port :: "dialer \<Rightarrow> string \<Rightarrow> int \<Rightarrow> (string, DetectedService) gomap
    \<Rightarrow> (string, DetectedService) gomap" where
  "detect_port dial serviceName port services =
     (case checkPort dial port of
        (addr, True) \<Rightarrow>
          AList.update (serviceName @ '':'' @ itoa port) \<lparr>ds_Name = serviceName, ds_Port = port, ds_Addr = addr\<rparr> services
      | (_, False) \<Rightarrow> services)"

definition scan :: "dialer \<Rightarrow> Detector \<Rightarrow> Detector" where
  "scan dial d =
     d\<lparr>dt_services := fold (\<lambda>(serviceName, ports). fold (detect_port dial serviceName) ports) (dt_portMapping d) []\<rparr>"

definition GetServices :: "Detector \<Rightarrow> DetectedService list" where
  "GetServices d = map snd (dt_services d)"

definition GetServiceCount :: "Detector \<Rightarrow> int" where
  "GetServiceCount d = int (length (dt_services d))"

definition Detector_Stop :: "Detector \<Rightarrow> Detector" where
  "Detector_Stop d = d\<lparr>dt_services := []\<rparr>"

section \<open>Lemmas\<close>

text \<open>What a scan knows about a service: it answered on that port when scanned.\<close>

definition open_services :: "dialer \<Rightarrow> (string, int list) gomap \<Rightarrow> (string \<times> int) set" where
  "open_services dial mapping = {(n, p). \<exists>ps. (n, ps) \<in> set mapping \<and> p \<in> set ps \<and> dial p \<noteq> None}"

lemma detect_port_all:
  assumes "\<forall>e \<in> set m. P (snd e)" and "\<And>addr. dial p \<noteq> None \<Longrightarrow> P \<lparr>ds_Name = n, ds_Port = p, ds_Addr = addr\<rparr>"
  shows "\<forall>e \<in> set (detect_port dial n p m). P (snd e)"
proof -
  have upd: "set (AList.update k v m) \<subseteq> insert (k, v) (set m)" for k v by (induction m) auto
  show ?thesis
  proof (cases "dial p")
    case None
    then show ?thesis using assms(1) by (simp add: detect_port_def checkPort_def)
  next
    case (Some ip)
    then obtain addr where "detect_port dial n p m =
        AList.update (n @ '':'' @ itoa p) \<lparr>ds_Name = n, ds_Port = p, ds_Addr = addr\<rparr> m"
      by (cases ip) (auto simp: detect_port_def checkPort_def)
    with upd [of "n @ '':'' @ itoa p"] assms Some show ?thesis by fastforce
  qed
qed

lemma detect_ports_all:
  assumes "\<forall>e \<in> set m. P (snd e)"
    and "\<And>p addr. p \<in> set ps \<Longrightarrow> dial p \<noteq> None \<Longrightarrow> P \<lparr>ds_Name = n, ds_Port = p, ds_Addr = addr\<rparr>"
  shows "\<forall>e \<in> set (fold (detect_port dial n) ps m). P (snd e)"
  using assms
proof (induction ps arbitrary: m)
  case (Cons p ps)
  have "\<forall>e \<in> set (detect_port dial n p m). P (snd e)"
    by (rule detect_port_all) (use Cons.prems in auto)
  then show ?case using Cons.IH [of "detect_port dial n p m"] Cons.prems(2) by simp
qed simp

lemma scan_sound:
  assumes "s \<in> set (GetServices (scan dial d))"
  shows "(ds_Name s, ds_Port s) \<in> open_services dial (dt_portMapping d)"
proof -
  let ?P = "\<lambda>s. (ds_Name s, ds_Port s) \<in> open_services dial (dt_portMapping d)"
  have "\<forall>e \<in> set (fold (\<lambda>(n, ps). fold (detect_port dial n) ps) es m). ?P (snd e)"
    if "set es \<subseteq> set (dt_portMapping d)" and "\<forall>e \<in> set m. ?P (snd e)" for es m
    using that
  proof (induction es arbitrary: m)
    case (Cons e es)
    have "\<forall>x \<in> set (fold (detect_port dial (fst e)) (snd e) m). ?P (snd x)"
      by (rule detect_ports_all [OF Cons.prems(2)]) (use Cons.prems(1) in \<open>force simp: open_services_def\<close>)
    then show ?case using Cons.IH [of "fold (detect_port dial (fst e)) (snd e) m"] Cons.prems(1)
      by (simp add: split_beta)
  qed simp
  from this [of "dt_portMapping d" "[]"] assms show ?thesis by (auto simp: GetServices_def scan_def)
qed

end
