(* ===== verification/Daemon.thy ===== *)
theory Daemon
  imports Socket_Server Detector
begin

text \<open>
  The daemon (\<^verbatim>\<open>internal/daemon/daemon.go\<close>): its construction, the handlers that connect
  the listener to the stores, the registration of its own services, and the whole system as a
  step relation. A step is one handler run from start to end; the mutexes of the stores make
  each access atomic, and the handlers hold no state between two accesses that another
  goroutine could invalidate. The surroundings (network, keys, clock, randomness, decoders) are
  the fields of \<open>node_env\<close>.
\<close>

section \<open>State\<close>

record Daemon = shared +
  d_config :: Config
  d_hostname :: string
  d_machineID :: string
  d_announcer :: "Announcer option"
  d_listener :: "Listener option"
  d_detector :: "Detector option"
  d_dnsServer :: "DnsConfig option"
  d_dynamicServices :: "ServiceConfig list"

record node_env =
  nv_net :: net_env
  nv_mac :: mac
  nv_rnd :: read_result
  nv_dec :: decoders
  nv_dial :: dialer
  nv_sock :: sock_env
  nv_v6 :: "string \<Rightarrow> IP option"
  nv_reply :: "Msg \<Rightarrow> Msg"

abbreviation nv_marshal :: "node_env \<Rightarrow> marshaller" where
  "nv_marshal env \<equiv> se_marshal (nv_sock env)"

section \<open>Construction\<close>

record Peer =
  pe_Hostname :: string
  pe_PublicKey :: string
  pe_PrivateKey :: string

text \<open>Reading a file: the callers ask of an error only whether it says that the file is missing.\<close>

datatype file_read = FileNotExist | FileError string | FileData string

definition file_result :: "file_read \<Rightarrow> read_result" where
  "file_result r = (case r of FileNotExist \<Rightarrow> Inl ''no such file or directory'' | FileError err \<Rightarrow> Inl err | FileData data \<Rightarrow> Inr data)"

definition readMachineID :: "(string \<Rightarrow> file_read) \<Rightarrow> string" where
  "readMachineID readFile =
     (case file_result (readFile ''/etc/machine-id'') of Inl _ \<Rightarrow> [] | Inr data \<Rightarrow> TrimSpace data)"

definition add_peer :: "Peer \<Rightarrow> KeyManager \<Rightarrow> KeyManager" where
  "add_peer peer km =
     (if pe_Hostname peer \<noteq> [] \<and> pe_PublicKey peer \<noteq> [] \<and> pe_PrivateKey peer \<noteq> []
      then AddTrustedPeerByID (pe_PublicKey peer) (pe_PrivateKey peer) km else km)"

definition loadTrustedPeers :: "(string \<Rightarrow> file_read) \<Rightarrow> (string \<Rightarrow> string + Peer list) \<Rightarrow> KeyManager \<Rightarrow> string
    \<Rightarrow> string + KeyManager" where
  "loadTrustedPeers readFile unmarshal km path =
     (let km1 = AddTrustedPeerByID (GetPublicKey km) (GetPrivateKey km) km
      in case readFile path of
           FileNotExist \<Rightarrow> Inr km1
         | FileError err \<Rightarrow> Inl (''failed to read trusted peers file: '' @ err)
         | FileData data \<Rightarrow>
             (case unmarshal data of
                Inl err \<Rightarrow> Inl (''failed to parse trusted peers file: '' @ err)
              | Inr peers \<Rightarrow> Inr (fold add_peer peers km1)))"

text \<open>
  What \<^verbatim>\<open>New\<close> asks of its surroundings: the host name, the files, the decoders of the key
  and peer files, the random bytes for a new key, the network and the two sockets.
\<close>

record new_env =
  ne_hostname :: "string + string"
  ne_readFile :: "string \<Rightarrow> file_read"
  ne_keyFile :: "string \<Rightarrow> string + KeyFile"
  ne_peersFile :: "string \<Rightarrow> string + Peer list"
  ne_rnd1 :: read_result
  ne_rnd2 :: read_result
  ne_net :: net_env
  ne_announceSocket :: "string + unit"
  ne_listenSocket :: "string + unit"

definition new_keys :: "new_env \<Rightarrow> SecurityConfig \<Rightarrow> string + KeyManager option" where
  "new_keys ne sec =
     (if \<not> sec_Enabled sec then Inr None
      else (case NewKeyManager (file_result \<circ> ne_readFile ne) (ne_keyFile ne) (ne_rnd1 ne) (ne_rnd2 ne) (sec_KeyPath sec) of
              Inl err \<Rightarrow> Inl (''failed to initialize key manager: '' @ err)
            | Inr km \<Rightarrow>
                if sec_TrustedPeers sec \<noteq> [] then
                  (case loadTrustedPeers (ne_readFile ne) (ne_peersFile ne) km (sec_TrustedPeers sec) of
                     Inl err \<Rightarrow> Inl (''failed to load trusted peers: '' @ err)
                   | Inr km' \<Rightarrow> Inr (Some km'))
                else Inr (Some km)))"

definition new_discovery :: "new_env \<Rightarrow> time \<Rightarrow> Config \<Rightarrow> string \<Rightarrow> KeyManager option
    \<Rightarrow> string + Announcer option \<times> Listener option \<times> Detector option" where
  "new_discovery ne now cfg hostname km =
     (if \<not> disc_Enabled (c_Discovery cfg) then Inr (None, None, None)
      else (case NewAnnouncer (ne_net ne) (ne_announceSocket ne) now (nc_BroadcastAddr (c_Network cfg)) hostname
                   (readMachineID (ne_readFile ne)) (dc_BroadcastInterval (c_Daemon cfg)) km (nc_Interfaces (c_Network cfg)) of
              Inl err \<Rightarrow> Inl err
            | Inr announcer \<Rightarrow>
                (case NewListener (ne_net ne) (ne_listenSocket ne) (nc_BroadcastAddr (c_Network cfg)) km
                        (sec_RequireSigned (c_Security cfg)) of
                   Inl err \<Rightarrow> Inl err
                 | Inr listener \<Rightarrow>
                     Inr (Some announcer, Some listener,
                       if disc_DetectServices (c_Discovery cfg)
                       then Some (NewDetector (disc_ServicePortMapping (c_Discovery cfg)) (disc_ScanInterval (c_Discovery cfg)))
                       else None))))"

definition new_dns :: "Config \<Rightarrow> DnsConfig option" where
  "new_dns cfg =
     (let c = c_DNS cfg
      in if dns_Enabled c then
           Some \<lparr>dsc_Enabled = dns_Enabled c, dsc_Port = dns_Port c, dsc_Domain = dns_Domain c,
                 dsc_BindAddresses = dns_BindAddresses c, dsc_TTLHealthy = dns_TTLHealthy c, dsc_TTLStale = dns_TTLStale c\<rparr>
         else None)"

definition New :: "new_env \<Rightarrow> time \<Rightarrow> Config \<Rightarrow> string + Daemon" where
  "New ne now cfg =
     (case ne_hostname ne of
        Inl err \<Rightarrow> Inl (''failed to get hostname: '' @ err)
      | Inr hostname \<Rightarrow>
          (case new_keys ne (c_Security cfg) of
             Inl err \<Rightarrow> Inl err
           | Inr km \<Rightarrow>
               (case new_discovery ne now cfg hostname km of
                  Inl err \<Rightarrow> Inl err
                | Inr (announcer, listener, detector) \<Rightarrow>
                    Inr \<lparr>sv_store = NewRecordStore (dc_RecordTTL (c_Daemon cfg)) (c_Health cfg) (c_StaticHosts cfg),
                         sv_locationStore = Some NewLocationStore,
                         sv_timeSync = (if tsc_Enabled (c_TimeSync cfg) then Some (NewTimeSyncService (c_TimeSync cfg) km)
                                        else None),
                         d_config = cfg, d_hostname = hostname, d_machineID = readMachineID (ne_readFile ne),
                         d_announcer = announcer, d_listener = listener, d_detector = detector,
                         d_dnsServer = new_dns cfg, d_dynamicServices = []\<rparr>)))"

section \<open>Handlers\<close>

text \<open>The aliases of all services, each once, in the order of their first appearance.\<close>

definition add_aliases :: "string list \<Rightarrow> string list \<Rightarrow> string list" where
  "add_aliases new acc = foldl (\<lambda>acc alias. if alias \<in> set acc then acc else acc @ [alias]) acc new"

definition discovery_record :: "BroadcastMessage \<Rightarrow> Record" where
  "discovery_record msg =
     zero_Record\<lparr>r_Hostname := bm_Hostname msg, r_MachineID := bm_MachineID msg, r_Addresses := elems (bm_IPs msg),
       r_Timestamp := bm_Timestamp msg, r_TTL := bm_TTL msg,
       r_Services := fold (\<lambda>svc. AList.update (si_Name svc) (si_Addr svc @ '':'' @ itoa (si_Port svc)))
         (elems (bm_Services msg)) [],
       r_Aliases := fold (\<lambda>svc. add_aliases (si_Aliases svc)) (elems (bm_Services msg)) []\<rparr>"

definition handleDiscoveryMessage :: "time \<Rightarrow> BroadcastMessage \<Rightarrow> Daemon \<Rightarrow> Daemon" where
  "handleDiscoveryMessage now msg d = d\<lparr>sv_store := AddOrUpdate now (discovery_record msg) (sv_store d)\<rparr>"

definition first_ip :: "string slice \<Rightarrow> string" where
  "first_ip ips = (case elems ips of [] \<Rightarrow> [] | ip # _ \<Rightarrow> ip)"

definition daemon_LocalIPs :: "node_env \<Rightarrow> time \<Rightarrow> Daemon \<Rightarrow> Daemon \<times> string slice" where
  "daemon_LocalIPs env now d =
     (case d_announcer d of
        None \<Rightarrow> (d, None)
      | Some a \<Rightarrow> (let (a1, ips) = getLocalIPs (nv_net env) now a in (d\<lparr>d_announcer := Some a1\<rparr>, ips)))"

definition self_record :: "time \<Rightarrow> string slice \<Rightarrow> Daemon \<Rightarrow> Record" where
  "self_record now ips d =
     (let allServices = c_Services (d_config d) @ d_dynamicServices d
      in zero_Record\<lparr>r_Hostname := d_hostname d, r_MachineID := d_machineID d, r_Addresses := elems ips,
           r_Timestamp := unix_secs now, r_TTL := dur_secs (dc_RecordTTL (c_Daemon (d_config d))),
           r_Services := fold (\<lambda>svc. AList.update (svc_Name svc) (first_ip ips @ '':'' @ itoa (svc_Port svc))) allServices [],
           r_Aliases := fold (\<lambda>svc. add_aliases (svc_Aliases svc)) allServices []\<rparr>)"

definition selfRegister :: "node_env \<Rightarrow> time \<Rightarrow> Daemon \<Rightarrow> Daemon" where
  "selfRegister env now d =
     (let (d1, ips) = daemon_LocalIPs env now d
      in d1\<lparr>sv_store := AddOrUpdate now (self_record now ips d1) (sv_store d1)\<rparr>)"

text \<open>The announcements that go out are returned beside the state.\<close>

definition announce_to_network :: "node_env \<Rightarrow> time \<Rightarrow> string \<Rightarrow> int \<Rightarrow> string list \<Rightarrow> Daemon
    \<Rightarrow> Daemon \<times> (udp_addr \<times> string) list" where
  "announce_to_network env now name port aliases d =
     (case d_announcer d of
        None \<Rightarrow> (d, [])
      | Some a \<Rightarrow>
          let (a1, ips) = getLocalIPs (nv_net env) now a;
              a2 = AddService name port (first_ip ips) aliases a1;
              (a3, sent) = BroadcastNow (nv_net env) (nv_mac env) (nv_marshal env) (nv_rnd env) now a2
          in (d\<lparr>d_announcer := Some a3\<rparr>, sent))"

text \<open>
  An announcement is one step. In the code the list of dynamic services is copied under its lock and the
  record is stored after the lock is released, so of two announcements at the same time the one that copied
  first may store last; the store then misses the newest service until the next announcement. That
  interleaving is not modelled.
\<close>

definition AnnounceService :: "node_env \<Rightarrow> time \<Rightarrow> string \<Rightarrow> int \<Rightarrow> string list \<Rightarrow> Daemon \<Rightarrow> Daemon \<times> string option" where
  "AnnounceService env now name port aliases d =
     (let d1 = d\<lparr>d_dynamicServices := d_dynamicServices d @ [\<lparr>svc_Name = name, svc_Port = port, svc_Aliases = aliases\<rparr>]\<rparr>;
          (d2, sent) = announce_to_network env now name port aliases d1
      in (selfRegister env now d2, None))"

text \<open>One tick of \<^verbatim>\<open>updateServiceAnnouncements\<close>.\<close>

definition update_announcements :: "Daemon \<Rightarrow> Daemon" where
  "update_announcements d =
     (case (d_detector d, d_announcer d) of
        (Some dt, Some a) \<Rightarrow>
          d\<lparr>d_announcer := Some (fold (\<lambda>svc. AddService (ds_Name svc) (ds_Port svc) (ds_Addr svc) []) (GetServices dt) a)\<rparr>
      | _ \<Rightarrow> d)"

text \<open>
  The start of \<^verbatim>\<open>Run\<close>: the configured services are announced, the goroutines start and the
  daemon registers itself. \<open>None\<close> is a panic of a goroutine that starts: \<^verbatim>\<open>time.NewTicker\<close>
  refuses an interval that is not positive (of the announcer, the detector, the time service and the
  cleanup of the store), and \<^verbatim>\<open>processTimeMessages\<close> reads a channel of the listener also when
  there is no listener. \<open>sock\<close> is the result of opening the socket.
\<close>

definition ticker_panics :: "duration \<Rightarrow> bool" where
  "ticker_panics interval \<longleftrightarrow> interval \<le> 0"

definition start_panics :: "Daemon \<Rightarrow> bool" where
  "start_panics d \<longleftrightarrow>
     (case d_announcer d of None \<Rightarrow> False | Some a \<Rightarrow> ticker_panics (a_interval a))
     \<or> (case d_detector d of None \<Rightarrow> False | Some dt \<Rightarrow> ticker_panics (dt_interval dt))
     \<or> (case sv_timeSync d of None \<Rightarrow> False | Some ts \<Rightarrow> ticker_panics (tsc_PollInterval (tsv_config ts)) \<or> d_listener d = None)
     \<or> ticker_panics (cleanup_interval (ht_config (rs_healthTracker (sv_store d))))"

definition add_configured :: "node_env \<Rightarrow> time \<Rightarrow> ServiceConfig \<Rightarrow> Announcer \<Rightarrow> Announcer" where
  "add_configured env now svc a =
     (let (a1, ips) = getLocalIPs (nv_net env) now a
      in AddService (svc_Name svc) (svc_Port svc) (first_ip ips) (svc_Aliases svc) a1)"

text \<open>
  The start. The loops above run in goroutines of their own beside the start of the socket server. If a loop
  panics and the socket also fails, the process ends either way, with the panic or with the error; the
  definition gives the panic. Whether a daemon that runs comes out does not depend on it.
\<close>

definition Run :: "node_env \<Rightarrow> (string + unit) \<Rightarrow> time \<Rightarrow> Daemon \<Rightarrow> (string + Daemon) option" where
  "Run env sock now d =
     (let d1 = d\<lparr>d_announcer := map_option (fold (add_configured env now) (c_Services (d_config d))) (d_announcer d)\<rparr>
      in if start_panics d then None
         else (case sock of
                 Inl err \<Rightarrow> Some (Inl (''failed to start socket server: '' @ err))
               | Inr _ \<Rightarrow> Some (Inr (selfRegister env now d1))))"

section \<open>The system\<close>

inductive daemon_step :: "node_env \<Rightarrow> Daemon \<Rightarrow> Daemon \<Rightarrow> bool" for env :: node_env where
  d_recv: "d_listener d = Some l \<Longrightarrow> l_pending l = None \<Longrightarrow>
     receive (nv_dec env) (nv_mac env) (nv_marshal env) now (read_datagram datagram) l = (l', del) \<Longrightarrow>
     daemon_step env d (d\<lparr>d_listener := Some (l'\<lparr>l_pending := del\<rparr>)\<rparr>)"
| d_send: "d_listener d = Some l \<Longrightarrow> l_pending l = Some del \<Longrightarrow> chan_send del l = Some l' \<Longrightarrow>
     daemon_step env d (d\<lparr>d_listener := Some (l'\<lparr>l_pending := None\<rparr>)\<rparr>)"
| d_tidy: "d_listener d = Some l \<Longrightarrow>
     daemon_step env d (d\<lparr>d_listener := Some (l\<lparr>l_duplicateFilter := df_cleanup now (l_duplicateFilter l)\<rparr>)\<rparr>)"
| d_message: "d_listener d = Some l \<Longrightarrow> l_messageChan l = m # ms \<Longrightarrow>
     daemon_step env d (handleDiscoveryMessage now m (d\<lparr>d_listener := Some (l\<lparr>l_messageChan := ms\<rparr>)\<rparr>))"
| d_time: "d_listener d = Some l \<Longrightarrow> sv_timeSync d = Some ts \<Longrightarrow> l_timeMessageChan l = m # ms \<Longrightarrow>
     daemon_step env d (d\<lparr>d_listener := Some (l\<lparr>l_timeMessageChan := ms\<rparr>), sv_timeSync := Some (ProcessMessage now m ts)\<rparr>)"
| d_location: "d_listener d = Some l \<Longrightarrow> sv_locationStore d = Some ls \<Longrightarrow> l_locationMessageChan l = m # ms \<Longrightarrow>
     daemon_step env d (d\<lparr>d_listener := Some (l\<lparr>l_locationMessageChan := ms\<rparr>),
       sv_locationStore := Some (Location_AddOrUpdate now m ls)\<rparr>)"
| d_cleanup: "daemon_step env d (d\<lparr>sv_store := cleanup_tick now (sv_store d)\<rparr>)"
| d_reorder: "reordered (rs_records (sv_store d)) recs \<Longrightarrow> reordered (rs_aliasIndex (sv_store d)) idx \<Longrightarrow>
     daemon_step env d (d\<lparr>sv_store := (sv_store d)\<lparr>rs_records := recs, rs_aliasIndex := idx\<rparr>\<rparr>)"
| d_query: "handleQuery (nv_sock env) (Some (AnnounceService env now)) now query d = Some (d', rsp) \<Longrightarrow> daemon_step env d d'"
| d_dns: "d_dnsServer d = Some cfg \<Longrightarrow>
     dns_handleQuery (nv_reply env) (nv_v6 env) cfg (GetAllRecords now) req (sv_store d) = (store', reply) \<Longrightarrow>
     daemon_step env d (d\<lparr>sv_store := store'\<rparr>)"
| d_reverse: "d_dnsServer d = Some cfg \<Longrightarrow>
     handleReverse (nv_reply env) cfg (GetAllRecords now) req (sv_store d) = (store', reply) \<Longrightarrow>
     daemon_step env d (d\<lparr>sv_store := store'\<rparr>)"
| d_poll: "sv_timeSync d = Some ts \<Longrightarrow>
     evaluateAndAdjust (se_sort (nv_sock env)) (se_kernel (nv_sock env)) now ts = Some (ts', acts) \<Longrightarrow>
     daemon_step env d (d\<lparr>sv_timeSync := Some ts'\<rparr>)"
| d_broadcast: "d_announcer d = Some a \<Longrightarrow>
     broadcast (nv_net env) (nv_mac env) (nv_marshal env) (nv_rnd env) now a = (a', sent) \<Longrightarrow>
     daemon_step env d (d\<lparr>d_announcer := Some a'\<rparr>)"
| d_scan: "d_detector d = Some dt \<Longrightarrow> daemon_step env d (d\<lparr>d_detector := Some (scan (nv_dial env) dt)\<rparr>)"
| d_update: "daemon_step env d (update_announcements d)"

definition daemon_init :: "node_env \<Rightarrow> new_env \<Rightarrow> Config \<Rightarrow> Daemon \<Rightarrow> bool" where
  "daemon_init env ne cfg d \<longleftrightarrow> gm_wf (c_StaticHosts cfg) \<and>
     (\<exists>t0 d0 t1. New ne t0 cfg = Inr d0 \<and> Run env (Inr ()) t1 d0 = Some (Inr d))"

inductive_cases daemon_stepE: "daemon_step env d d'"

section \<open>What a step does to the record store\<close>

lemma daemon_LocalIPs_frame [simp]:
  "sv_store (fst (daemon_LocalIPs env now d)) = sv_store d" "d_hostname (fst (daemon_LocalIPs env now d)) = d_hostname d"
  "d_listener (fst (daemon_LocalIPs env now d)) = d_listener d" "d_config (fst (daemon_LocalIPs env now d)) = d_config d"
  "d_dynamicServices (fst (daemon_LocalIPs env now d)) = d_dynamicServices d"
  by (simp_all add: daemon_LocalIPs_def split_beta Let_def split: option.splits)

lemma announce_frame [simp]:
  "sv_store (fst (announce_to_network env now n p as d)) = sv_store d"
  "d_hostname (fst (announce_to_network env now n p as d)) = d_hostname d"
  "d_listener (fst (announce_to_network env now n p as d)) = d_listener d"
  "d_config (fst (announce_to_network env now n p as d)) = d_config d"
  "d_dynamicServices (fst (announce_to_network env now n p as d)) = d_dynamicServices d"
  by (simp_all add: announce_to_network_def split_beta Let_def split: option.splits)

lemma fold_update_wf: "gm_wf m \<Longrightarrow> gm_wf (fold (\<lambda>x. AList.update (f x) (g x)) xs m)"
  by (induction xs arbitrary: m) (simp_all add: distinct_update)

lemma self_record_sel [simp]:
  "r_Hostname (self_record now ips d) = d_hostname d" "r_Addresses (self_record now ips d) = elems ips"
  "gm_wf (r_Services (self_record now ips d))"
  by (simp_all add: self_record_def Let_def fold_update_wf)

lemma selfRegister_store:
  "\<exists>r. r_Hostname r = d_hostname d \<and> gm_wf (r_Services r) \<and> sv_store (selfRegister env now d) = AddOrUpdate now r (sv_store d)"
  by (rule exI [of _ "self_record now (snd (daemon_LocalIPs env now d)) (fst (daemon_LocalIPs env now d))"])
     (simp add: selfRegister_def split_beta Let_def)

lemma selfRegister_frame [simp]:
  "d_hostname (selfRegister env now d) = d_hostname d" "d_listener (selfRegister env now d) = d_listener d"
  by (simp_all add: selfRegister_def split_beta Let_def)

lemma AnnounceService_store:
  "\<exists>r. r_Hostname r = d_hostname d \<and> gm_wf (r_Services r) \<and> sv_store (fst (AnnounceService env now n p as d)) = AddOrUpdate now r (sv_store d)"
  using selfRegister_store [of "fst (announce_to_network env now n p as
      (d\<lparr>d_dynamicServices := d_dynamicServices d @ [\<lparr>svc_Name = n, svc_Port = p, svc_Aliases = as\<rparr>]\<rparr>))" env now]
  by (simp add: AnnounceService_def split_beta Let_def)

lemma AnnounceService_frame [simp]:
  "d_hostname (fst (AnnounceService env now n p as d)) = d_hostname d"
  "d_listener (fst (AnnounceService env now n p as d)) = d_listener d"
  by (simp_all add: AnnounceService_def split_beta Let_def)

text \<open>A change of the store that adds no record and changes no address.\<close>

inductive quiet_step :: "RecordStore \<Rightarrow> RecordStore \<Rightarrow> bool" where
  q_forget: "quiet_step rs (Forget h rs)"
| q_mark: "quiet_step rs (MarkLost h rs)"
| q_refresh: "quiet_step rs (refresh_all now rs)"
| q_cleanup: "quiet_step rs (cleanup_tick now rs)"
| q_reorder: "reordered (rs_records rs) recs \<Longrightarrow> reordered (rs_aliasIndex rs) idx \<Longrightarrow>
    quiet_step rs (rs\<lparr>rs_records := recs, rs_aliasIndex := idx\<rparr>)"

lemma quiet_is_store_step: "quiet_step rs rs' \<Longrightarrow> store_step rs rs'"
  by (erule quiet_step.cases) (auto intro: store_step.intros simp flip: ListAll_fst)

lemma quiet_entries:
  assumes "quiet_step rs rs'" and "store_inv rs" and "map_of (rs_records rs') h = Some r'"
  shows "\<exists>r. map_of (rs_records rs) h = Some r \<and> r_Addresses r' = r_Addresses r \<and> r_IsStatic r' = r_IsStatic r
    \<and> r_Services r' = r_Services r"
  using assms(1)
proof cases
  case (q_forget k)
  with assms(2,3) abs_Forget [OF assms(2), of k] show ?thesis
    by (auto simp: store_abs_def spec_remove_def fun_eq_iff split: if_splits)
next
  case (q_mark k)
  with assms(3) abs_MarkLost [of k rs] show ?thesis
    by (auto simp: store_abs_def fun_eq_iff split: if_splits)
next
  case (q_refresh now)
  with assms(3) show ?thesis by (auto simp: refresh_all_def map_of_map_snd)
next
  case (q_cleanup now)
  with assms(3) abs_cleanup [OF assms(2), of now] show ?thesis
    by (auto simp: store_abs_def spec_refresh_def spec_remove_def fun_eq_iff split: if_splits)
next
  case (q_reorder recs idx)
  with assms(2,3) show ?thesis by (auto simp: reordered_map_of store_inv_wf)
qed

lemma answer_all_quiet:
  assumes "\<And>q rs rs' rrs. f q rs = (rs', rrs) \<Longrightarrow> quiet_step\<^sup>*\<^sup>* rs rs'"
  shows "answer_all f qs rs = (rs', rrs) \<Longrightarrow> quiet_step\<^sup>*\<^sup>* rs rs'"
proof (induction qs arbitrary: rs rrs)
  case (Cons q qs)
  obtain rs1 r1 where 1: "f q rs = (rs1, r1)" by (cases "f q rs")
  obtain rs2 r2 where 2: "answer_all f qs rs1 = (rs2, r2)" by (cases "answer_all f qs rs1")
  have "rs' = rs2" using Cons.prems 1 2 by simp
  then show ?case using assms [OF 1] Cons.IH 2 by (meson rtranclp_trans)
qed simp

lemma answer_question_quiet:
  "answer_question v6 cfg (GetAllRecords now) q rs = (rs', rrs) \<Longrightarrow> quiet_step\<^sup>*\<^sup>* rs rs'"
  by (auto simp: answer_question_def handleAQuery_def handleTXTQuery_def handleSRVQuery_def handleCNAMEQuery_def
      Let_def split_beta split: if_splits intro: quiet_step.q_refresh)

lemma answer_reverse_quiet:
  "answer_reverse cfg (GetAllRecords now) q rs = (rs', rrs) \<Longrightarrow> quiet_step\<^sup>*\<^sup>* rs rs'"
  by (auto simp: answer_reverse_def handlePTRQuery_def Let_def split_beta split: if_splits intro: quiet_step.q_refresh)

text \<open>A query changes the store quietly, or it is a service announcement.\<close>

lemma handleQuery_store:
  assumes "handleQuery senv (Some announce) now query (d :: Daemon) = Some (d', rsp)"
  shows "quiet_step\<^sup>*\<^sup>* (sv_store d) (sv_store d')
       \<and> d_listener d' = d_listener d \<and> d_hostname d' = d_hostname d \<and> d_announcer d' = d_announcer d
     \<or> (\<exists>n p as. d' = fst (announce n p as d))"
proof (cases "q_Type query \<in> {HostsForget, HostsMarkLost, ServiceAnnounce}")
  case False
  then have "sv_store d' = sv_store d \<or> sv_store d' = refresh_all now (sv_store d)"
    using read_only_store [OF assms] by simp
  moreover have "d_listener d' = d_listener d \<and> d_hostname d' = d_hostname d \<and> d_announcer d' = d_announcer d"
    using assms False
    by (auto simp: handleQuery_def handleTimeForceUpdate_def handleHostsList_def handleHostsShow_def
        handleServicesList_def handleServicesShow_def Let_def split_beta split: if_splits option.splits sum.splits)
  moreover have "quiet_step\<^sup>*\<^sup>* (sv_store d) (refresh_all now (sv_store d))" by (rule r_into_rtranclp) (rule q_refresh)
  ultimately show ?thesis by auto
next
  case True
  then consider "q_Type query = HostsForget" | "q_Type query = HostsMarkLost" | "q_Type query = ServiceAnnounce" by blast
  then show ?thesis
  proof cases
    case 1
    then have "d' = fst (handleHostsForget query d)" using assms by (simp add: handleQuery_def Let_def)
    then show ?thesis
      by (auto simp: handleHostsForget_def Let_def intro: r_into_rtranclp [of quiet_step] q_forget)
  next
    case 2
    then have "d' = fst (handleHostsMarkLost query d)" using assms by (simp add: handleQuery_def Let_def)
    then show ?thesis
      by (auto simp: handleHostsMarkLost_def Let_def intro: r_into_rtranclp [of quiet_step] q_mark)
  next
    case 3
    then have "d' = fst (handleServiceAnnounce (Some announce) query d)" using assms by (simp add: handleQuery_def Let_def)
    moreover have "fst (handleServiceAnnounce (Some announce) query d)
        \<in> {d, fst (announce (q_Name query) (q_Port query) (q_Aliases query) d)}"
      by (simp add: handleServiceAnnounce_def split: prod.split option.split)
    ultimately show ?thesis by auto
  qed
qed

text \<open>
  The three ways a step can treat the store: quietly, with the announcement at the head of the
  listener's queue, or with the daemon's own record.
\<close>

lemma daemon_step_store:
  assumes "daemon_step env d d'"
  shows "quiet_step\<^sup>*\<^sup>* (sv_store d) (sv_store d')
    \<or> (\<exists>l m ms now. d_listener d = Some l \<and> l_messageChan l = m # ms
         \<and> sv_store d' = AddOrUpdate now (discovery_record m) (sv_store d))
    \<or> (\<exists>r now. r_Hostname r = d_hostname d \<and> gm_wf (r_Services r) \<and> sv_store d' = AddOrUpdate now r (sv_store d))"
  using assms
proof cases
  case (d_query now query rsp)
  show ?thesis
    using handleQuery_store [OF d_query] AnnounceService_store [of d env now] by fastforce
next
  case (d_message l m ms now)
  then show ?thesis by (auto simp: handleDiscoveryMessage_def)
next
  case (d_cleanup now)
  have "quiet_step\<^sup>*\<^sup>* (sv_store d) (cleanup_tick now (sv_store d))" by (rule r_into_rtranclp) (rule q_cleanup)
  with d_cleanup show ?thesis by simp
next
  case (d_reorder recs idx)
  have "quiet_step\<^sup>*\<^sup>* (sv_store d) ((sv_store d)\<lparr>rs_records := recs, rs_aliasIndex := idx\<rparr>)"
    by (rule r_into_rtranclp) (rule q_reorder [OF d_reorder(2,3)])
  with d_reorder show ?thesis by simp
next
  case (d_dns cfg now req store' reply)
  then have "quiet_step\<^sup>*\<^sup>* (sv_store d) store'"
    by (auto simp: dns_handleQuery_def Let_def split: prod.splits dest!: answer_all_quiet [rotated] intro: answer_question_quiet)
  with d_dns show ?thesis by simp
next
  case (d_reverse cfg now req store' reply)
  then have "quiet_step\<^sup>*\<^sup>* (sv_store d) store'"
    by (auto simp: handleReverse_def Let_def split: prod.splits dest!: answer_all_quiet [rotated] intro: answer_reverse_quiet)
  with d_reverse show ?thesis by simp
qed (simp_all add: update_announcements_def split: option.splits)

lemma daemon_step_hostname: "daemon_step env d d' \<Longrightarrow> d_hostname d' = d_hostname d"
proof (erule daemon_stepE)
  fix now query rsp
  assume "handleQuery (nv_sock env) (Some (AnnounceService env now)) now query d = Some (d', rsp)"
  from handleQuery_store [OF this] show "d_hostname d' = d_hostname d" by auto
qed (auto simp: handleDiscoveryMessage_def update_announcements_def split: option.splits)

lemma daemon_store_steps:
  assumes "daemon_step env d d'" shows "store_step\<^sup>*\<^sup>* (sv_store d) (sv_store d')"
proof -
  have "quiet_step\<^sup>*\<^sup>* \<le> store_step\<^sup>*\<^sup>*" by (rule rtranclp_mono) (auto intro: quiet_is_store_step)
  moreover have "store_step\<^sup>*\<^sup>* rs (AddOrUpdate now r rs)" for now r rs
    by (rule r_into_rtranclp) (rule store_step.st_add)
  ultimately show ?thesis using daemon_step_store [OF assms] by auto
qed

lemma New_store:
  "New ne t cfg = Inr d \<Longrightarrow> sv_store d = NewRecordStore (dc_RecordTTL (c_Daemon cfg)) (c_Health cfg) (c_StaticHosts cfg)"
  by (auto simp: New_def split: sum.splits prod.splits)

lemma Run_Inr:
  assumes "Run env sock now d = Some (Inr d')"
  shows "\<exists>r. r_Hostname r = d_hostname d \<and> gm_wf (r_Services r) \<and> sv_store d' = AddOrUpdate now r (sv_store d)"
    and "d_hostname d' = d_hostname d" and "d_listener d' = d_listener d"
proof -
  let ?d1 = "d\<lparr>d_announcer := map_option (fold (add_configured env now) (c_Services (d_config d))) (d_announcer d)\<rparr>"
  have d': "d' = selfRegister env now ?d1" using assms by (auto simp: Run_def Let_def split: if_splits sum.splits)
  show "\<exists>r. r_Hostname r = d_hostname d \<and> gm_wf (r_Services r) \<and> sv_store d' = AddOrUpdate now r (sv_store d)"
    using selfRegister_store [of ?d1 env now] unfolding d' by simp
  show "d_hostname d' = d_hostname d" "d_listener d' = d_listener d" unfolding d' by simp_all
qed

text \<open>The configured hosts, in every reachable state of the daemon.\<close>

interpretation system_ts: transition_system "daemon_init env ne cfg" "daemon_step env"
  "\<lambda>d. static_inv (c_StaticHosts cfg) (sv_store d)" for env ne cfg
proof
  fix d assume "daemon_init env ne cfg d"
  then obtain t d0 t1 where wf: "gm_wf (c_StaticHosts cfg)" and n: "New ne t cfg = Inr d0"
    and r: "Run env (Inr ()) t1 d0 = Some (Inr d)" by (auto simp: daemon_init_def)
  have "static_inv (c_StaticHosts cfg) (sv_store d0)"
    using static_ts.inv_init [of "dc_RecordTTL (c_Daemon cfg)" "c_Health cfg" "c_StaticHosts cfg"] wf
    by (simp add: New_store [OF n] store_init_def)
  with Run_Inr(1) [OF r] show "static_inv (c_StaticHosts cfg) (sv_store d)"
    using static_ts.inv_step [OF _ store_step.st_add] by metis
next
  fix d d' assume "static_inv (c_StaticHosts cfg) (sv_store d)" and "daemon_step env d d'"
  then show "static_inv (c_StaticHosts cfg) (sv_store d')"
    using static_ts.steps_inv daemon_store_steps by blast
qed

section \<open>Authenticated records\<close>

text \<open>The steps of the daemon that concern the listener are steps of the listener's own machine.\<close>

lemma daemon_step_listener:
  assumes "daemon_step env d d'"
  shows "d_listener d' = d_listener d \<or>
    (\<exists>l l'. d_listener d = Some l \<and> d_listener d' = Some l'
       \<and> listener_step (nv_dec env) (nv_mac env) (nv_marshal env) True True l l')"
  using assms
proof cases
  case (d_query now query rsp)
  then show ?thesis using handleQuery_store [OF d_query] by auto
next
  case (d_recv l now datagram l' del)
  then show ?thesis using listener_step.recv [OF d_recv(3,4)] by auto
next
  case (d_send l del l')
  then show ?thesis using listener_step.send [OF d_send(3,4)] by auto
next
  case (d_message l m ms now)
  then show ?thesis using listener_step.take_msg [OF d_message(3)] by (auto simp: handleDiscoveryMessage_def)
next
  case (d_time l ts m ms now)
  then show ?thesis using listener_step.take_time [OF TrueI d_time(4)] by auto
next
  case (d_location l ls m ms now)
  then show ?thesis using listener_step.take_loc [OF TrueI d_location(4)] by auto
next
  case (d_tidy l now)
  then show ?thesis using listener_step.tidy by auto
qed (auto simp: update_announcements_def split: option.splits)

text \<open>
  Where a record may come from when announcements must be signed: the configuration, the daemon
  itself, or an announcement with the same name and addresses that a trusted peer has signed.
\<close>

definition vouched :: "node_env \<Rightarrow> KeyManager option \<Rightarrow> string \<Rightarrow> Record \<Rightarrow> bool" where
  "vouched env km self r \<longleftrightarrow> r_IsStatic r \<or> r_Hostname r = self \<or>
     (\<exists>k m. km = Some k \<and> authentic (nv_mac env) (nv_marshal env) k (DMsg m) \<and> bm_Hostname m = r_Hostname r
        \<and> elems (bm_IPs m) = r_Addresses r)"

definition vouched_store :: "node_env \<Rightarrow> KeyManager option \<Rightarrow> string \<Rightarrow> RecordStore \<Rightarrow> bool" where
  "vouched_store env km self rs \<longleftrightarrow> store_inv rs \<and> (\<forall>h r. map_of (rs_records rs) h = Some r \<longrightarrow> vouched env km self r)"

definition signed_daemon :: "node_env \<Rightarrow> KeyManager option \<Rightarrow> string \<Rightarrow> Daemon \<Rightarrow> bool" where
  "signed_daemon env km self d \<longleftrightarrow> d_hostname d = self \<and> vouched_store env km self (sv_store d)
     \<and> (case d_listener d of None \<Rightarrow> True
         | Some l \<Rightarrow> \<exists>k. km = Some k \<and> signed_listener (nv_mac env) (nv_marshal env) k l)"

lemma vouched_quiet:
  assumes "quiet_step rs rs'" and "vouched_store env km self rs"
  shows "vouched_store env km self rs'"
proof -
  have inv: "store_inv rs" using assms(2) by (simp add: vouched_store_def)
  have inv': "store_inv rs'" using store_step_inv [OF inv quiet_is_store_step [OF assms(1)]] .
  moreover have "vouched env km self r'" if r': "map_of (rs_records rs') h = Some r'" for h r'
  proof -
    obtain r where r: "map_of (rs_records rs) h = Some r" "r_Addresses r' = r_Addresses r" "r_IsStatic r' = r_IsStatic r"
      using quiet_entries [OF assms(1) inv r'] by blast
    moreover have "r_Hostname r' = r_Hostname r"
      using store_inv_record [OF inv r(1)] store_inv_record [OF inv' r'] by simp
    ultimately show ?thesis using assms(2) by (auto simp: vouched_store_def vouched_def)
  qed
  ultimately show ?thesis by (simp add: vouched_store_def)
qed

lemma vouched_quiet_steps: "quiet_step\<^sup>*\<^sup>* rs rs' \<Longrightarrow> vouched_store env km self rs \<Longrightarrow> vouched_store env km self rs'"
  by (induction rule: rtranclp_induct) (auto intro: vouched_quiet)

lemma vouched_add:
  assumes "vouched_store env km self rs" and "vouched env km self (r\<lparr>r_IsStatic := False\<rparr>)"
  shows "vouched_store env km self (AddOrUpdate now r rs)"
proof (cases "IsStatic (rs_healthTracker rs) (r_Hostname r)")
  case True
  then show ?thesis using assms(1) by (simp add: AddOrUpdate_static)
next
  case False
  with assms show ?thesis
    by (auto simp: vouched_store_def AddOrUpdate_inv AddOrUpdate_records vouched_def split: if_splits)
qed

lemma vouched_own: "r_Hostname r = self \<Longrightarrow> vouched env km self (r\<lparr>r_IsStatic := b\<rparr>)"
  by (simp add: vouched_def)

lemma discovery_record_sel [simp]:
  "r_Hostname (discovery_record m) = bm_Hostname m" "r_Addresses (discovery_record m) = elems (bm_IPs m)"
  "gm_wf (r_Services (discovery_record m))"
  by (simp_all add: discovery_record_def fold_update_wf)

lemma signed_daemon_step:
  assumes inv: "signed_daemon env km self d" and step: "daemon_step env d d'"
  shows "signed_daemon env km self d'"
proof -
  have self: "d_hostname d = self" and store: "vouched_store env km self (sv_store d)"
    using inv by (simp_all add: signed_daemon_def)
  have head: "vouched env km self ((discovery_record m)\<lparr>r_IsStatic := False\<rparr>)"
    if "d_listener d = Some l" "l_messageChan l = m # ms" for l m ms
    using inv that by (auto simp: signed_daemon_def signed_listener_def queued_def vouched_def)
  have "vouched_store env km self (sv_store d')"
    using daemon_step_store [OF step]
  proof (elim disjE exE conjE)
    fix l m ms now assume "d_listener d = Some l" "l_messageChan l = m # ms"
      and "sv_store d' = AddOrUpdate now (discovery_record m) (sv_store d)"
    then show ?thesis using vouched_add [OF store head] by simp
  qed (use vouched_quiet_steps [OF _ store] vouched_add [OF store vouched_own] self in auto)
  moreover have "case d_listener d' of None \<Rightarrow> True
      | Some l \<Rightarrow> \<exists>k. km = Some k \<and> signed_listener (nv_mac env) (nv_marshal env) k l"
    using daemon_step_listener [OF step] inv signed_listener_step
    by (fastforce simp: signed_daemon_def split: option.splits)
  ultimately show ?thesis using daemon_step_hostname [OF step] self by (simp add: signed_daemon_def)
qed

lemma New_fields:
  assumes "New ne t cfg = Inr d"
  shows "ne_hostname ne = Inr (d_hostname d)"
    and "\<exists>km. new_keys ne (c_Security cfg) = Inr km \<and> (\<forall>l. d_listener d = Some l \<longrightarrow>
      NewListener (ne_net ne) (ne_listenSocket ne) (nc_BroadcastAddr (c_Network cfg)) km
        (sec_RequireSigned (c_Security cfg)) = Inr l)"
  using assms by (auto simp: New_def new_discovery_def split: sum.splits prod.splits if_splits)

lemma NewListener_signed:
  assumes "NewListener env listen addr km True = Inr l"
  shows "\<exists>k. km = Some k \<and> signed_listener hm marshal k l"
proof (cases km)
  case None
  then show ?thesis using assms by (simp add: NewListener_def)
next
  case (Some k)
  then show ?thesis using NewListener_fields [OF assms] by (simp add: signed_listener_def)
qed

lemma New_vouched:
  assumes "gm_wf hosts" shows "vouched_store env km self (NewRecordStore ttl cfg hosts)"
proof -
  have "store_inv (NewRecordStore ttl cfg hosts)"
    using store_init_inv [of ttl cfg hosts] assms by (simp add: store_init_def)
  with assms show ?thesis
    by (auto simp: vouched_store_def vouched_def NewRecordStore_sel map_of_map_snd)
qed

interpretation signed_system: transition_system
  "\<lambda>d. daemon_init env ne cfg d \<and> sec_RequireSigned (c_Security cfg) \<and> new_keys ne (c_Security cfg) = Inr km
     \<and> ne_hostname ne = Inr self"
  "daemon_step env" "signed_daemon env km self" for env ne cfg km self
proof
  fix d
  assume "daemon_init env ne cfg d \<and> sec_RequireSigned (c_Security cfg) \<and> new_keys ne (c_Security cfg) = Inr km
     \<and> ne_hostname ne = Inr self"
  then obtain t d0 t1 where wf: "gm_wf (c_StaticHosts cfg)" and n: "New ne t cfg = Inr d0"
    and r: "Run env (Inr ()) t1 d0 = Some (Inr d)" and req: "sec_RequireSigned (c_Security cfg)"
    and keys: "new_keys ne (c_Security cfg) = Inr km" and self: "d_hostname d0 = self"
    using New_fields(1) by (fastforce simp: daemon_init_def)
  have "vouched_store env km self (sv_store d)"
    using Run_Inr(1) [OF r] vouched_add [OF New_vouched [OF wf] vouched_own] self by (auto simp: New_store [OF n])
  then show "signed_daemon env km self d"
    using New_fields(2) [OF n] keys req NewListener_signed Run_Inr(2,3) [OF r] self
    by (fastforce simp: signed_daemon_def split: option.splits)
qed (rule signed_daemon_step)

section \<open>Services\<close>

lemma discovery_service:
  assumes "svc \<in> set (elems (bm_Services m))" and "distinct (map si_Name (elems (bm_Services m)))"
  shows "map_of (r_Services (discovery_record m)) (si_Name svc) = Some (si_Addr svc @ '':'' @ itoa (si_Port svc))"
    and "gm_wf (r_Services (discovery_record m))"
proof -
  have "\<forall>y \<in> set (elems (bm_Services m)). si_Name y = si_Name svc \<longrightarrow>
      si_Addr y @ '':'' @ itoa (si_Port y) = si_Addr svc @ '':'' @ itoa (si_Port svc)"
    using assms inj_onD [of si_Name "set (elems (bm_Services m))" _ svc] by (auto simp: distinct_map)
  then show "map_of (r_Services (discovery_record m)) (si_Name svc) = Some (si_Addr svc @ '':'' @ itoa (si_Port svc))"
    using gm.last_write_wins [OF _ assms(1), where s = "[]" and f = si_Name and g = "\<lambda>y. si_Addr y @ '':'' @ itoa (si_Port y)"]
    by (simp add: discovery_record_def)
  show "gm_wf (r_Services (discovery_record m))"
    using gm.inv_fold [of "[]" si_Name "\<lambda>y. si_Addr y @ '':'' @ itoa (si_Port y)"] by (simp add: discovery_record_def)
qed

text \<open>From an announcement to the SRV answer.\<close>

lemma discovered_service_srv:
  assumes "store_inv (sv_store d)" and "\<not> IsStatic (rs_healthTracker (sv_store d)) (bm_Hostname m)"
    and "time_Sub t (time_Unix (unix_secs now)) < hc_ExpireAfter (ht_config (rs_healthTracker (sv_store d)))"
    and "svc \<in> set (elems (bm_Services m))" and "distinct (map si_Name (elems (bm_Services m)))"
    and "CHR ''.'' \<notin> set (si_Name svc)" and "set (si_Addr svc) \<inter> set '':[]'' = {}" and "in_int64 (si_Port svc)"
    and "q = \<lparr>qu_Name = ''_'' @ si_Name svc @ ''._tcp.'' @ dsc_Domain cfg @ ''.'', qu_Qtype = TypeSRV\<rparr>"
  shows "\<exists>ttl. RR_SRV (qu_Name q) ttl 10 60 (word_of_int (si_Port svc)) (bm_Hostname m @ ''.'' @ dsc_Domain cfg @ ''.'')
    \<in> set (snd (answer_question v6 cfg (GetAllRecords t) q (sv_store (handleDiscoveryMessage now m d))))"
proof -
  let ?store = "sv_store (handleDiscoveryMessage now m d)"
  obtain rec where rec: "rec \<in> set (snd (GetAllRecords t ?store))" "dr_Hostname rec = bm_Hostname m"
      "dr_Services rec = dr_Services (dns_record (discovery_record m))"
    using stored_in_dns [OF assms(1), of "discovery_record m" t now] assms(2,3) by (auto simp: handleDiscoveryMessage_def)
  have "dns_service (si_Addr svc @ '':'' @ itoa (si_Port svc)) = \<lparr>dsi_Port = si_Port svc, dsi_Protocol = ''tcp''\<rparr>"
    using host_port_roundtrip [of "si_Addr svc" "si_Port svc"] assms(7,8) by (simp add: dns_service_def)
  then have "(si_Name svc, \<lparr>dsi_Port = si_Port svc, dsi_Protocol = ''tcp''\<rparr>) \<in> set (dr_Services rec)"
    using dns_record_service [OF discovery_service(2,1) [OF assms(4,5)]] rec(3) by simp
  then have "RR_SRV (qu_Name q) (getTTL cfg (dr_Status rec)) 10 60 (word_of_int (si_Port svc))
        (bm_Hostname m @ ''.'' @ dsc_Domain cfg @ ''.'')
      \<in> set (srv_answers cfg (qu_Name q) (si_Name svc) ''tcp'' (dsc_Domain cfg @ ''.'') rec)"
    using rec(2) by (force simp: srv_answers_def)
  moreover have "snd (answer_question v6 cfg (GetAllRecords t) q ?store) =
      concat (map (srv_answers cfg (qu_Name q) (si_Name svc) ''tcp'' (dsc_Domain cfg @ ''.'')) (snd (GetAllRecords t ?store)))"
    using srv_query_name [of "si_Name svc" "''tcp''" q "dsc_Domain cfg" cfg "GetAllRecords t" ?store] assms(6,9)
    by (simp add: answer_question_def split_beta Let_def)
  ultimately show ?thesis using rec(1) by auto
qed

text \<open>A host announced without services has no SRV answer, even if it had services before.\<close>

lemma no_service_no_srv:
  assumes "store_inv (sv_store d)" and "\<not> IsStatic (rs_healthTracker (sv_store d)) (bm_Hostname m)"
    and "elems (bm_Services m) = []" and "CHR ''.'' \<notin> set name"
    and "q = \<lparr>qu_Name = ''_'' @ name @ ''._tcp.'' @ dsc_Domain cfg @ ''.'', qu_Qtype = TypeSRV\<rparr>"
  shows "RR_SRV n ttl pr w p (bm_Hostname m @ ''.'' @ dsc_Domain cfg @ ''.'')
    \<notin> set (snd (answer_question v6 cfg (GetAllRecords t) q (sv_store (handleDiscoveryMessage now m d))))"
proof -
  let ?store = "sv_store (handleDiscoveryMessage now m d)"
  have inv: "store_inv ?store"
    using AddOrUpdate_inv [OF assms(1)] by (simp add: handleDiscoveryMessage_def)
  have "map_of (rs_records ?store) (bm_Hostname m) = Some (stored_record (rs_healthTracker (sv_store d)) (rs_ttl (sv_store d))
      now (discovery_record m) (map_of (rs_records (sv_store d)) (bm_Hostname m)))"
    using AddOrUpdate_records [of "sv_store d" "discovery_record m" now] assms(2)
    by (simp add: handleDiscoveryMessage_def discovery_record_def)
  then have "dr_Services rec = []"
    if "rec \<in> set (snd (GetAllRecords t ?store))" "dr_Hostname rec = bm_Hostname m" for rec
    using that store_inv_record [OF inv] assms(3)
    by (auto simp: GetAllRecords_in [OF inv] dns_record_def stored_record_def discovery_record_def)
  moreover have "snd (answer_question v6 cfg (GetAllRecords t) q ?store) =
      concat (map (srv_answers cfg (qu_Name q) name ''tcp'' (dsc_Domain cfg @ ''.'')) (snd (GetAllRecords t ?store)))"
    using srv_query_name [of name "''tcp''" q "dsc_Domain cfg" cfg "GetAllRecords t" ?store] assms(4,5)
    by (simp add: answer_question_def split_beta Let_def)
  ultimately show ?thesis by (auto simp: srv_answers_def)
qed

lemma set_add_aliases [simp]: "set (add_aliases new acc) = set new \<union> set acc"
proof -
  have "set (foldl (\<lambda>acc alias. if alias \<in> set acc then acc else acc @ [alias]) acc new) = set new \<union> set acc"
    by (induction new arbitrary: acc) auto
  then show ?thesis by (simp add: add_aliases_def)
qed

lemma fold_aliases: "set (fold (\<lambda>svc. add_aliases (f svc)) svcs acc) = (\<Union>svc \<in> set svcs. set (f svc)) \<union> set acc"
  by (induction svcs arbitrary: acc) auto

lemma self_record_aliases:
  "set (r_Aliases (self_record now ips d)) = (\<Union>svc \<in> set (c_Services (d_config d) @ d_dynamicServices d). set (svc_Aliases svc))"
  by (auto simp: self_record_def Let_def fold_aliases)

text \<open>The record that an announced service leaves in the daemon's own store.\<close>

lemma AnnounceService_self:
  "\<exists>r. r_Hostname r = d_hostname d \<and> set as \<subseteq> set (r_Aliases r)
     \<and> sv_store (fst (AnnounceService env now n p as d)) = AddOrUpdate now r (sv_store d)"
proof -
  let ?d1 = "d\<lparr>d_dynamicServices := d_dynamicServices d @ [\<lparr>svc_Name = n, svc_Port = p, svc_Aliases = as\<rparr>]\<rparr>"
  let ?d2 = "fst (announce_to_network env now n p as ?d1)"
  let ?r = "self_record now (snd (daemon_LocalIPs env now ?d2)) (fst (daemon_LocalIPs env now ?d2))"
  have "set as \<subseteq> set (r_Aliases ?r)" by (auto simp: self_record_aliases)
  then show ?thesis
    by (intro exI [of _ ?r]) (simp add: AnnounceService_def selfRegister_def split_beta Let_def)
qed

text \<open>The names that the announcer announces.\<close>

definition announced_names :: "Daemon \<Rightarrow> string set" where
  "announced_names d = (case d_announcer d of None \<Rightarrow> {} | Some a \<Rightarrow> fst ` set (a_services a))"

lemma getCachedInterfaces_services [simp]: "a_services (fst (getCachedInterfaces env now a)) = a_services a"
  by (simp add: getCachedInterfaces_def split: sum.splits)

lemma getLocalIPs_services [simp]: "a_services (fst (getLocalIPs env now a)) = a_services a"
  by (simp add: getLocalIPs_def split_beta Let_def)

lemma sendAnnouncement_services [simp]: "a_services (fst (sendAnnouncement env hm marshal rnd now a)) = a_services a"
  by (simp add: sendAnnouncement_def createAnnouncement_def split_beta Let_def split: sum.splits)

lemma broadcast_services [simp]: "a_services (fst (broadcast env hm marshal rnd now a)) = a_services a"
  by (simp add: broadcast_def split_beta Let_def)

lemma AddService_keys [simp]: "fst ` set (a_services (AddService n p addr as a)) = insert n (fst ` set (a_services a))"
  by (simp add: AddService_def dom_update)

lemma announce_names:
  "announced_names (fst (AnnounceService env now n p as d)) = (if d_announcer d = None then {} else insert n (announced_names d))"
  by (auto simp: AnnounceService_def selfRegister_def daemon_LocalIPs_def announce_to_network_def announced_names_def
      BroadcastNow_def broadcastUnlimited_def split_beta Let_def split: option.splits)

lemma update_names: "announced_names d \<subseteq> announced_names (update_announcements d)"
proof -
  have "fst ` set (a_services a) \<subseteq> fst ` set (a_services (fold (\<lambda>svc. AddService (ds_Name svc) (ds_Port svc) (ds_Addr svc) []) svcs a))"
    for svcs :: "DetectedService list" and a :: Announcer
  proof (induction svcs arbitrary: a)
    case (Cons svc svcs)
    from Cons.IH [of "AddService (ds_Name svc) (ds_Port svc) (ds_Addr svc) [] a"] show ?case by simp
  qed simp
  then show ?thesis by (simp add: update_announcements_def announced_names_def split: option.splits)
qed

lemma daemon_step_names:
  assumes "daemon_step env d d'" shows "announced_names d \<subseteq> announced_names d'"
  using assms
proof cases
  case (d_query now query rsp)
  from handleQuery_store [OF d_query] show ?thesis
    by (auto simp: announced_names_def [of d] announce_names) (auto simp: announced_names_def split: option.splits)
next
  case d_update
  then show ?thesis by (simp add: update_names)
next
  case (d_broadcast a now a' sent)
  then have "a_services a' = a_services a"
    using broadcast_services [of "nv_net env" "nv_mac env" "nv_marshal env" "nv_rnd env" now a] by simp
  with d_broadcast show ?thesis by (simp add: announced_names_def)
qed (simp_all add: announced_names_def handleDiscoveryMessage_def)

lemma daemon_steps_names: "(daemon_step env)\<^sup>*\<^sup>* d d' \<Longrightarrow> announced_names d \<subseteq> announced_names d'"
  by (induction rule: rtranclp_induct) (auto dest: daemon_step_names)

section \<open>A running daemon, for the witnesses\<close>

text \<open>
  A node \<open>b\<close> with one configured host that requires signatures and trusts the node \<open>a\<close>; the
  wire format and the MAC are those of the witnesses for the listener.
\<close>

definition demo_config :: Config where
  "demo_config = zero_Config\<lparr>
     c_Health := demo_health, c_StaticHosts := demo_hosts,
     c_Daemon := (c_Daemon zero_Config)\<lparr>dc_BroadcastInterval := 30 * Second\<rparr>,
     c_Network := (c_Network zero_Config)\<lparr>nc_BroadcastAddr := ''255.255.255.255:5354''\<rparr>,
     c_Discovery := (c_Discovery zero_Config)\<lparr>disc_Enabled := True\<rparr>,
     c_Security := (c_Security zero_Config)\<lparr>sec_Enabled := True, sec_RequireSigned := True, sec_KeyPath := ''k''\<rparr>\<rparr>"

definition demo_new_env :: new_env where
  "demo_new_env = \<lparr>ne_hostname = Inr ''b'', ne_readFile = (\<lambda>p. if p = ''k'' then FileData ''keys'' else FileNotExist),
     ne_keyFile = (\<lambda>_. Inr \<lparr>kf_PublicKey = [], kf_PrivateKey = [], kf_SharedSecret = ''other'', kf_NodeID = ''node-b'',
        kf_TrustedPeers = [(''node-b'', ''other''), (''node-a'', ''s3cret'')], kf_PublicKeys = []\<rparr>),
     ne_peersFile = (\<lambda>_. Inl ''unused''), ne_rnd1 = Inl ''unused'', ne_rnd2 = Inl ''unused'', ne_net = demo_env,
     ne_announceSocket = Inr (), ne_listenSocket = Inr ()\<rparr>"

definition demo_node :: node_env where
  "demo_node = \<lparr>nv_net = demo_env, nv_mac = demo_mac, nv_rnd = Inr ''0a'', nv_dec = demo_dec, nv_dial = (\<lambda>_. None),
     nv_sock = demo_sock_env, nv_v6 = (\<lambda>_. None), nv_reply = (\<lambda>m. m)\<rparr>"

lemma demo_keys: "new_keys demo_new_env (c_Security demo_config) = Inr (Some (demo_verifier\<lparr>km_keyPath := ''k''\<rparr>))"
  by (simp add: new_keys_def demo_config_def NewKeyManager_def loadOrGenerateKeys_def parseKeyData_def file_result_def
      demo_new_env_def demo_verifier_def zero_Config_def Let_def)

abbreviation demo_self :: KeyManager where
  "demo_self \<equiv> demo_verifier\<lparr>km_keyPath := ''k''\<rparr>"

lemma demo_New:
  "\<exists>d. New demo_new_env 0 demo_config = Inr d \<and> d_listener d = Some (demo_listener (Some demo_self) True)
     \<and> d_hostname d = ''b'' \<and> \<not> start_panics d \<and> sv_store d = NewRecordStore 0 demo_health demo_hosts"
  unfolding New_def demo_keys
  by (simp add: demo_new_env_def demo_config_def zero_Config_def new_discovery_def NewAnnouncer_def NewListener_def
      demo_split demo_env_def demo_listener_def start_panics_def ticker_panics_def NewRecordStore_def NewHealthTracker_def
      cleanup_interval_def demo_health_def Let_def)

lemma demo_init:
  "\<exists>d. daemon_init demo_node demo_new_env demo_config d \<and> d_listener d = Some (demo_listener (Some demo_self) True)
     \<and> d_hostname d = ''b'' \<and> (\<exists>r. r_Hostname r = ''b'' \<and> sv_store d = AddOrUpdate 0 r (NewRecordStore 0 demo_health demo_hosts))"
proof -
  obtain d0 where d0: "New demo_new_env 0 demo_config = Inr d0" "d_listener d0 = Some (demo_listener (Some demo_self) True)"
    "d_hostname d0 = ''b''" "\<not> start_panics d0" "sv_store d0 = NewRecordStore 0 demo_health demo_hosts"
    using demo_New by blast
  then obtain d where d: "Run demo_node (Inr ()) 0 d0 = Some (Inr d)" by (simp add: Run_def Let_def)
  then have "daemon_init demo_node demo_new_env demo_config d"
    using d0(1) by (auto simp: daemon_init_def demo_config_def demo_hosts_def)
  with Run_Inr [OF d] d0 show ?thesis by (intro exI [of _ d]) auto
qed

lemma demo_daemon_store:
  "\<exists>d :: Daemon. store_inv (sv_store d) \<and> rs_healthTracker (sv_store d) = NewHealthTracker demo_health demo_hosts"
proof -
  obtain d r0 where store: "sv_store (d :: Daemon) = AddOrUpdate 0 r0 (NewRecordStore 0 demo_health demo_hosts)"
    using demo_init by blast
  have "store_inv (sv_store d)"
    using AddOrUpdate_inv [OF store_init_inv [of 0 demo_health demo_hosts]] by (simp add: store store_init_def demo_hosts_def)
  moreover have "rs_healthTracker (sv_store d) = NewHealthTracker demo_health demo_hosts"
    by (simp add: store NewRecordStore_sel demo_hosts_def)
  ultimately show ?thesis by blast
qed

end
