(* ===== verification/Cli.thy ===== *)
theory Cli
  imports Daemon
begin

text \<open>
  The command line: the validation of its arguments (\<^verbatim>\<open>cmd/disco/internal/cli/validation.go\<close>) and
  the command that announces a host without a daemon (\<^verbatim>\<open>cmd/disco/commands/announce.go\<close>). The
  regular expressions of the code are terms of a small syntax with a matcher by derivatives;
  all of them are anchored at both ends.
\<close>

section \<open>Regular expressions\<close>

type_synonym char_class = "(char \<times> char) list"

text \<open>A character class is a list of ranges.\<close>

definition in_class :: "char_class \<Rightarrow> char \<Rightarrow> bool" where
  "in_class cs c = list_ex (\<lambda>(a, b). of_char a \<le> (of_char c :: nat) \<and> of_char c \<le> (of_char b :: nat)) cs"

datatype regex = RNull | REps | RChars char_class | RSeq regex regex | RAlt regex regex | RStar regex

fun nullable :: "regex \<Rightarrow> bool" where
  "nullable RNull = False"
| "nullable REps = True"
| "nullable (RChars cs) = False"
| "nullable (RSeq r s) = (nullable r \<and> nullable s)"
| "nullable (RAlt r s) = (nullable r \<or> nullable s)"
| "nullable (RStar r) = True"

fun deriv :: "char \<Rightarrow> regex \<Rightarrow> regex" where
  "deriv c RNull = RNull"
| "deriv c REps = RNull"
| "deriv c (RChars cs) = (if in_class cs c then REps else RNull)"
| "deriv c (RSeq r s) = (if nullable r then RAlt (RSeq (deriv c r) s) (deriv c s) else RSeq (deriv c r) s)"
| "deriv c (RAlt r s) = RAlt (deriv c r) (deriv c s)"
| "deriv c (RStar r) = RSeq (deriv c r) (RStar r)"

definition MatchString :: "regex \<Rightarrow> string \<Rightarrow> bool" where
  "MatchString r s = nullable (fold deriv s r)"

definition az :: char_class where "az = [(CHR ''a'', CHR ''z'')]"
definition az09 :: char_class where "az09 = [(CHR ''a'', CHR ''z''), (CHR ''0'', CHR ''9'')]"
definition az09h :: char_class where "az09h = [(CHR ''a'', CHR ''z''), (CHR ''0'', CHR ''9''), (CHR ''-'', CHR ''-'')]"
definition d09af :: char_class where "d09af = [(CHR ''0'', CHR ''9''), (CHR ''a'', CHR ''f'')]"
definition d09afAF :: char_class where "d09afAF = [(CHR ''0'', CHR ''9''), (CHR ''a'', CHR ''f''), (CHR ''A'', CHR ''F'')]"

text \<open>\<^verbatim>\<open>[a-z0-9]([a-z0-9-]*[a-z0-9])?\<close>, \<^verbatim>\<open>[0-9a-fA-F]+\<close>, \<^verbatim>\<open>[0-9a-f]+\<close> and \<^verbatim>\<open>[a-z][a-z0-9-]*[a-z0-9]\<close>.\<close>

definition labelRegex :: regex where
  "labelRegex = RSeq (RChars az09) (RAlt REps (RSeq (RStar (RChars az09h)) (RChars az09)))"

definition hexKeyRegex :: regex where
  "hexKeyRegex = RSeq (RChars d09afAF) (RStar (RChars d09afAF))"

definition hexRe :: regex where
  "hexRe = RSeq (RChars d09af) (RStar (RChars d09af))"

definition serviceRegex :: regex where
  "serviceRegex = RSeq (RChars az) (RSeq (RStar (RChars az09h)) (RChars az09))"

section \<open>Validation\<close>

definition MaxHostnameLength :: nat where "MaxHostnameLength = 253"
definition MaxLabelLength :: nat where "MaxLabelLength = 63"
definition cli_HexKeyLength :: nat where "cli_HexKeyLength = 64"

text \<open>
  \<^verbatim>\<open>strings.ToLower\<close> on UTF-8 bytes, as far as the label pattern can tell: of the letters beyond
  ASCII only the Kelvin sign and the dotted capital I have ASCII lower-case letters; all others stay
  beyond ASCII and are left as they are here.
\<close>

definition lower_char :: "char \<Rightarrow> char" where
  "lower_char c = (if 65 \<le> (of_char c :: nat) \<and> of_char c \<le> (90 :: nat) then char_of (of_char c + 32 :: nat) else c)"

fun ToLower :: "string \<Rightarrow> string" where
  "ToLower [] = []"
| "ToLower (c # s) =
     (if c = CHR 0xE2 \<and> take 2 s = [CHR 0x84, CHR 0xAA] then CHR ''k'' # ToLower (drop 2 s)
      else if c = CHR 0xC4 \<and> take 1 s = [CHR 0xB0] then CHR ''i'' # ToLower (drop 1 s)
      else lower_char c # ToLower s)"

fun validate_labels :: "string list \<Rightarrow> string option" where
  "validate_labels [] = None"
| "validate_labels (part # parts) =
     (if length part = 0 \<or> length part > MaxLabelLength then Some ''hostname label must be 1-63 characters''
      else if \<not> MatchString labelRegex (ToLower part) then Some ''hostname contains invalid characters''
      else validate_labels parts)"

definition ValidateHostname :: "string \<Rightarrow> string option" where
  "ValidateHostname hostname =
     (if length hostname = 0 then Some ''hostname cannot be empty''
      else if length hostname > MaxHostnameLength then Some ''hostname too long (max 253 characters)''
      else validate_labels (split_on CHR ''.'' hostname))"

definition cli_ValidateHexKey :: "string \<Rightarrow> nat \<Rightarrow> string option" where
  "cli_ValidateHexKey key expectedLen =
     (if length key \<noteq> expectedLen
      then Some (''key must be '' @ itoa (int expectedLen) @ '' hex characters, got '' @ itoa (int (length key)))
      else if \<not> MatchString hexKeyRegex key then Some ''key must be hexadecimal''
      else None)"

definition IsHexPrefix :: "string \<Rightarrow> bool" where
  "IsHexPrefix s = (if length s = 0 \<or> length s \<ge> 32 then False else MatchString hexRe s)"

definition ValidateBroadcastAddr :: "(string \<Rightarrow> IP option) \<Rightarrow> string \<Rightarrow> string option" where
  "ValidateBroadcastAddr v6 addr =
     (case SplitHostPort addr of
        Inl err \<Rightarrow> Some (''invalid address format: address '' @ addr @ '': '' @ addr_error_text err)
      | Inr (host, port) \<Rightarrow>
          if ParseIP v6 host = None then Some ''invalid IP address''
          else (case Atoi port of
                  (_, False) \<Rightarrow> Some ''invalid port number''
                | (portNum, True) \<Rightarrow>
                    if portNum < 1 \<or> portNum > 65535 then Some ''port must be between 1 and 65535'' else None))"

text \<open>\<open>stat\<close> says whether the path is a regular file and its permissions; the second result is the warning.\<close>

definition ValidateConfigPath :: "(string \<Rightarrow> string + string) \<Rightarrow> (string \<Rightarrow> string + bool \<times> int) \<Rightarrow> string \<Rightarrow> string option \<times> bool" where
  "ValidateConfigPath abs_path stat path =
     (case abs_path path of
        Inl err \<Rightarrow> (Some (''cannot resolve path: '' @ err), False)
      | Inr absPath \<Rightarrow>
          (case stat absPath of
             Inl err \<Rightarrow> (Some (''cannot access config: '' @ err), False)
           | Inr (regular, perm) \<Rightarrow>
               if \<not> regular then (Some ''config must be a regular file'', False)
               else (None, perm AND 2 \<noteq> 0)))"

definition ValidatePort :: "int \<Rightarrow> string option" where
  "ValidatePort port = (if port < 1 \<or> port > 65535 then Some ''port must be between 1 and 65535'' else None)"

definition ValidatePingTarget :: "(string \<Rightarrow> IP option) \<Rightarrow> string \<Rightarrow> string option" where
  "ValidatePingTarget v6 target =
     (if length target = 0 then Some ''target cannot be empty''
      else if length target > MaxHostnameLength then Some ''target too long (max 253 characters)''
      else if ParseIP v6 target \<noteq> None then None
      else ValidateHostname target)"

definition ValidateServiceName :: "string \<Rightarrow> string option" where
  "ValidateServiceName name =
     (if length name = 0 then Some ''service name cannot be empty''
      else if length name > MaxLabelLength then Some ''service name too long (max 63 characters)''
      else if \<not> MatchString serviceRegex name
        then Some ''service name must be lowercase alphanumeric with hyphens, starting with a letter''
      else None)"

section \<open>The announce command\<close>

record AnnounceArgs =
  an_Addr :: string
  an_Hostname :: string
  an_Interval :: duration
  an_Count :: int
  an_Port :: int
  an_Service :: string
  an_Aliases :: "string list"

definition validateAnnounceArgs :: "AnnounceArgs \<Rightarrow> string option" where
  "validateAnnounceArgs a =
     (if an_Hostname a = [] then Some ''hostname is required''
      else (case ValidateHostname (an_Hostname a) of
              Some err \<Rightarrow> Some (''invalid hostname: '' @ err)
            | None \<Rightarrow>
                if an_Service a \<noteq> [] \<and> an_Port a = 0 then Some ''port is required when service is specified''
                else if an_Port a > 0 \<and> an_Service a = [] then Some ''service is required when port is specified''
                else (case (if an_Service a \<noteq> [] then ValidateServiceName (an_Service a) else None) of
                        Some err \<Rightarrow> Some (''invalid service name: '' @ err)
                      | None \<Rightarrow>
                          (case (if an_Port a > 0 then ValidatePort (an_Port a) else None) of
                             Some err \<Rightarrow> Some (''invalid port: '' @ err)
                           | None \<Rightarrow> None))))"

definition buildServices :: "AnnounceArgs \<Rightarrow> ServiceInfo slice" where
  "buildServices a =
     (if an_Service a \<noteq> [] \<and> an_Port a > 0
      then Some [\<lparr>si_Name = an_Service a, si_Port = an_Port a, si_Addr = [], si_Aliases = an_Aliases a\<rparr>]
      else None)"

definition createBroadcastMessage :: "time \<Rightarrow> AnnounceArgs \<Rightarrow> string list \<Rightarrow> ServiceInfo slice \<Rightarrow> BroadcastMessage" where
  "createBroadcastMessage now a ips services =
     \<lparr>bm_Type = MessageAnnounce, bm_MessageID = ''announce-'' @ itoa now, bm_Timestamp = unix_secs now,
      bm_Hostname = an_Hostname a, bm_MachineID = [], bm_IPs = Some ips, bm_Services = services, bm_Signature = None,
      bm_TTL = 3600\<rparr>"

fun announce_ip :: "net_addr \<Rightarrow> string list" where
  "announce_ip (IPNet ip msk) = (case To4 ip of Some ip4 \<Rightarrow> if IsLoopback ip then [] else [ip4_String ip4] | None \<Rightarrow> [])"
| "announce_ip (IPAddr ip) = (case To4 ip of Some ip4 \<Rightarrow> if IsLoopback ip then [] else [ip4_String ip4] | None \<Rightarrow> [])"
| "announce_ip OtherAddr = []"

definition cli_getLocalIPs :: "net_env \<Rightarrow> string + string list" where
  "cli_getLocalIPs env =
     (case ne_Interfaces env of
        Inl err \<Rightarrow> Inl err
      | Inr interfaces \<Rightarrow>
          let ips = concat (map (\<lambda>iface.
                if if_Flags iface AND FlagLoopback \<noteq> 0 \<or> if_Flags iface AND FlagUp = 0 then []
                else case ne_Addrs env iface of Inl _ \<Rightarrow> [] | Inr addrs \<Rightarrow> concat (map announce_ip addrs)) interfaces)
          in Inr (if ips = [] then [''127.0.0.1''] else ips))"

text \<open>
  \<^verbatim>\<open>sendAnnouncements\<close>: the data written, for the ticks of the timer until an interrupt. The
  message is stamped anew at every tick; the first datagram is the one already encoded.
\<close>

fun announce_ticks :: "(json \<Rightarrow> string) \<Rightarrow> int \<Rightarrow> int \<Rightarrow> time list \<Rightarrow> BroadcastMessage \<Rightarrow> string list" where
  "announce_ticks marshal announceCount announcements [] msg = []"
| "announce_ticks marshal announceCount announcements (now # ticks) msg =
     (if announceCount > 0 \<and> announcements \<ge> announceCount then []
      else let msg1 = msg\<lparr>bm_Timestamp := unix_secs now, bm_MessageID := ''announce-'' @ itoa now\<rparr>
           in marshal (json_BroadcastMessage msg1) # announce_ticks marshal announceCount (announcements + 1) ticks msg1)"

definition sendAnnouncements :: "(json \<Rightarrow> string) \<Rightarrow> AnnounceArgs \<Rightarrow> time list \<Rightarrow> string \<Rightarrow> BroadcastMessage \<Rightarrow> string list" where
  "sendAnnouncements marshal a ticks data msg = data # announce_ticks marshal (an_Count a) 1 ticks msg"

text \<open>The command: \<open>None\<close> is the panic of \<^verbatim>\<open>time.NewTicker\<close> for an interval that is not positive.\<close>

definition runAnnounce :: "net_env \<Rightarrow> marshaller \<Rightarrow> (string + unit) \<Rightarrow> time \<Rightarrow> time list \<Rightarrow> AnnounceArgs \<Rightarrow> (string + string list) option" where
  "runAnnounce env marshal dial now ticks a =
     (case validateAnnounceArgs a of
        Some err \<Rightarrow> Some (Inl err)
      | None \<Rightarrow>
          (case cli_getLocalIPs env of
             Inl err \<Rightarrow> Some (Inl (''error getting local IPs: '' @ err))
           | Inr ips \<Rightarrow>
               let msg = createBroadcastMessage now a ips (buildServices a)
               in (case marshal (json_BroadcastMessage msg) of
                     Inl err \<Rightarrow> Some (Inl (''error marshaling message: '' @ err))
                   | Inr data \<Rightarrow>
                       (case ne_resolve env (an_Addr a) of
                          Inl err \<Rightarrow> Some (Inl (''error resolving address: '' @ err))
                        | Inr _ \<Rightarrow>
                            (case dial of
                               Inl err \<Rightarrow> Some (Inl (''error creating UDP connection: '' @ err))
                             | Inr _ \<Rightarrow>
                                 if an_Interval a \<le> 0 then None
                                 else Some (Inr (sendAnnouncements (marshalled marshal) a ticks data msg)))))))"

section \<open>Lemmas on regular expressions\<close>

inductive_set star :: "string set \<Rightarrow> string set" for A :: "string set" where
  star_Nil: "[] \<in> star A"
| star_app: "u \<in> A \<Longrightarrow> v \<in> star A \<Longrightarrow> u @ v \<in> star A"

fun lang :: "regex \<Rightarrow> string set" where
  "lang RNull = {}"
| "lang REps = {[]}"
| "lang (RChars cs) = {[c] |c. in_class cs c}"
| "lang (RSeq r s) = {u @ v |u v. u \<in> lang r \<and> v \<in> lang s}"
| "lang (RAlt r s) = lang r \<union> lang s"
| "lang (RStar r) = star (lang r)"

lemma nullable_lang: "nullable r \<longleftrightarrow> [] \<in> lang r"
  by (induction r) (auto intro: star_Nil)

lemma star_Cons: "c # s \<in> star A \<longleftrightarrow> (\<exists>u v. s = u @ v \<and> c # u \<in> A \<and> v \<in> star A)"
proof
  show "\<exists>u v. s = u @ v \<and> c # u \<in> A \<and> v \<in> star A" if "c # s \<in> star A"
    using that
  proof (induction "c # s" rule: star.induct)
    case (star_app u v)
    then show ?case by (cases u) auto
  qed
  show "c # s \<in> star A" if "\<exists>u v. s = u @ v \<and> c # u \<in> A \<and> v \<in> star A"
    using that star_app [of "c # _"] by fastforce
qed

lemma seq_Cons:
  "(\<exists>u v. c # s = u @ v \<and> u \<in> A \<and> v \<in> B) \<longleftrightarrow>
     ([] \<in> A \<and> c # s \<in> B) \<or> (\<exists>u v. s = u @ v \<and> c # u \<in> A \<and> v \<in> B)" (is "?l \<longleftrightarrow> ?r")
proof
  assume ?l
  then obtain u v where "c # s = u @ v" "u \<in> A" "v \<in> B" by blast
  then show ?r by (cases u) auto
next
  assume ?r
  then show ?l
  proof
    assume "\<exists>u v. s = u @ v \<and> c # u \<in> A \<and> v \<in> B"
    then obtain u v where "c # s = (c # u) @ v" "c # u \<in> A" "v \<in> B" by auto
    then show ?l by blast
  next
    assume "[] \<in> A \<and> c # s \<in> B"
    then show ?l by (intro exI [of _ "[]"] exI [of _ "c # s"]) simp
  qed
qed

lemma deriv_lang: "s \<in> lang (deriv c r) \<longleftrightarrow> c # s \<in> lang r"
proof (induction r arbitrary: s)
  case (RSeq r1 r2)
  then show ?case using seq_Cons [of c s "lang r1" "lang r2"] by (auto simp: nullable_lang)
qed (auto simp: star_Cons)

lemma MatchString_lang: "MatchString r s \<longleftrightarrow> s \<in> lang r"
  unfolding MatchString_def
  by (induction s arbitrary: r) (simp_all add: nullable_lang deriv_lang)

lemma lang_star_chars: "lang (RStar (RChars cs)) = {s. list_all (in_class cs) s}"
proof (rule set_eqI)
  fix s show "s \<in> lang (RStar (RChars cs)) \<longleftrightarrow> s \<in> {s. list_all (in_class cs) s}"
    by (induction s) (auto simp: star_Cons intro: star_Nil)
qed

lemma lang_seq_chars: "c # s \<in> lang (RSeq (RChars cs) r) \<longleftrightarrow> in_class cs c \<and> s \<in> lang r"
  using seq_Cons [of c s "lang (RChars cs)" "lang r"] by auto

lemma lang_chars_last:
  "s \<in> lang (RSeq (RStar (RChars cs)) (RChars ds)) \<longleftrightarrow> s \<noteq> [] \<and> list_all (in_class cs) (butlast s) \<and> in_class ds (last s)"
proof -
  have "s \<in> lang (RSeq (RStar (RChars cs)) (RChars ds)) \<longleftrightarrow> (\<exists>u c. s = u @ [c] \<and> list_all (in_class cs) u \<and> in_class ds c)"
    using lang_star_chars [of cs] by auto
  also have "\<dots> \<longleftrightarrow> s \<noteq> [] \<and> list_all (in_class cs) (butlast s) \<and> in_class ds (last s)"
    by (cases s rule: rev_cases) auto
  finally show ?thesis .
qed

lemma az09_hyphen: "in_class az09 c \<Longrightarrow> in_class az09h c"
  by (auto simp: in_class_def az09_def az09h_def)

lemma az_az09: "in_class az c \<Longrightarrow> in_class az09 c"
  by (auto simp: in_class_def az09_def az_def)

lemma label_lang:
  "s \<in> lang labelRegex \<longleftrightarrow> s \<noteq> [] \<and> in_class az09 (hd s) \<and> in_class az09 (last s) \<and> list_all (in_class az09h) s"
proof (cases s)
  case Nil
  then show ?thesis by (auto simp: labelRegex_def)
next
  case (Cons c t)
  have "s \<in> lang labelRegex \<longleftrightarrow> in_class az09 c \<and>
      (t = [] \<or> t \<noteq> [] \<and> list_all (in_class az09h) (butlast t) \<and> in_class az09 (last t))"
    unfolding Cons labelRegex_def lang_seq_chars lang.simps(5) Un_iff lang_chars_last by simp
  then show ?thesis by (cases t rule: rev_cases) (auto simp: Cons az09_hyphen)
qed

lemma service_lang:
  "s \<in> lang serviceRegex \<longleftrightarrow> 2 \<le> length s \<and> in_class az (hd s) \<and> in_class az09 (last s) \<and> list_all (in_class az09h) s"
proof (cases s)
  case Nil
  then show ?thesis by (auto simp: serviceRegex_def)
next
  case (Cons c t)
  have "s \<in> lang serviceRegex \<longleftrightarrow> in_class az c \<and> t \<noteq> [] \<and> list_all (in_class az09h) (butlast t) \<and> in_class az09 (last t)"
    unfolding Cons serviceRegex_def lang_seq_chars lang_chars_last by simp
  then show ?thesis by (cases t rule: rev_cases) (auto simp: Cons az09_hyphen az_az09)
qed

lemma plus_lang: "s \<in> lang (RSeq (RChars cs) (RStar (RChars cs))) \<longleftrightarrow> s \<noteq> [] \<and> list_all (in_class cs) s"
proof (cases s)
  case (Cons c t)
  show ?thesis unfolding Cons lang_seq_chars lang_star_chars by auto
qed auto

section \<open>Lemmas on validation\<close>

lemma validate_labels_None:
  "validate_labels parts = None \<longleftrightarrow>
     (\<forall>p \<in> set parts. 1 \<le> length p \<and> length p \<le> 63 \<and> MatchString labelRegex (ToLower p))"
  by (induction parts) (auto simp: MaxLabelLength_def Suc_le_eq)

text \<open>Host names in ASCII.\<close>

definition ascii :: "string \<Rightarrow> bool" where
  "ascii s = list_all (\<lambda>c. (of_char c :: nat) < 128) s"

definition letter_digit :: "char \<Rightarrow> bool" where
  "letter_digit c = in_class [(CHR ''A'', CHR ''Z''), (CHR ''a'', CHR ''z''), (CHR ''0'', CHR ''9'')] c"

lemma ToLower_ascii: "ascii s \<Longrightarrow> ToLower s = map lower_char s"
proof (induction s)
  case (Cons c s)
  have "c \<noteq> CHR 0xE2" "c \<noteq> CHR 0xC4" using Cons.prems by (auto simp: ascii_def)
  with Cons show ?case by (simp add: ascii_def)
qed simp

lemma of_lower_char:
  "(of_char (lower_char c) :: nat) = (if 65 \<le> (of_char c :: nat) \<and> of_char c \<le> (90 :: nat) then of_char c + 32 else of_char c)"
  by (simp add: lower_char_def)

lemma lower_letter_digit: "in_class az09 (lower_char c) \<longleftrightarrow> letter_digit c"
  by (auto simp: in_class_def az09_def letter_digit_def of_lower_char)

lemma lower_hyphen: "in_class az09h (lower_char c) \<longleftrightarrow> letter_digit c \<or> of_char c = (45 :: nat)"
  by (auto simp: in_class_def az09h_def letter_digit_def of_lower_char)

definition rfc_label :: "string \<Rightarrow> bool" where
  "rfc_label p \<longleftrightarrow> 1 \<le> length p \<and> length p \<le> 63 \<and> letter_digit (hd p) \<and> letter_digit (last p)
     \<and> list_all (\<lambda>c. letter_digit c \<or> c = CHR ''-'') p"

lemma hyphen_code: "of_char c = (45 :: nat) \<longleftrightarrow> c = CHR ''-''"
  using of_char_eq_iff [of c "CHR ''-''", where 'a = nat] by simp

lemma label_ascii:
  assumes "ascii p"
  shows "1 \<le> length p \<and> length p \<le> 63 \<and> MatchString labelRegex (ToLower p) \<longleftrightarrow> rfc_label p"
proof (cases "p = []")
  case False
  with assms show ?thesis
    by (simp add: MatchString_lang label_lang rfc_label_def ToLower_ascii hd_map last_map lower_letter_digit list.pred_map comp_def
        lower_hyphen hyphen_code)
qed (simp add: rfc_label_def)

text \<open>
  Host names beyond ASCII. The characters of a label are the ASCII letters and digits, the hyphen and
  the two letters beyond ASCII whose lower case is an ASCII letter, the Kelvin sign and the capital I
  with a dot.
\<close>

definition kelvin_sign :: string where
  "kelvin_sign = [CHR 0xE2, CHR 0x84, CHR 0xAA]"

definition dotted_I :: string where
  "dotted_I = [CHR 0xC4, CHR 0xB0]"

definition alnum_char :: "string \<Rightarrow> bool" where
  "alnum_char u \<longleftrightarrow> (\<exists>c. u = [c] \<and> letter_digit c) \<or> u = kelvin_sign \<or> u = dotted_I"

definition accepted_label :: "string \<Rightarrow> bool" where
  "accepted_label p \<longleftrightarrow> length p \<le> 63 \<and> (\<exists>us. p = concat us \<and> us \<noteq> [] \<and> alnum_char (hd us) \<and> alnum_char (last us)
     \<and> list_all (\<lambda>u. alnum_char u \<or> u = ''-'') us)"

text \<open>How the lowering of a text takes it apart.\<close>

fun chars_of :: "string \<Rightarrow> string list" where
  "chars_of [] = []"
| "chars_of (c # s) =
     (if c = CHR 0xE2 \<and> take 2 s = [CHR 0x84, CHR 0xAA] then kelvin_sign # chars_of (drop 2 s)
      else if c = CHR 0xC4 \<and> take 1 s = [CHR 0xB0] then dotted_I # chars_of (drop 1 s)
      else [c] # chars_of s)"

definition lower_of :: "string \<Rightarrow> char" where
  "lower_of u = (if u = kelvin_sign then CHR ''k'' else if u = dotted_I then CHR ''i'' else lower_char (hd u))"

lemma lower_of_simps [simp]:
  "lower_of kelvin_sign = CHR ''k''" "lower_of dotted_I = CHR ''i''" "lower_of [c] = lower_char c"
  by (simp_all add: lower_of_def kelvin_sign_def dotted_I_def)

lemma concat_chars_of [simp]: "concat (chars_of s) = s"
proof (induction s rule: chars_of.induct)
  case (2 c s)
  then show ?case
    using append_take_drop_id [of 2 s] append_take_drop_id [of 1 s]
    by (auto simp: kelvin_sign_def dotted_I_def simp del: append_take_drop_id)
qed simp

lemma ToLower_chars_of: "ToLower s = map lower_of (chars_of s)"
  by (induction s rule: chars_of.induct) simp_all

lemma chars_of_shape: "u \<in> set (chars_of s) \<Longrightarrow> u = kelvin_sign \<or> u = dotted_I \<or> (\<exists>c. u = [c])"
  by (induction s rule: chars_of.induct) (auto split: if_splits)

lemma lower_of_class:
  assumes "u \<in> set (chars_of s)"
  shows "in_class az09 (lower_of u) \<longleftrightarrow> alnum_char u" and "in_class az09h (lower_of u) \<longleftrightarrow> alnum_char u \<or> u = ''-''"
proof -
  have other: "u = [c] \<Longrightarrow> u \<noteq> kelvin_sign \<and> u \<noteq> dotted_I" for c
    by (simp add: kelvin_sign_def dotted_I_def)
  have special: "kelvin_sign \<noteq> ''-''" "dotted_I \<noteq> ''-''" by (simp_all add: kelvin_sign_def dotted_I_def)
  have k: "in_class az09 CHR ''k''" "in_class az09 CHR ''i''" "in_class az09h CHR ''k''" "in_class az09h CHR ''i''"
    by (simp_all add: in_class_def az09_def az09h_def)
  consider "u = kelvin_sign" | "u = dotted_I" | c where "u = [c]" using chars_of_shape [OF assms] by blast
  then show "in_class az09 (lower_of u) \<longleftrightarrow> alnum_char u" and "in_class az09h (lower_of u) \<longleftrightarrow> alnum_char u \<or> u = ''-''"
    by (cases; use other in \<open>simp add: alnum_char_def k special lower_letter_digit lower_hyphen hyphen_code\<close>)+
qed

lemma chars_of_concat: "list_all (\<lambda>u. alnum_char u \<or> u = ''-'') us \<Longrightarrow> chars_of (concat us) = us"
proof (induction us)
  case (Cons u us)
  have "c \<noteq> CHR 0xE2 \<and> c \<noteq> CHR 0xC4" if "letter_digit c" for c
    using that by (auto simp: letter_digit_def in_class_def)
  with Cons show ?case
    by (auto simp: alnum_char_def kelvin_sign_def dotted_I_def)
qed simp

lemma label_accepted:
  "1 \<le> length p \<and> length p \<le> 63 \<and> MatchString labelRegex (ToLower p) \<longleftrightarrow> accepted_label p"
proof
  assume l: "1 \<le> length p \<and> length p \<le> 63 \<and> MatchString labelRegex (ToLower p)"
  then have ne: "chars_of p \<noteq> []" by (cases p) simp_all
  with l have "in_class az09 (lower_of (hd (chars_of p)))" "in_class az09 (lower_of (last (chars_of p)))"
    "list_all (in_class az09h) (map lower_of (chars_of p))"
    by (simp_all add: MatchString_lang label_lang ToLower_chars_of hd_map last_map)
  then have "alnum_char (hd (chars_of p))" "alnum_char (last (chars_of p))"
    "list_all (\<lambda>u. alnum_char u \<or> u = ''-'') (chars_of p)"
    using lower_of_class(1) [OF hd_in_set [OF ne]] lower_of_class(1) [OF last_in_set [OF ne]]
    by (simp_all add: list_all_iff lower_of_class(2))
  with l ne show "accepted_label p"
    unfolding accepted_label_def by (intro conjI exI [of _ "chars_of p"]) simp_all
next
  assume "accepted_label p"
  then obtain us where us: "length p \<le> 63" "p = concat us" "us \<noteq> []" "alnum_char (hd us)" "alnum_char (last us)"
      "list_all (\<lambda>u. alnum_char u \<or> u = ''-'') us"
    by (auto simp: accepted_label_def)
  then have c: "chars_of p = us" using chars_of_concat by simp
  then have "ToLower p \<in> lang labelRegex"
    using us(3-6) lower_of_class [of _ p]
    by (simp add: label_lang ToLower_chars_of hd_map last_map list_all_iff)
  moreover have "p \<noteq> []" using c us(3) by auto
  ultimately show "1 \<le> length p \<and> length p \<le> 63 \<and> MatchString labelRegex (ToLower p)"
    using us(1) by (simp add: MatchString_lang Suc_le_eq)
qed

lemma split_on_set: "p \<in> set (split_on c s) \<Longrightarrow> set p \<subseteq> set s"
  by (induction s arbitrary: p) (fastforce split: if_splits list.splits)+

lemma service_name_plain:
  assumes "ValidateServiceName n = None" shows "CHR ''.'' \<notin> set n" and "n \<noteq> []" and "length n \<le> 63"
proof -
  have v: "n \<in> lang serviceRegex" "n \<noteq> []" "length n \<le> 63"
    using assms by (auto simp: ValidateServiceName_def MatchString_lang MaxLabelLength_def split: if_splits)
  show "n \<noteq> []" "length n \<le> 63" by fact+
  have "list_all (in_class az09h) n" using v(1) by (simp add: service_lang)
  moreover have "\<not> in_class az09h CHR ''.''" by (simp add: in_class_def az09h_def)
  ultimately show "CHR ''.'' \<notin> set n" by (auto simp: list_all_iff)
qed

lemma announce_ticks_length:
  "length (announce_ticks marshal announceCount k ticks msg) =
     (if announceCount > 0 then min (length ticks) (nat (announceCount - k)) else length ticks)"
proof (induction ticks arbitrary: k msg)
  case (Cons now ticks)
  show ?case
  proof (cases "announceCount > 0 \<and> k \<ge> announceCount")
    case False
    then have "announceCount > 0 \<Longrightarrow> nat (announceCount - k) = Suc (nat (announceCount - (k + 1)))" by linarith
    with False Cons.IH [of "k + 1"] show ?thesis by (simp add: Let_def)
  qed auto
qed simp

section \<open>Properties\<close>

text \<open>C38: Which byte strings the command line accepts as host names, exactly: those of one to 253 bytes whose
  labels have one to 63 bytes, are made of ASCII letters, digits, hyphens, Kelvin signs and capital I with dot, and
  neither begin nor end with a hyphen. Among the names in ASCII these are exactly the ones of RFC 1123: labels of
  letters, digits and hyphens that neither begin nor end with a hyphen.\<close>

theorem hostname_validation_exact:
  "(ValidateHostname h = None \<longleftrightarrow> 1 \<le> length h \<and> length h \<le> 253 \<and> list_all accepted_label (split_on CHR ''.'' h))
   \<and> (ascii h \<longrightarrow>
      (ValidateHostname h = None \<longleftrightarrow> 1 \<le> length h \<and> length h \<le> 253 \<and> list_all rfc_label (split_on CHR ''.'' h)))"
proof (intro conjI impI)
  have "validate_labels (split_on CHR ''.'' h) = None \<longleftrightarrow> list_all accepted_label (split_on CHR ''.'' h)"
    unfolding validate_labels_None list_all_iff using label_accepted by blast
  then show "ValidateHostname h = None \<longleftrightarrow> 1 \<le> length h \<and> length h \<le> 253 \<and> list_all accepted_label (split_on CHR ''.'' h)"
    by (auto simp: ValidateHostname_def MaxHostnameLength_def Suc_le_eq)
next
  assume "ascii h"
  then have "ascii p" if "p \<in> set (split_on CHR ''.'' h)" for p
    using split_on_set [OF that] by (auto simp: ascii_def list_all_iff)
  then have "validate_labels (split_on CHR ''.'' h) = None \<longleftrightarrow> list_all rfc_label (split_on CHR ''.'' h)"
    unfolding validate_labels_None list_all_iff using label_ascii by blast
  then show "ValidateHostname h = None \<longleftrightarrow> 1 \<le> length h \<and> length h \<le> 253 \<and> list_all rfc_label (split_on CHR ''.'' h)"
    by (auto simp: ValidateHostname_def MaxHostnameLength_def Suc_le_eq)
qed

theorem hostname_validation_exact_witness:
  "ValidateHostname ''web-1.lan'' = None \<and> ValidateHostname ''-web'' \<noteq> None
   \<and> ValidateHostname (kelvin_sign @ ''.lan'') = None"
proof (intro conjI)
  have "ascii ''web-1.lan''" "ascii ''-web''" by (simp_all add: ascii_def)
  then show "ValidateHostname ''web-1.lan'' = None" "ValidateHostname ''-web'' \<noteq> None"
    using conjunct2 [OF hostname_validation_exact [of "''web-1.lan''"]]
      conjunct2 [OF hostname_validation_exact [of "''-web''"]]
    by (simp_all add: rfc_label_def letter_digit_def in_class_def)
  have "accepted_label kelvin_sign"
    unfolding accepted_label_def
    by (intro conjI exI [of _ "[kelvin_sign]"]) (simp_all add: alnum_char_def kelvin_sign_def)
  moreover have "accepted_label ''lan''"
    unfolding accepted_label_def
    by (intro conjI exI [of _ "[''l'', ''a'', ''n'']"]) (simp_all add: alnum_char_def letter_digit_def in_class_def)
  ultimately show "ValidateHostname (kelvin_sign @ ''.lan'') = None"
    using hostname_validation_exact [of "kelvin_sign @ ''.lan''"] by (simp add: kelvin_sign_def)
qed

text \<open>A name beyond ASCII can pass: the Kelvin sign becomes the letter k when it is lowered, so the three
  bytes of that sign are accepted as a host name.\<close>

theorem kelvin_hostname_accepted:
  "ValidateHostname [CHR 0xE2, CHR 0x84, CHR 0xAA] = None \<and> \<not> ascii [CHR 0xE2, CHR 0x84, CHR 0xAA]"
proof
  have "ToLower [CHR 0xE2, CHR 0x84, CHR 0xAA] = ''k''" by simp
  moreover have "MatchString labelRegex ''k''"
    by (simp add: MatchString_lang label_lang in_class_def az09_def az09h_def)
  ultimately show "ValidateHostname [CHR 0xE2, CHR 0x84, CHR 0xAA] = None"
    by (simp add: ValidateHostname_def MaxHostnameLength_def MaxLabelLength_def)
qed (simp add: ascii_def)

text \<open>The announce command sends as many announcements as it is told: with a positive count \<open>n\<close> it writes
  \<open>n\<close> datagrams when the timer ticks often enough, never more, and without a count one per tick after the first.\<close>

theorem announce_count_respected:
  "length (sendAnnouncements marshal a ticks data msg) =
     (if an_Count a > 0 then min (length ticks + 1) (nat (an_Count a)) else length ticks + 1)"
  by (cases "an_Count a > 0") (auto simp: sendAnnouncements_def announce_ticks_length)

text \<open>The two validators of hexadecimal keys agree: the pattern of the command line and the loop of the key
  file accept the same keys.\<close>

theorem hex_key_validators_agree:
  assumes "1 \<le> n" shows "cli_ValidateHexKey key n = None \<longleftrightarrow> validateHexKey key n = None"
proof -
  have "in_class d09afAF c = is_hex c" for c by (auto simp: in_class_def d09afAF_def is_hex_def)
  moreover have "MatchString hexKeyRegex key \<longleftrightarrow> key \<noteq> [] \<and> list_all (in_class d09afAF) key"
    unfolding MatchString_lang hexKeyRegex_def by (rule plus_lang)
  ultimately show ?thesis using assms by (auto simp: cli_ValidateHexKey_def validateHexKey_def list_all_iff)
qed

theorem hex_key_validators_agree_witness:
  "cli_ValidateHexKey ''0aF9'' 4 = None \<and> cli_ValidateHexKey ''0ag9'' 4 \<noteq> None"
  using hex_key_validators_agree [of 4 "''0aF9''"] hex_key_validators_agree [of 4 "''0ag9''"]
  by (simp add: validateHexKey_def is_hex_def)

text \<open>C28: From the command line to DNS: the arguments that \<^verbatim>\<open>disco announce\<close> accepts for a service make a
  message after which a daemon gives an SRV answer for the service on this host exactly if the port is positive, and
  then the answer carries that port. A negative port is accepted too, but then nothing is announced and the daemon has
  no SRV answer for the host. This holds for a host that is not configured on the daemon and until its record expires.
  The validation of the arguments is what makes the name of the service findable in the query name.\<close>

theorem cli_announced_service_in_dns:
  assumes "validateAnnounceArgs a = None" and "an_Service a \<noteq> []"
    and "store_inv (sv_store d)" and "\<not> IsStatic (rs_healthTracker (sv_store d)) (an_Hostname a)"
    and "time_Sub t (time_Unix (unix_secs now)) < hc_ExpireAfter (ht_config (rs_healthTracker (sv_store d)))"
    and "q = \<lparr>qu_Name = ''_'' @ an_Service a @ ''._tcp.'' @ dsc_Domain cfg @ ''.'', qu_Qtype = TypeSRV\<rparr>"
    and "rrs = set (snd (answer_question v6 cfg (GetAllRecords t) q
        (sv_store (handleDiscoveryMessage now (createBroadcastMessage sent a ips (buildServices a)) d))))"
    and "target = an_Hostname a @ ''.'' @ dsc_Domain cfg @ ''.''"
  shows "((\<exists>ttl pr w p. RR_SRV (qu_Name q) ttl pr w p target \<in> rrs) \<longleftrightarrow> 0 < an_Port a)
    \<and> (0 < an_Port a \<longrightarrow> (\<exists>ttl. RR_SRV (qu_Name q) ttl 10 60 (word_of_int (an_Port a)) target \<in> rrs))"
proof -
  let ?svc = "\<lparr>si_Name = an_Service a, si_Port = an_Port a, si_Addr = [], si_Aliases = an_Aliases a\<rparr>"
  let ?m = "createBroadcastMessage sent a ips (buildServices a)"
  have "ValidateServiceName (an_Service a) = None"
    using assms(1,2) by (auto simp: validateAnnounceArgs_def split: if_splits option.splits)
  then have name: "CHR ''.'' \<notin> set (an_Service a)" by (rule service_name_plain(1))
  have yes: "\<exists>ttl. RR_SRV (qu_Name q) ttl 10 60 (word_of_int (an_Port a)) target \<in> rrs" if pos: "0 < an_Port a"
  proof -
    have "in_int64 (an_Port a)"
      using assms(1) pos by (auto simp: validateAnnounceArgs_def ValidatePort_def split: if_splits option.splits)
    with discovered_service_srv [of d ?m t now ?svc q cfg v6] name pos assms(2-8) show ?thesis
      by (simp add: createBroadcastMessage_def buildServices_def elems_def)
  qed
  moreover have "RR_SRV (qu_Name q) ttl pr w p target \<notin> rrs" if "\<not> 0 < an_Port a" for ttl pr w p
    using no_service_no_srv [of d ?m "an_Service a" q cfg "qu_Name q" ttl pr w p v6 t now] name that assms(3-8)
    by (simp add: createBroadcastMessage_def buildServices_def elems_def)
  ultimately show ?thesis by blast
qed

definition demo_args :: AnnounceArgs where
  "demo_args = \<lparr>an_Addr = ''255.255.255.255:5354'', an_Hostname = ''nas'', an_Interval = 30 * Second, an_Count = 0, an_Port = 8080,
     an_Service = ''http-alt'', an_Aliases = []\<rparr>"

theorem cli_announced_service_in_dns_witness:
  "\<exists>(d :: Daemon). (\<exists>ttl. RR_SRV ''_http-alt._tcp.disco.'' ttl 10 60 8080 ''nas.disco.''
     \<in> set (snd (answer_question (\<lambda>_. None) demo_dns (GetAllRecords (1200 * Second))
         \<lparr>qu_Name = ''_http-alt._tcp.disco.'', qu_Qtype = TypeSRV\<rparr>
         (sv_store (handleDiscoveryMessage (1200 * Second)
            (createBroadcastMessage (1200 * Second) demo_args [''10.0.0.5''] (buildServices demo_args)) d)))))
   \<and> validateAnnounceArgs (demo_args\<lparr>an_Port := -1\<rparr>) = None
   \<and> (\<nexists>ttl pr w p. RR_SRV ''_http-alt._tcp.disco.'' ttl pr w p ''nas.disco.''
     \<in> set (snd (answer_question (\<lambda>_. None) demo_dns (GetAllRecords (1200 * Second))
         \<lparr>qu_Name = ''_http-alt._tcp.disco.'', qu_Qtype = TypeSRV\<rparr>
         (sv_store (handleDiscoveryMessage (1200 * Second)
            (createBroadcastMessage (1200 * Second) (demo_args\<lparr>an_Port := -1\<rparr>) [''10.0.0.5'']
               (buildServices (demo_args\<lparr>an_Port := -1\<rparr>))) d)))))"
proof -
  obtain d :: Daemon where inv: "store_inv (sv_store d)"
    and ht: "rs_healthTracker (sv_store d) = NewHealthTracker demo_health demo_hosts"
    using demo_daemon_store by blast
  have v: "validateAnnounceArgs demo_args = None" "validateAnnounceArgs (demo_args\<lparr>an_Port := -1\<rparr>) = None"
    by code_simp+
  have ns: "\<not> IsStatic (NewHealthTracker demo_health demo_hosts) ''nas''" by (simp add: IsStatic_New demo_hosts_def)
  note facts = ht demo_args_def demo_dns_def demo_new(5) time_Sub_def time_Unix_def unix_secs_def clamp64_def
  from cli_announced_service_in_dns [OF v(1) _ inv _ _ refl refl refl,
      of "1200 * Second" "1200 * Second" demo_dns "\<lambda>_. None" "1200 * Second" "[''10.0.0.5'']"] ns
  have "\<exists>ttl. RR_SRV ''_http-alt._tcp.disco.'' ttl 10 60 8080 ''nas.disco.''
     \<in> set (snd (answer_question (\<lambda>_. None) demo_dns (GetAllRecords (1200 * Second))
         \<lparr>qu_Name = ''_http-alt._tcp.disco.'', qu_Qtype = TypeSRV\<rparr>
         (sv_store (handleDiscoveryMessage (1200 * Second)
            (createBroadcastMessage (1200 * Second) demo_args [''10.0.0.5''] (buildServices demo_args)) d))))"
    by (simp add: facts)
  moreover from cli_announced_service_in_dns [OF v(2) _ inv _ _ refl refl refl,
      of "1200 * Second" "1200 * Second" demo_dns "\<lambda>_. None" "1200 * Second" "[''10.0.0.5'']"] ns
  have "\<nexists>ttl pr w p. RR_SRV ''_http-alt._tcp.disco.'' ttl pr w p ''nas.disco.''
     \<in> set (snd (answer_question (\<lambda>_. None) demo_dns (GetAllRecords (1200 * Second))
         \<lparr>qu_Name = ''_http-alt._tcp.disco.'', qu_Qtype = TypeSRV\<rparr>
         (sv_store (handleDiscoveryMessage (1200 * Second)
            (createBroadcastMessage (1200 * Second) (demo_args\<lparr>an_Port := -1\<rparr>) [''10.0.0.5'']
               (buildServices (demo_args\<lparr>an_Port := -1\<rparr>))) d))))"
    by (simp add: facts)
  ultimately show ?thesis using v(2) by blast
qed

end
