(* ===== verification/Logging.thy ===== *)
theory Logging
  imports Config
begin

text \<open>
  Logging (\<^verbatim>\<open>internal/logging/logging.go\<close>), its configuration by the daemon
  (\<^verbatim>\<open>cmd/daemon/main.go\<close>) and the notification of systemd
  (\<^verbatim>\<open>internal/notify/notify.go\<close>). The package variables are the record \<open>log_state\<close>. A
  call returns the lines it writes, each with its destination and without the line end and the
  date that the standard logger adds; the time stamp, \<^verbatim>\<open>json.Marshal\<close> and
  the rendering of the field values are arguments of the caller. The default logger of the
  standard library, which the text format uses, writes to the standard error.
\<close>

datatype LogLevel = DEBUG | INFO | WARN | ERROR | FATAL

fun level_rank :: "LogLevel \<Rightarrow> nat" where
  "level_rank DEBUG = 0"
| "level_rank INFO = 1"
| "level_rank WARN = 2"
| "level_rank ERROR = 3"
| "level_rank FATAL = 4"

fun level_String :: "LogLevel \<Rightarrow> string" where
  "level_String DEBUG = ''DEBUG''"
| "level_String INFO = ''INFO''"
| "level_String WARN = ''WARN''"
| "level_String ERROR = ''ERROR''"
| "level_String FATAL = ''FATAL''"

instantiation LogLevel :: linorder
begin

definition less_eq_LogLevel :: "LogLevel \<Rightarrow> LogLevel \<Rightarrow> bool" where
  "less_eq_LogLevel a b = (level_rank a \<le> level_rank b)"

definition less_LogLevel :: "LogLevel \<Rightarrow> LogLevel \<Rightarrow> bool" where
  "less_LogLevel a b = (level_rank a < level_rank b)"

instance
proof
  fix a b :: LogLevel assume "a \<le> b" "b \<le> a"
  then show "a = b" by (cases a; cases b) (simp_all add: less_eq_LogLevel_def)
qed (auto simp: less_eq_LogLevel_def less_LogLevel_def)

end

record LogConfig =
  lc_Level :: LogLevel
  lc_Format :: string
  lc_File :: string

datatype sink = Stdout | Stderr | LogFile string

record log_state =
  currentLevel :: LogLevel
  jsonLog :: "sink option"

definition log_init :: log_state where
  "log_init = \<lparr>currentLevel = INFO, jsonLog = None\<rparr>"

text \<open>\<open>open_file\<close> is the result of opening the file. The level is set before the file is opened.\<close>

definition Setup :: "(string \<Rightarrow> string option) \<Rightarrow> LogConfig \<Rightarrow> log_state \<Rightarrow> log_state \<times> string option" where
  "Setup open_file cfg s =
     (let s1 = s\<lparr>currentLevel := lc_Level cfg\<rparr>
      in case (if lc_File cfg \<noteq> [] then (case open_file (lc_File cfg) of Some err \<Rightarrow> Inl err | None \<Rightarrow> Inr (LogFile (lc_File cfg)))
               else Inr Stdout) of
           Inl err \<Rightarrow> (s1, Some (''failed to open log file: '' @ err))
         | Inr out \<Rightarrow> (if lc_Format cfg = ''json'' then s1\<lparr>jsonLog := Some out\<rparr> else s1, None))"

text \<open>The fields of a message as pairs of name and rendered value, in the order of the iteration.\<close>

type_synonym log_fields = "(string, string) gomap"

definition formatMessage :: "string \<Rightarrow> log_fields \<Rightarrow> string" where
  "formatMessage msg flds =
     (if flds = [] then msg
      else msg @ '' ['' @ join_with '', '' (map (\<lambda>(k, v). k @ ''='' @ v) flds) @ '']'')"

text \<open>A JSON entry: the message fields are written over the three standard ones.\<close>

definition json_entry :: "string \<Rightarrow> LogLevel \<Rightarrow> string \<Rightarrow> log_fields \<Rightarrow> (string, string) gomap" where
  "json_entry timestamp level msg flds =
     fold (\<lambda>(k, v). AList.update k v) flds
       [(''timestamp'', timestamp), (''level'', level_String level), (''message'', msg)]"

definition log_line :: "((string, string) gomap \<Rightarrow> string) \<Rightarrow> string \<Rightarrow> LogLevel \<Rightarrow> string \<Rightarrow> log_fields \<Rightarrow> log_state
    \<Rightarrow> (sink \<times> string) list" where
  "log_line marshal timestamp level msg flds s =
     (case jsonLog s of
        Some out \<Rightarrow> [(out, marshal (json_entry timestamp level msg flds))]
      | None \<Rightarrow> [(Stderr, ''['' @ level_String level @ ''] '' @ formatMessage msg flds)])"

definition log_Debug :: "((string, string) gomap \<Rightarrow> string) \<Rightarrow> string \<Rightarrow> string \<Rightarrow> log_fields \<Rightarrow> log_state \<Rightarrow> (sink \<times> string) list" where
  "log_Debug marshal ts msg flds s = (if currentLevel s > DEBUG then [] else log_line marshal ts DEBUG msg flds s)"

definition log_Info :: "((string, string) gomap \<Rightarrow> string) \<Rightarrow> string \<Rightarrow> string \<Rightarrow> log_fields \<Rightarrow> log_state \<Rightarrow> (sink \<times> string) list" where
  "log_Info marshal ts msg flds s = (if currentLevel s > INFO then [] else log_line marshal ts INFO msg flds s)"

definition log_Warn :: "((string, string) gomap \<Rightarrow> string) \<Rightarrow> string \<Rightarrow> string \<Rightarrow> log_fields \<Rightarrow> log_state \<Rightarrow> (sink \<times> string) list" where
  "log_Warn marshal ts msg flds s = (if currentLevel s > WARN then [] else log_line marshal ts WARN msg flds s)"

definition log_Error :: "((string, string) gomap \<Rightarrow> string) \<Rightarrow> string \<Rightarrow> string \<Rightarrow> string option \<Rightarrow> log_fields \<Rightarrow> log_state
    \<Rightarrow> (sink \<times> string) list" where
  "log_Error marshal ts msg err flds s =
     (if currentLevel s > ERROR then []
      else log_line marshal ts ERROR msg (case err of None \<Rightarrow> flds | Some e \<Rightarrow> AList.update ''error'' e flds) s)"

text \<open>The lines written before the exit.\<close>

definition log_Fatal :: "((string, string) gomap \<Rightarrow> string) \<Rightarrow> string \<Rightarrow> string \<Rightarrow> string option \<Rightarrow> log_state
    \<Rightarrow> (sink \<times> string) list" where
  "log_Fatal marshal ts msg err s =
     (case jsonLog s of
        Some out \<Rightarrow> [(out, marshal (json_entry ts FATAL msg (case err of None \<Rightarrow> [] | Some e \<Rightarrow> [(''error'', e)])))]
      | None \<Rightarrow> [(Stderr, ''[FATAL] '' @ msg @ '' '' @ (case err of None \<Rightarrow> ''<nil>'' | Some e \<Rightarrow> e))])"

section \<open>Configuration\<close>

definition parseLogLevel :: "string \<Rightarrow> LogLevel" where
  "parseLogLevel level =
     (if level = ''debug'' then DEBUG
      else if level = ''info'' then INFO
      else if level = ''warn'' then WARN
      else if level = ''error'' then ERROR
      else if level = ''fatal'' then FATAL
      else INFO)"

definition setupLogging :: "(string \<Rightarrow> string option) \<Rightarrow> Config \<Rightarrow> log_state \<Rightarrow> log_state \<times> string option" where
  "setupLogging open_file cfg s =
     Setup open_file \<lparr>lc_Level = parseLogLevel (lg_Level (c_Logging cfg)), lc_Format = lg_Format (c_Logging cfg),
       lc_File = lg_File (c_Logging cfg)\<rparr> s"

section \<open>Notification\<close>

text \<open>The datagram sent to the service manager: socket name (a leading zero byte for an abstract one) and payload.\<close>

definition notify_send :: "string \<Rightarrow> string \<Rightarrow> (string \<times> string) option" where
  "notify_send notifySocket payload =
     (if notifySocket = [] then None
      else Some (if HasPrefix notifySocket ''@'' then CHR 0x00 # drop 1 notifySocket else notifySocket, payload))"

definition notify_Ready :: "string \<Rightarrow> (string \<times> string) option" where
  "notify_Ready notifySocket = notify_send notifySocket (''READY=1'' @ [CHR 0x0A])"

definition notify_Stopping :: "string \<Rightarrow> (string \<times> string) option" where
  "notify_Stopping notifySocket = notify_send notifySocket (''STOPPING=1'' @ [CHR 0x0A])"

section \<open>Properties\<close>

text \<open>Every validated level is applied: after logging has been set up from a configuration that passes the
  validation, a call writes exactly one line if its level is at least the configured one, and nothing
  otherwise; a fatal error is always written.\<close>

theorem configured_level_applied:
  assumes "validateLogging cfg = None" and "setupLogging open_file cfg log_init = (s, None)"
  shows "length (log_Debug marshal ts msg flds s) = (if lg_Level (c_Logging cfg) = ''debug'' then 1 else 0)
    \<and> length (log_Info marshal ts msg flds s) = (if lg_Level (c_Logging cfg) \<in> {[], ''debug'', ''info''} then 1 else 0)
    \<and> length (log_Warn marshal ts msg flds s) = (if lg_Level (c_Logging cfg) \<in> {''error'', ''fatal''} then 0 else 1)
    \<and> length (log_Error marshal ts msg e flds s) = (if lg_Level (c_Logging cfg) = ''fatal'' then 0 else 1)
    \<and> length (log_Fatal marshal ts msg e s) = 1"
proof -
  have "currentLevel s = parseLogLevel (lg_Level (c_Logging cfg))"
    using assms(2) by (auto simp: setupLogging_def Setup_def Let_def split: if_splits option.splits sum.splits)
  moreover have "length (log_line marshal ts lv msg fl s) = 1" for lv fl by (simp add: log_line_def split: option.split)
  moreover have "lg_Level (c_Logging cfg) \<in> {[], ''debug'', ''info'', ''warn'', ''error'', ''fatal''}"
    using assms(1) by (auto simp: validateLogging_def validLevels_def Let_def split: if_splits)
  ultimately show ?thesis
    by (auto simp: log_Debug_def log_Info_def log_Warn_def log_Error_def log_Fatal_def parseLogLevel_def less_LogLevel_def
        split: option.split)
qed

theorem configured_level_applied_witness:
  "\<exists>s. length (log_Info (concat \<circ> map snd) ''now'' ''up'' [] s) = 0 \<and> length (log_Warn (concat \<circ> map snd) ''now'' ''up'' [] s) = 1"
proof -
  let ?cfg = "zero_Config\<lparr>c_Logging := \<lparr>lg_Level = ''warn'', lg_Format = ''json'', lg_File = []\<rparr>\<rparr>"
  have "validateLogging ?cfg = None" by (simp add: validateLogging_def validLevels_def)
  moreover have "setupLogging (\<lambda>_. None) ?cfg log_init = (log_init\<lparr>currentLevel := WARN, jsonLog := Some Stdout\<rparr>, None)"
    by (simp add: setupLogging_def Setup_def parseLogLevel_def Let_def)
  ultimately show ?thesis using configured_level_applied [of ?cfg] by fastforce
qed

text \<open>A log file is only used with the JSON format: with the text format the file is opened, but every line
  still goes to the standard error.\<close>

theorem text_log_file_unused:
  assumes "lg_Format (c_Logging cfg) = ''text''" and "setupLogging open_file cfg log_init = (s, None)"
    and "line \<in> set (log_Debug marshal ts msg flds s @ log_Info marshal ts msg flds s @ log_Warn marshal ts msg flds s
      @ log_Error marshal ts msg e flds s)"
  shows "fst line = Stderr"
proof -
  have "jsonLog s = None"
    using assms(1,2) by (auto simp: setupLogging_def Setup_def log_init_def Let_def split: if_splits option.splits sum.splits)
  then show ?thesis
    using assms(3) by (auto simp: log_Debug_def log_Info_def log_Warn_def log_Error_def log_line_def split: if_splits)
qed

theorem text_log_file_unused_witness:
  "(let cfg = zero_Config\<lparr>c_Logging := \<lparr>lg_Level = ''info'', lg_Format = ''text'', lg_File = ''/var/log/disco.log''\<rparr>\<rparr>;
        s = fst (setupLogging (\<lambda>_. None) cfg log_init)
    in map fst (log_Info (concat \<circ> map snd) ''now'' ''up'' [] s) = [Stderr])"
proof -
  let ?cfg = "zero_Config\<lparr>c_Logging := \<lparr>lg_Level = ''info'', lg_Format = ''text'', lg_File = ''/var/log/disco.log''\<rparr>\<rparr>"
  have s: "setupLogging (\<lambda>_. None) ?cfg log_init = (log_init, None)"
    by (simp add: setupLogging_def Setup_def parseLogLevel_def log_init_def Let_def)
  have l: "length (log_Info (concat \<circ> map snd) ''now'' ''up'' [] log_init) = 1" by (simp add: log_Info_def log_init_def log_line_def)
  then obtain x where x: "log_Info (concat \<circ> map snd) ''now'' ''up'' [] log_init = [x]" by (auto simp: length_Suc_conv)
  have "x \<in> set (log_Debug (concat \<circ> map snd) ''now'' ''up'' [] log_init @ log_Info (concat \<circ> map snd) ''now'' ''up'' [] log_init
      @ log_Warn (concat \<circ> map snd) ''now'' ''up'' [] log_init @ log_Error (concat \<circ> map snd) ''now'' ''up'' None [] log_init)"
    by (simp add: x)
  from text_log_file_unused [OF _ s this] have "fst x = Stderr" by simp
  with x s show ?thesis by (simp add: Let_def)
qed

end
