(* ===== verification/Cli_Output.thy ===== *)
theory Cli_Output
  imports Cli Logging
begin

text \<open>
  Output of the command line tool (\<^verbatim>\<open>cmd/disco/internal/cli/output.go\<close>,
  \<^verbatim>\<open>errors.go\<close>): colours, tables, errors. What a command writes is a list of pieces, each
  with its destination; \<open>tty\<close> says whether the standard output is a terminal. Of \<^verbatim>\<open>fmt\<close>
  the padded string, the fixed-point number and the lists are defined here.
\<close>

section \<open>Formatting\<close>

type_synonym written = "(sink \<times> string) list"

abbreviation nl :: string where "nl \<equiv> [CHR 0x0A]"

definition print_out :: "string \<Rightarrow> written" where
  "print_out s = [(Stdout, s)]"

definition print_line :: "string \<Rightarrow> written" where
  "print_line s = [(Stdout, s @ nl)]"

definition print_err :: "string \<Rightarrow> written" where
  "print_err s = [(Stderr, s @ nl)]"

text \<open>
  The number of runes of a string, as \<^verbatim>\<open>unicode/utf8\<close> counts them: the length in bytes of the
  sequence at the head; a byte that starts no valid sequence counts alone.
\<close>

definition in_range :: "nat \<Rightarrow> nat \<Rightarrow> char \<Rightarrow> bool" where
  "in_range lo hi c \<longleftrightarrow> lo \<le> of_char c \<and> (of_char c :: nat) \<le> hi"

definition rune_size :: "char \<Rightarrow> string \<Rightarrow> nat" where
  "rune_size c s =
     (if in_range 0xC2 0xDF c \<and> 1 \<le> length s \<and> in_range 0x80 0xBF (s ! 0) then 2
      else if in_range 0xE0 0xEF c \<and> 2 \<le> length s
        \<and> in_range (if c = CHR 0xE0 then 0xA0 else 0x80) (if c = CHR 0xED then 0x9F else 0xBF) (s ! 0)
        \<and> in_range 0x80 0xBF (s ! 1) then 3
      else if in_range 0xF0 0xF4 c \<and> 3 \<le> length s
        \<and> in_range (if c = CHR 0xF0 then 0x90 else 0x80) (if c = CHR 0xF4 then 0x8F else 0xBF) (s ! 0)
        \<and> in_range 0x80 0xBF (s ! 1) \<and> in_range 0x80 0xBF (s ! 2) then 4
      else 1)"

function rune_count :: "string \<Rightarrow> nat" where
  "rune_count [] = 0"
| "rune_count (c # s) = Suc (rune_count (drop (rune_size c s - 1) s))"
  by pat_completeness auto
termination by (relation "measure length") auto

text \<open>\<^verbatim>\<open>%-*s\<close> pads to a width in runes.\<close>

definition pad_right :: "nat \<Rightarrow> string \<Rightarrow> string" where
  "pad_right w s = s @ replicate (w - rune_count s) CHR '' ''"

text \<open>\<^verbatim>\<open>%.*f\<close>: the nearest number with \<open>n\<close> decimals, an even last digit in a tie.\<close>

definition fixed_text :: "nat \<Rightarrow> float64 \<Rightarrow> string" where
  "fixed_text n x =
     (let m = nat (round_even (\<bar>x\<bar> * 10 ^ n)); frac = dec_nat (m mod 10 ^ n)
      in (if x < 0 then ''-'' else []) @ dec_nat (m div 10 ^ n)
         @ (if n = 0 then [] else ''.'' @ replicate (n - length frac) CHR ''0'' @ frac))"

text \<open>\<^verbatim>\<open>%v\<close> of a slice and of a truth value.\<close>

definition slice_text :: "string list \<Rightarrow> string" where
  "slice_text xs = ''['' @ join_with '' '' xs @ '']''"

definition bool_text :: "bool \<Rightarrow> string" where
  "bool_text b = (if b then ''true'' else ''false'')"

section \<open>Colours\<close>

datatype Color = ColorReset | ColorRed | ColorGreen | ColorYellow | ColorBlue

fun color_code :: "Color \<Rightarrow> string" where
  "color_code ColorReset = CHR 0x1B # ''[0m''"
| "color_code ColorRed = CHR 0x1B # ''[31m''"
| "color_code ColorGreen = CHR 0x1B # ''[32m''"
| "color_code ColorYellow = CHR 0x1B # ''[33m''"
| "color_code ColorBlue = CHR 0x1B # ''[34m''"

definition Colorize :: "bool \<Rightarrow> string \<Rightarrow> Color \<Rightarrow> string" where
  "Colorize tty text color = (if \<not> tty then text else color_code color @ text @ color_code ColorReset)"

definition ColorizeStatus :: "bool \<Rightarrow> string \<Rightarrow> string" where
  "ColorizeStatus tty status =
     (if status = ''healthy'' then Colorize tty status ColorGreen
      else if status = ''stale'' then Colorize tty status ColorYellow
      else if status = ''lost'' then Colorize tty status ColorRed
      else if status = ''static'' then Colorize tty status ColorBlue
      else status)"

definition PrintSuccess :: "bool \<Rightarrow> string \<Rightarrow> written" where
  "PrintSuccess tty msg = print_out (Colorize tty msg ColorGreen)"

definition PrintError :: "bool \<Rightarrow> string \<Rightarrow> written" where
  "PrintError tty msg = print_out (Colorize tty msg ColorRed)"

definition PrintWarning :: "bool \<Rightarrow> string \<Rightarrow> written" where
  "PrintWarning tty msg = print_out (Colorize tty msg ColorYellow)"

section \<open>Tables\<close>

record Table =
  tb_headers :: "string list"
  tb_rows :: "string list list"
  tb_widths :: "nat list"

definition NewTable :: "string list \<Rightarrow> Table" where
  "NewTable headers = \<lparr>tb_headers = headers, tb_rows = [], tb_widths = map length headers\<rparr>"

definition AddRow :: "string list \<Rightarrow> Table \<Rightarrow> Table" where
  "AddRow values t =
     (let cell = (\<lambda>i. if i < length values then values ! i else []);
          cols = [0..<length (tb_headers t)]
      in t\<lparr>tb_rows := tb_rows t @ [map cell cols],
           tb_widths := map (\<lambda>i. if length (cell i) > tb_widths t ! i then length (cell i) else tb_widths t ! i) cols\<rparr>)"

fun row_from :: "nat list \<Rightarrow> nat \<Rightarrow> string list \<Rightarrow> string" where
  "row_from widths i [] = []"
| "row_from widths i (v # values) =
     (if i > 0 then ''  '' else []) @ (if i < length widths then pad_right (widths ! i) v else v)
     @ row_from widths (Suc i) values"

definition printRow :: "string list \<Rightarrow> Table \<Rightarrow> written" where
  "printRow values t = print_line (row_from (tb_widths t) 0 values)"

definition printHeader :: "Table \<Rightarrow> written" where
  "printHeader t = printRow (tb_headers t) t"

definition separator_width :: "nat list \<Rightarrow> nat" where
  "separator_width widths = sum_list (map (\<lambda>(i, w). w + 2 + (if i > 0 then 1 else 0)) (enumerate 0 widths))"

definition printSeparator :: "Table \<Rightarrow> written" where
  "printSeparator t = print_line (replicate (separator_width (tb_widths t)) CHR ''-'')"

definition Table_Print :: "Table \<Rightarrow> written" where
  "Table_Print t = printHeader t @ printSeparator t @ concat (map (\<lambda>row. printRow row t) (tb_rows t))"

section \<open>Text\<close>

definition Truncate :: "string \<Rightarrow> nat \<Rightarrow> string" where
  "Truncate s maxLen = (if length s \<le> maxLen then s else take (maxLen - 2) s @ ''..'')"

fun join_from :: "nat \<Rightarrow> string \<Rightarrow> string list \<Rightarrow> string \<Rightarrow> string" where
  "join_from i sep [] result = result"
| "join_from i sep (s # strs) result =
     join_from (Suc i) sep strs ((if i > 0 then result @ sep else result) @ s)"

definition JoinStrings :: "string list \<Rightarrow> string \<Rightarrow> string" where
  "JoinStrings strs sep = join_from 0 sep strs []"

definition OutputJSON :: "marshaller \<Rightarrow> json \<Rightarrow> written + string" where
  "OutputJSON marshalIndent v =
     (case marshalIndent v of Inl err \<Rightarrow> Inr err | Inr data \<Rightarrow> Inl (print_line data))"

section \<open>Errors\<close>

abbreviation (input) ExitError :: int where "ExitError \<equiv> 1"
abbreviation (input) ExitUsage :: int where "ExitUsage \<equiv> 2"

definition cli_Error :: "string \<Rightarrow> string option \<Rightarrow> written" where
  "cli_Error msg err =
     (case err of Some e \<Rightarrow> print_err (''Error: '' @ msg @ '': '' @ e) | None \<Rightarrow> print_err (''Error: '' @ msg))"

definition cli_Fatal :: "string \<Rightarrow> string option \<Rightarrow> int \<Rightarrow> written \<times> int" where
  "cli_Fatal msg err code = (cli_Error msg err, code)"

definition UsageError :: "string \<Rightarrow> written \<times> int" where
  "UsageError msg = (print_err (''Error: '' @ msg), ExitUsage)"

section \<open>Lemmas\<close>

lemma ascii_Cons [simp]: "ascii (c # s) \<longleftrightarrow> (of_char c :: nat) < 128 \<and> ascii s"
  by (simp add: ascii_def)

lemma ascii_append [simp]: "ascii (s @ t) \<longleftrightarrow> ascii s \<and> ascii t"
  by (simp add: ascii_def)

lemma rune_count_ascii: "ascii s \<Longrightarrow> rune_count s = length s"
proof (induction s rule: rune_count.induct)
  case (2 c s)
  then have "rune_size c s = 1" by (auto simp: rune_size_def in_range_def)
  with 2 show ?case by simp
qed simp

lemma pad_right_ascii: "ascii s \<Longrightarrow> length s \<le> w \<Longrightarrow> length (pad_right w s) = w \<and> take (length s) (pad_right w s) = s"
  by (simp add: pad_right_def rune_count_ascii)

lemma join_from_Suc: "join_from (Suc i) sep strs r = r @ concat (map (\<lambda>s. sep @ s) strs)"
  by (induction strs arbitrary: i r) simp_all

text \<open>The loop over the index is the usual join.\<close>

lemma JoinStrings_join: "JoinStrings strs sep = join_with sep strs"
proof -
  have "concat (map (\<lambda>s. sep @ s) xs) = (if xs = [] then [] else sep @ join_with sep xs)" for xs
    by (induction sep xs rule: join_with.induct) simp_all
  moreover have "join_with sep (x # xs) = x @ (if xs = [] then [] else sep @ join_with sep xs)" for x xs
    by (cases xs) simp_all
  ultimately show ?thesis by (cases strs) (simp_all add: JoinStrings_def join_from_Suc)
qed

lemma Truncate_length: "2 \<le> n \<Longrightarrow> length (Truncate s n) \<le> n"
  unfolding Truncate_def by auto

text \<open>A table: rows as wide as the header, columns as wide as their widest cell.\<close>

definition table_ok :: "Table \<Rightarrow> bool" where
  "table_ok t \<longleftrightarrow> length (tb_widths t) = length (tb_headers t)
     \<and> (\<forall>row \<in> set (tb_headers t # tb_rows t). length row = length (tb_headers t)
          \<and> (\<forall>i < length row. length (row ! i) \<le> tb_widths t ! i))"

lemma table_ok_New: "table_ok (NewTable headers)"
  by (simp add: table_ok_def NewTable_def)

lemma AddRow_sel [simp]:
  "tb_headers (AddRow cells t) = tb_headers t"
  "tb_rows (AddRow cells t) = tb_rows t @ [map (\<lambda>i. if i < length cells then cells ! i else []) [0..<length (tb_headers t)]]"
  by (simp_all add: AddRow_def Let_def)

lemma table_ok_AddRow:
  assumes "table_ok t" shows "table_ok (AddRow values t)"
proof -
  have "tb_widths t ! i \<le> tb_widths (AddRow values t) ! i" if "i < length (tb_headers t)" for i
    using that by (simp add: AddRow_def Let_def)
  with assms show ?thesis
    by (auto simp: table_ok_def AddRow_def Let_def) (metis le_trans not_le_imp_less less_imp_le)+
qed

definition column :: "nat list \<Rightarrow> nat \<Rightarrow> nat" where
  "column widths i = sum_list (map (\<lambda>w. w + 2) (take i widths))"

lemma row_from_join:
  assumes "length values = length widths"
  shows "row_from widths 0 values = join_with ''  '' (map2 pad_right widths values)"
proof -
  have "row_from widths k vs = (if k > 0 \<and> vs \<noteq> [] then ''  '' else []) @ join_with ''  '' (map2 pad_right (drop k widths) vs)"
    if "k + length vs = length widths" for k vs
    using that
  proof (induction vs arbitrary: k)
    case (Cons v vs)
    then have "drop k widths = widths ! k # drop (Suc k) widths" by (simp add: Cons_nth_drop_Suc)
    with Cons show ?case by (cases vs; cases "drop (Suc k) widths") auto
  qed simp
  from this [of 0 "values"] assms show ?thesis by simp
qed

lemma join_cell:
  "i < length cs \<Longrightarrow> \<exists>rest. drop (sum_list (map (\<lambda>c. length c + 2) (take i cs))) (join_with ''  '' cs) = cs ! i @ rest"
proof (induction "''  ''" cs arbitrary: i rule: join_with.induct)
  case (3 x y ys)
  then show ?case by (cases i) auto
qed auto

lemma join_length: "cs \<noteq> [] \<Longrightarrow> length (join_with ''  '' cs) + 2 = sum_list (map (\<lambda>c. length c + 2) cs)"
  by (induction "''  ''" cs rule: join_with.induct) auto

lemma table_row_aligned:
  assumes "table_ok t" and "row \<in> set (tb_headers t # tb_rows t)" and "list_all ascii row" and "i < length (tb_headers t)"
  shows "HasPrefix (drop (column (tb_widths t) i) (row_from (tb_widths t) 0 row)) (row ! i)"
    and "length (row_from (tb_widths t) 0 row) + 2 = column (tb_widths t) (length (tb_headers t))"
proof -
  let ?w = "tb_widths t" let ?cs = "map2 pad_right ?w row"
  have len: "length row = length (tb_headers t)" "length ?w = length (tb_headers t)"
    and fit: "\<And>j. j < length row \<Longrightarrow> length (row ! j) \<le> ?w ! j"
    using assms(1,2) by (auto simp: table_ok_def)
  have cell: "length (?cs ! j) = ?w ! j \<and> take (length (row ! j)) (?cs ! j) = row ! j" if "j < length row" for j
    using pad_right_ascii [OF _ fit [OF that]] assms(3) that len by (simp add: list_all_length)
  have ml: "map length ?cs = ?w" using cell len by (intro nth_equalityI) simp_all
  have sums: "map (\<lambda>c. length c + 2) ?cs = map (\<lambda>w. w + 2) ?w"
    by (subst ml [symmetric]) (simp only: map_map comp_def)
  have row: "row_from ?w 0 row = join_with ''  '' ?cs" by (rule row_from_join) (simp add: len)
  obtain rest where "drop (sum_list (map (\<lambda>c. length c + 2) (take i ?cs))) (join_with ''  '' ?cs) = ?cs ! i @ rest"
    using join_cell [of i ?cs] assms(4) len by auto
  moreover have "sum_list (map (\<lambda>c. length c + 2) (take i ?cs)) = column ?w i"
    by (simp only: column_def take_map [symmetric] sums)
  moreover have "HasPrefix (?cs ! i @ rest) (row ! i)"
    using cell [of i] assms(4) len fit [of i] by (simp only: HasPrefix_def take_append) simp
  ultimately show "HasPrefix (drop (column ?w i) (row_from ?w 0 row)) (row ! i)" by (simp add: row)
  have "?cs \<noteq> []" using assms(4) len by auto
  from join_length [OF this] show "length (row_from ?w 0 row) + 2 = column ?w (length (tb_headers t))"
    unfolding row sums column_def using len by simp
qed

section \<open>Properties\<close>

text \<open>A printed table is aligned: whatever rows are added, as long as their cells are in ASCII, every line
  but the separator has the same length, and the cell of each column starts at the same position in all of
  them and is printed in full.\<close>

theorem table_columns_aligned:
  assumes "t = fold AddRow rows (NewTable headers)" and "\<forall>row \<in> set (headers # rows). list_all ascii row" and "headers \<noteq> []"
  shows "\<exists>lines. Table_Print t = map (\<lambda>l. (Stdout, l @ nl))
      (hd lines # replicate (separator_width (tb_widths t)) CHR ''-'' # tl lines)
    \<and> length lines = length rows + 1
    \<and> (\<forall>k < length lines. length (lines ! k) + 2 = column (tb_widths t) (length headers)
         \<and> (\<forall>i < length headers. i < length ((headers # rows) ! k) \<longrightarrow>
              HasPrefix (drop (column (tb_widths t) i) (lines ! k)) ((headers # rows) ! k ! i)))"
proof -
  let ?fit = "\<lambda>row. map (\<lambda>i. if i < length row then row ! i else []) [0..<length headers]"
  have t: "table_ok t \<and> tb_headers t = headers \<and> tb_rows t = map ?fit rows"
    unfolding assms(1)
  proof (induction rows rule: rev_induct)
    case Nil
    then show ?case using table_ok_New [of headers] by (simp add: NewTable_def)
  next
    case (snoc row rows)
    then show ?case using table_ok_AddRow [of "fold AddRow rows (NewTable headers)" row] by simp
  qed
  define lines where "lines = map (row_from (tb_widths t) 0) (headers # map ?fit rows)"
  have rows: "concat (map (\<lambda>row. printRow row t) rs) = map (\<lambda>l. (Stdout, l @ nl)) (map (row_from (tb_widths t) 0) rs)" for rs
    by (induction rs) (simp_all add: printRow_def print_line_def)
  have "Table_Print t = map (\<lambda>l. (Stdout, l @ nl))
      (hd lines # replicate (separator_width (tb_widths t)) CHR ''-'' # tl lines)"
    unfolding Table_Print_def rows using t
    by (simp add: lines_def printHeader_def printSeparator_def printRow_def print_line_def)
  moreover have "length (lines ! k) + 2 = column (tb_widths t) (length headers)
      \<and> (\<forall>i < length headers. i < length ((headers # rows) ! k) \<longrightarrow>
           HasPrefix (drop (column (tb_widths t) i) (lines ! k)) ((headers # rows) ! k ! i))" if k: "k < length lines" for k
  proof -
    let ?row = "(headers # map ?fit rows) ! k"
    have "?row \<in> set (headers # map ?fit rows)" by (rule nth_mem) (use k in \<open>simp add: lines_def\<close>)
    then have r: "?row \<in> set (tb_headers t # tb_rows t)" using t by simp
    have cell: "?row ! i = (if i < length ((headers # rows) ! k) then (headers # rows) ! k ! i else [])" if "i < length headers" for i
      using that k by (cases k) (simp_all add: lines_def)
    have "list_all ascii ?row"
      using assms(2) k by (cases k) (auto simp: lines_def list_all_iff ascii_def dest!: nth_mem)
    note al = table_row_aligned [OF conjunct1 [OF t] r this]
    have hdr: "tb_headers t = headers" using t by simp
    have line: "lines ! k = row_from (tb_widths t) 0 ?row" unfolding lines_def by (rule nth_map) (use k in \<open>simp add: lines_def\<close>)
    have "length (lines ! k) + 2 = column (tb_widths t) (length headers)"
      unfolding line using al(2) [of 0] assms(3) hdr by simp
    moreover have "HasPrefix (drop (column (tb_widths t) i) (lines ! k)) ((headers # rows) ! k ! i)"
      if "i < length headers" "i < length ((headers # rows) ! k)" for i
      unfolding line using al(1) [of i] cell [OF that(1)] that hdr by simp
    ultimately show ?thesis by blast
  qed
  ultimately show ?thesis using exI [of _ lines] by (simp add: lines_def)
qed

theorem table_columns_aligned_witness:
  "\<exists>lines t. t = fold AddRow [[''a'', ''10.0.0.7''], [''printer'', ''10.0.0.9'']] (NewTable [''HOST'', ''ADDRESS''])
     \<and> Table_Print t = map (\<lambda>l. (Stdout, l @ nl)) (hd lines # replicate (separator_width (tb_widths t)) CHR ''-'' # tl lines)
     \<and> length lines = 3 \<and> length (lines ! 1) = length (lines ! 2)"
proof -
  let ?rows = "[[''a'', ''10.0.0.7''], [''printer'', ''10.0.0.9'']]" let ?headers = "[''HOST'', ''ADDRESS'']"
  define t where "t = fold AddRow ?rows (NewTable ?headers)"
  have "\<forall>row \<in> set (?headers # ?rows). list_all ascii row" by (simp add: ascii_def)
  from table_columns_aligned [OF t_def this] obtain lines where l: "Table_Print t = map (\<lambda>l. (Stdout, l @ nl))
      (hd lines # replicate (separator_width (tb_widths t)) CHR ''-'' # tl lines)" and n: "length lines = length ?rows + 1"
    and w: "\<forall>k < length lines. length (lines ! k) + 2 = column (tb_widths t) (length ?headers)" by blast
  have "length (lines ! 1) + 2 = length (lines ! 2) + 2" using w n by simp
  with l n show ?thesis by (intro exI [of _ lines] exI [of _ t]) (simp add: t_def)
qed

end
