(* ===== verification/Base64.thy ===== *)
theory Base64
  imports Disco_Prelude
begin

text \<open>
  The standard encoding of \<^verbatim>\<open>encoding/base64\<close>, in which \<^verbatim>\<open>encoding/json\<close> writes a byte slice
  such as the records of a response.
\<close>

definition b64_char :: "nat \<Rightarrow> char" where
  "b64_char n = (if n < 26 then char_of (n + 65) else if n < 52 then char_of (n + 71) else if n < 62 then char_of (n - 4)
     else if n = 62 then CHR ''+'' else CHR ''/'')"

definition b64_val :: "char \<Rightarrow> nat option" where
  "b64_val c = (let n = of_char c
     in if 65 \<le> n \<and> n \<le> 90 then Some (n - 65) else if 97 \<le> n \<and> n \<le> 122 then Some (n - 71)
        else if 48 \<le> n \<and> n \<le> 57 then Some (n + 4) else if c = CHR ''+'' then Some 62 else if c = CHR ''/'' then Some 63 else None)"

text \<open>Three bytes are a number of four digits to the base 64.\<close>

definition b64_digit :: "nat \<Rightarrow> nat \<Rightarrow> char" where
  "b64_digit n k = b64_char (n div 64 ^ k mod 64)"

fun base64 :: "string \<Rightarrow> string" where
  "base64 (a # b # c # bs) =
     map (b64_digit (of_char a * 65536 + of_char b * 256 + of_char c)) [3, 2, 1, 0] @ base64 bs"
| "base64 [a, b] = map (b64_digit (of_char a * 65536 + of_char b * 256)) [3, 2, 1] @ ''=''"
| "base64 [a] = map (b64_digit (of_char a * 65536)) [3, 2] @ ''==''"
| "base64 [] = []"

definition b64_number :: "string \<Rightarrow> nat option" where
  "b64_number cs = map_option (foldl (\<lambda>n d. n * 64 + d) 0) (those (map b64_val cs))"

text \<open>Groups of four, the last one padded; line breaks are skipped by \<open>unbase64\<close>.\<close>

fun b64_groups :: "string \<Rightarrow> string option" where
  "b64_groups [] = Some []"
| "b64_groups (w # x # y # z # cs) =
     (if z = CHR ''='' then
        if cs \<noteq> [] then None
        else if y = CHR ''='' then map_option (\<lambda>n. [char_of (n div 16)]) (b64_number [w, x])
        else map_option (\<lambda>n. [char_of (n div 1024), char_of (n div 4 mod 256)]) (b64_number [w, x, y])
      else
        (case b64_number [w, x, y, z] of
           None \<Rightarrow> None
         | Some n \<Rightarrow> map_option (\<lambda>bs. char_of (n div 65536) # char_of (n div 256 mod 256) # char_of (n mod 256) # bs) (b64_groups cs)))"
| "b64_groups _ = None"

definition unbase64 :: "string \<Rightarrow> string option" where
  "unbase64 s = b64_groups (filter (\<lambda>c. c \<noteq> CHR 0x0A \<and> c \<noteq> CHR 0x0D) s)"

section \<open>Round trip\<close>

lemma b64_val_char: "n < 64 \<Longrightarrow> b64_val (b64_char n) = Some n"
  by (auto simp: b64_val_def b64_char_def Let_def)

lemma b64_char_plain: "n < 64 \<Longrightarrow> b64_char n \<notin> {CHR ''='', CHR 0x0A, CHR 0x0D}"
  using b64_val_char [of n] by (auto simp: b64_val_def)

lemma b64_digit_plain: "b64_digit n k \<notin> {CHR ''='', CHR 0x0A, CHR 0x0D}"
  unfolding b64_digit_def by (rule b64_char_plain) simp

lemma b64_digit_val: "b64_val (b64_digit n k) = Some (n div 64 ^ k mod 64)"
  by (simp add: b64_digit_def b64_val_char)

lemma base64_no_break: "filter (\<lambda>c. c \<noteq> CHR 0x0A \<and> c \<noteq> CHR 0x0D) (base64 bs) = base64 bs"
  by (induction bs rule: base64.induct) (use b64_digit_plain in auto)

lemma digit_step: "n div 64 ^ Suc k * 64 + n div 64 ^ k mod 64 = (n div 64 ^ k :: nat)"
  by (metis div_mult2_eq div_mult_mod_eq power_Suc2)

lemma b64_number_digits:
  "n < 64 ^ 4 \<Longrightarrow> b64_number [b64_digit n 3, b64_digit n 2, b64_digit n 1, b64_digit n 0] = Some n"
  "n < 64 ^ 4 \<Longrightarrow> b64_number [b64_digit n 3, b64_digit n 2, b64_digit n 1] = Some (n div 64)"
  "n < 64 ^ 4 \<Longrightarrow> b64_number [b64_digit n 3, b64_digit n 2] = Some (n div 4096)"
proof -
  assume "n < 64 ^ 4"
  then have "n div 64 ^ 3 mod 64 = n div 64 ^ 3" by (simp add: less_mult_imp_div_less)
  then show "b64_number [b64_digit n 3, b64_digit n 2, b64_digit n 1, b64_digit n 0] = Some n"
    "b64_number [b64_digit n 3, b64_digit n 2, b64_digit n 1] = Some (n div 64)"
    "b64_number [b64_digit n 3, b64_digit n 2] = Some (n div 4096)"
    using digit_step [of n 2] digit_step [of n 1] digit_step [of n 0]
    by (simp_all add: b64_number_def b64_digit_val numeral_3_eq_3 numeral_2_eq_2)
qed

lemma byte_less: "(of_char c :: nat) < 256"
  by (metis mod_less_divisor of_char_mod_256 zero_less_numeral)

lemma three_bytes:
  fixes a b c :: nat
  assumes "b < 256" and "c < 256"
  shows "(a * 65536 + b * 256 + c) div 65536 = a" "(a * 65536 + b * 256 + c) div 256 mod 256 = b" "(a * 65536 + b * 256 + c) mod 256 = c"
proof -
  show "(a * 65536 + b * 256 + c) div 65536 = a" using assms by (intro div_nat_eqI) auto
  have "(a * 65536 + b * 256 + c) div 256 = a * 256 + b" using assms(2) by (intro div_nat_eqI) auto
  with assms(1) show "(a * 65536 + b * 256 + c) div 256 mod 256 = b" by simp
  have "a * 65536 + b * 256 + c = (a * 256 + b) * 256 + c" by simp
  with assms(2) show "(a * 65536 + b * 256 + c) mod 256 = c" by (metis mod_mult_self3 mod_less)
qed

lemma base64_groups: "b64_groups (base64 bs) = Some bs"
proof (induction bs rule: base64.induct)
  case (1 a b c bs)
  let ?n = "of_char a * 65536 + of_char b * 256 + of_char c :: nat"
  have "?n < 64 ^ 4" using byte_less [of a] byte_less [of b] byte_less [of c] by (simp, linarith)
  note n = b64_number_digits(1) [OF this]
  have "?n div 65536 = of_char a" "?n div 256 mod 256 = of_char b" "?n mod 256 = of_char c"
    using three_bytes [OF byte_less [of b] byte_less [of c]] by simp_all
  with 1 n b64_digit_plain [of ?n 0] show ?case by simp
next
  case (2 a b)
  let ?n = "of_char a * 65536 + of_char b * 256 :: nat"
  have "?n < 64 ^ 4" using byte_less [of a] byte_less [of b] by (simp, linarith)
  note n = b64_number_digits(2) [OF this]
  have "?n div 64 div 1024 = of_char a" "?n div 64 div 4 mod 256 = of_char b"
    using three_bytes [OF byte_less [of b], of 0 "of_char a"] by (simp_all flip: div_mult2_eq)
  moreover have "char_of (256 * of_char a + of_char b :: nat) = b"
    using char_of_mod_256 [of "256 * of_char a + of_char b :: nat"] by (simp add: mod_mult_self4)
  ultimately show ?case using n b64_digit_plain [of ?n 1] by simp
next
  case (3 a)
  let ?n = "of_char a * 65536 :: nat"
  have "?n < 64 ^ 4" using byte_less [of a] by simp
  note n = b64_number_digits(3) [OF this]
  have "?n div 4096 div 16 = of_char a" by (simp flip: div_mult2_eq)
  with n show ?case by simp
qed simp

lemma unbase64_base64 [simp]: "unbase64 (base64 bs) = Some bs"
  by (simp add: unbase64_def base64_no_break base64_groups)

end
