(* ===== verification/Nss_Json.thy ===== *)
theory Nss_Json
  imports Socket_Server Base64 "HOL-Library.Monad_Syntax"
begin

text \<open>
  The messages of the daemon's socket as JSON values (\<^verbatim>\<open>internal/nss/protocol.go\<close>): what
  the encoder makes of a query or a response and what the decoder reads back. The text between the
  encoder and the decoder is left to \<^verbatim>\<open>encoding/json\<close>: the values \<open>JInt\<close> and \<open>JNum\<close> of one number
  have the same text, so that the value read is only equal to the value written up to \<open>reads\<close>, and the
  decoders are shown not to depend on the difference. Text that is not valid UTF-8 is changed on the way
  and outside these theorems. The bytes of \<^verbatim>\<open>Records\<close> travel as a base64 string (arguments \<open>b64\<close>
  and \<open>unb64\<close>). The decoder
  also accepts keys that differ in case; no key sent here depends on that.
\<close>

section \<open>Encoding\<close>

definition json_HostHealth :: "HostHealth \<Rightarrow> json" where
  "json_HostHealth h =
     JObj ([(''hostname'', JStr (hh_Hostname h))]
       @ json_opt (hh_MachineID h \<noteq> []) ''machine_id'' (JStr (hh_MachineID h))
       @ [(''addresses'', json_strings (hh_Addresses h)), (''status'', JStr (hh_Status h)),
          (''services'', json_map JStr (hh_Services h)), (''last_seen'', JInt (hh_LastSeen h)),
          (''last_seen_ago'', JStr (hh_LastSeenAgo h)), (''is_static'', JBool (hh_IsStatic h))])"

definition json_ServiceHealth :: "ServiceHealth \<Rightarrow> json" where
  "json_ServiceHealth h =
     JObj ([(''name'', JStr (sh_Name h)), (''protocol'', JStr (sh_Protocol h)), (''port'', JInt (sh_Port h)),
          (''hosts'', json_strings (sh_Hosts h))]
       @ json_opt (sh_Aliases h \<noteq> []) ''aliases'' (json_strings (sh_Aliases h))
       @ [(''status'', JStr (sh_Status h))])"

definition json_LocationHealth :: "LocationHealth \<Rightarrow> json" where
  "json_LocationHealth h =
     JObj [(''source_id'', JStr (lh_SourceID h)), (''latitude'', JNum (lh_Latitude h)),
       (''longitude'', JNum (lh_Longitude h)), (''altitude'', JNum (lh_Altitude h)),
       (''satellites'', JInt (lh_Satellites h)), (''fix'', JBool (lh_Fix h)), (''last_seen'', JInt (lh_LastSeen h)),
       (''last_seen_ago'', JStr (lh_LastSeenAgo h))]"

definition json_Response :: "(string \<Rightarrow> string) \<Rightarrow> Response \<Rightarrow> json" where
  "json_Response b64 r =
     JObj ([(''type'', JStr (rsp_Type r)), (''request_id'', JStr (rsp_RequestID r))]
       @ json_opt (rsp_Name r \<noteq> []) ''name'' (JStr (rsp_Name r))
       @ json_opt (rsp_Aliases r \<noteq> []) ''aliases'' (json_strings (rsp_Aliases r))
       @ json_opt (rsp_AddrType r \<noteq> 0) ''addr_type'' (JInt (rsp_AddrType r))
       @ json_opt (rsp_AddrLen r \<noteq> 0) ''addr_len'' (JInt (rsp_AddrLen r))
       @ json_opt (rsp_Addrs r \<noteq> []) ''addrs'' (json_strings (rsp_Addrs r))
       @ json_opt (rsp_Error r \<noteq> []) ''error'' (JStr (rsp_Error r))
       @ json_opt (rsp_Records r \<noteq> []) ''records'' (JStr (b64 (rsp_Records r)))
       @ json_opt (rsp_Count r \<noteq> 0) ''count'' (JInt (rsp_Count r))
       @ json_opt (rsp_Hosts r \<noteq> []) ''hosts'' (JArr (map json_HostHealth (rsp_Hosts r)))
       @ json_opt (rsp_Services r \<noteq> []) ''services'' (JArr (map json_ServiceHealth (rsp_Services r)))
       @ json_opt (rsp_Locations r \<noteq> []) ''locations'' (JArr (map json_LocationHealth (rsp_Locations r))))"

definition json_Query :: "Query \<Rightarrow> json" where
  "json_Query q =
     JObj ([(''type'', JStr (q_Type q))]
       @ json_opt (q_Name q \<noteq> []) ''name'' (JStr (q_Name q))
       @ json_opt (q_Addr q \<noteq> []) ''addr'' (JStr (q_Addr q))
       @ json_opt (q_Family q \<noteq> 0) ''family'' (JInt (q_Family q))
       @ json_opt (q_Port q \<noteq> 0) ''port'' (JInt (q_Port q))
       @ json_opt (q_Aliases q \<noteq> []) ''aliases'' (json_strings (q_Aliases q))
       @ [(''request_id'', JStr (q_RequestID q))])"

section \<open>Decoding\<close>

text \<open>
  Decoding into a struct: an absent field and a \<^verbatim>\<open>null\<close> keep the zero value, a field of
  another type or an integer out of range is an error. A number with a fraction or an exponent is not
  an integer.
\<close>

fun str_of_json :: "json \<Rightarrow> string option" where
  "str_of_json JNull = Some []"
| "str_of_json (JStr v) = Some v"
| "str_of_json _ = None"

fun int_of_json :: "json \<Rightarrow> int option" where
  "int_of_json JNull = Some 0"
| "int_of_json (JInt v) = (if in_int64 v then Some v else None)"
| "int_of_json _ = None"

fun num_of_json :: "json \<Rightarrow> float64 option" where
  "num_of_json JNull = Some 0"
| "num_of_json (JInt v) = Some (of_int v)"
| "num_of_json (JNum v) = Some v"
| "num_of_json _ = None"

fun bool_of_json :: "json \<Rightarrow> bool option" where
  "bool_of_json JNull = Some False"
| "bool_of_json (JBool v) = Some v"
| "bool_of_json _ = None"

fun list_of_json :: "(json \<Rightarrow> 'a option) \<Rightarrow> json \<Rightarrow> 'a list option" where
  "list_of_json f JNull = Some []"
| "list_of_json f (JArr vs) = those (map f vs)"
| "list_of_json f _ = None"

fun map_of_json :: "json \<Rightarrow> (string, string) gomap option" where
  "map_of_json JNull = Some []"
| "map_of_json (JObj fs) =
     map_option (\<lambda>vs. fold (\<lambda>(k, v). AList.update k v) (zip (map fst fs) vs) []) (those (map (str_of_json \<circ> snd) fs))"
| "map_of_json _ = None"

definition json_field :: "(json \<Rightarrow> 'a option) \<Rightarrow> (string \<times> json) list \<Rightarrow> string \<Rightarrow> 'a option" where
  "json_field f fs k = f (case map_of fs k of None \<Rightarrow> JNull | Some v \<Rightarrow> v)"

definition obj_fields :: "json \<Rightarrow> (string \<times> json) list option" where
  "obj_fields j = (case j of JObj fs \<Rightarrow> Some fs | JNull \<Rightarrow> Some [] | _ \<Rightarrow> None)"

definition query_of_json :: "json \<Rightarrow> Query option" where
  "query_of_json j = do {
     fs \<leftarrow> obj_fields j;
     t \<leftarrow> json_field str_of_json fs ''type'';
     n \<leftarrow> json_field str_of_json fs ''name'';
     a \<leftarrow> json_field str_of_json fs ''addr'';
     f \<leftarrow> json_field int_of_json fs ''family'';
     p \<leftarrow> json_field int_of_json fs ''port'';
     al \<leftarrow> json_field (list_of_json str_of_json) fs ''aliases'';
     i \<leftarrow> json_field str_of_json fs ''request_id'';
     Some \<lparr>q_Type = t, q_Name = n, q_Addr = a, q_Family = f, q_Port = p, q_Aliases = al, q_RequestID = i\<rparr> }"

definition host_of_json :: "json \<Rightarrow> HostHealth option" where
  "host_of_json j = do {
     fs \<leftarrow> obj_fields j;
     n \<leftarrow> json_field str_of_json fs ''hostname'';
     m \<leftarrow> json_field str_of_json fs ''machine_id'';
     a \<leftarrow> json_field (list_of_json str_of_json) fs ''addresses'';
     st \<leftarrow> json_field str_of_json fs ''status'';
     sv \<leftarrow> json_field map_of_json fs ''services'';
     ls \<leftarrow> json_field int_of_json fs ''last_seen'';
     ago \<leftarrow> json_field str_of_json fs ''last_seen_ago'';
     s \<leftarrow> json_field bool_of_json fs ''is_static'';
     Some \<lparr>hh_Hostname = n, hh_MachineID = m, hh_Addresses = a, hh_Status = st, hh_Services = sv, hh_LastSeen = ls,
           hh_LastSeenAgo = ago, hh_IsStatic = s\<rparr> }"

definition service_of_json :: "json \<Rightarrow> ServiceHealth option" where
  "service_of_json j = do {
     fs \<leftarrow> obj_fields j;
     n \<leftarrow> json_field str_of_json fs ''name'';
     pr \<leftarrow> json_field str_of_json fs ''protocol'';
     p \<leftarrow> json_field int_of_json fs ''port'';
     h \<leftarrow> json_field (list_of_json str_of_json) fs ''hosts'';
     al \<leftarrow> json_field (list_of_json str_of_json) fs ''aliases'';
     st \<leftarrow> json_field str_of_json fs ''status'';
     Some \<lparr>sh_Name = n, sh_Protocol = pr, sh_Port = p, sh_Hosts = h, sh_Aliases = al, sh_Status = st\<rparr> }"

definition location_of_json :: "json \<Rightarrow> LocationHealth option" where
  "location_of_json j = do {
     fs \<leftarrow> obj_fields j;
     i \<leftarrow> json_field str_of_json fs ''source_id'';
     la \<leftarrow> json_field num_of_json fs ''latitude'';
     lo \<leftarrow> json_field num_of_json fs ''longitude'';
     al \<leftarrow> json_field num_of_json fs ''altitude'';
     sa \<leftarrow> json_field int_of_json fs ''satellites'';
     fx \<leftarrow> json_field bool_of_json fs ''fix'';
     ls \<leftarrow> json_field int_of_json fs ''last_seen'';
     ago \<leftarrow> json_field str_of_json fs ''last_seen_ago'';
     Some \<lparr>lh_SourceID = i, lh_Latitude = la, lh_Longitude = lo, lh_Altitude = al, lh_Satellites = sa, lh_Fix = fx,
           lh_LastSeen = ls, lh_LastSeenAgo = ago\<rparr> }"

definition response_of_json :: "(string \<Rightarrow> string option) \<Rightarrow> json \<Rightarrow> Response option" where
  "response_of_json unb64 j = do {
     fs \<leftarrow> obj_fields j;
     t \<leftarrow> json_field str_of_json fs ''type'';
     i \<leftarrow> json_field str_of_json fs ''request_id'';
     n \<leftarrow> json_field str_of_json fs ''name'';
     al \<leftarrow> json_field (list_of_json str_of_json) fs ''aliases'';
     aty \<leftarrow> json_field int_of_json fs ''addr_type'';
     aln \<leftarrow> json_field int_of_json fs ''addr_len'';
     ad \<leftarrow> json_field (list_of_json str_of_json) fs ''addrs'';
     e \<leftarrow> json_field str_of_json fs ''error'';
     enc \<leftarrow> json_field str_of_json fs ''records'';
     raw \<leftarrow> (if enc = [] then Some [] else unb64 enc);
     c \<leftarrow> json_field int_of_json fs ''count'';
     hs \<leftarrow> json_field (list_of_json host_of_json) fs ''hosts'';
     ss \<leftarrow> json_field (list_of_json service_of_json) fs ''services'';
     ls \<leftarrow> json_field (list_of_json location_of_json) fs ''locations'';
     Some \<lparr>rsp_Type = t, rsp_RequestID = i, rsp_Name = n, rsp_Aliases = al, rsp_AddrType = aty, rsp_AddrLen = aln,
           rsp_Addrs = ad, rsp_Error = e, rsp_Records = raw, rsp_Count = c, rsp_Hosts = hs, rsp_Services = ss,
           rsp_Locations = ls\<rparr> }"

text \<open>
  The four functions of the package around \<^verbatim>\<open>encoding/json\<close>: \<open>parse\<close> reads the text, and
  \<open>mismatch\<close> is the error for a value that does not fit the struct.
\<close>

definition MarshalQuery :: "marshaller \<Rightarrow> Query \<Rightarrow> string + string" where
  "MarshalQuery marshal q = marshal (json_Query q)"

definition UnmarshalQuery :: "(string \<Rightarrow> string + json) \<Rightarrow> (json \<Rightarrow> string) \<Rightarrow> string \<Rightarrow> string + Query" where
  "UnmarshalQuery parse mismatch data =
     (case parse data of
        Inl err \<Rightarrow> Inl err
      | Inr j \<Rightarrow> (case query_of_json j of None \<Rightarrow> Inl (mismatch j) | Some q \<Rightarrow> Inr q))"

definition MarshalResponse :: "(string \<Rightarrow> string) \<Rightarrow> marshaller \<Rightarrow> Response \<Rightarrow> string + string" where
  "MarshalResponse b64 marshal r = marshal (json_Response b64 r)"

definition UnmarshalResponse :: "(string \<Rightarrow> string option) \<Rightarrow> (string \<Rightarrow> string + json) \<Rightarrow> (json \<Rightarrow> string) \<Rightarrow> string
    \<Rightarrow> string + Response" where
  "UnmarshalResponse unb64 parse mismatch data =
     (case parse data of
        Inl err \<Rightarrow> Inl err
      | Inr j \<Rightarrow> (case response_of_json unb64 j of None \<Rightarrow> Inl (mismatch j) | Some r \<Rightarrow> Inr r))"

section \<open>Round trips\<close>

text \<open>
  The integers of a message fit Go's integers, and its maps have distinct keys. The decoded maps are in
  the order of the keys, which is how the encoder writes them; the order of a map has no meaning.
\<close>

definition go_host :: "HostHealth \<Rightarrow> bool" where
  "go_host h \<longleftrightarrow> in_int64 (hh_LastSeen h) \<and> gm_wf (hh_Services h)"

definition go_response :: "Response \<Rightarrow> bool" where
  "go_response r \<longleftrightarrow> in_int64 (rsp_AddrType r) \<and> in_int64 (rsp_AddrLen r) \<and> in_int64 (rsp_Count r)
     \<and> list_all go_host (rsp_Hosts r) \<and> list_all (\<lambda>s. in_int64 (sh_Port s)) (rsp_Services r)
     \<and> list_all (\<lambda>l. in_int64 (lh_Satellites l) \<and> in_int64 (lh_LastSeen l)) (rsp_Locations r)"

definition sorted_host :: "HostHealth \<Rightarrow> HostHealth" where
  "sorted_host h = h\<lparr>hh_Services := sort_key fst (hh_Services h)\<rparr>"

definition sorted_response :: "Response \<Rightarrow> Response" where
  "sorted_response r = r\<lparr>rsp_Hosts := map sorted_host (rsp_Hosts r)\<rparr>"

lemma map_of_json_opt: "map_of (json_opt c k v) x = (if c \<and> x = k then Some v else None)"
  by (simp add: json_opt_def)

lemma those_map_Some: "(\<And>x. x \<in> set xs \<Longrightarrow> f x = Some (g x)) \<Longrightarrow> those (map f xs) = Some (map g xs)"
  by (induction xs) simp_all

lemma strings_back [simp]: "list_of_json str_of_json (json_strings xs) = Some xs"
  using those_map_Some [of xs "\<lambda>x. str_of_json (JStr x)" "\<lambda>x. x"] by (simp add: json_strings_def comp_def)

lemma update_new: "k \<notin> fst ` set m \<Longrightarrow> AList.update k v m = m @ [(k, v)]"
  by (induction m) auto

lemma fold_update_distinct:
  "distinct (map fst (m @ xs)) \<Longrightarrow> fold (\<lambda>(k, v). AList.update k v) xs m = m @ xs"
proof (induction xs arbitrary: m)
  case (Cons x xs)
  obtain k v where "x = (k, v)" by (cases x)
  with Cons.prems Cons.IH [of "m @ [x]"] show ?case by (auto simp: update_new)
qed simp

lemma insort_map: "(\<And>x. f (h x) = f' x) \<Longrightarrow> insort_key f (h x) (map h xs) = map h (insort_key f' x xs)"
  by (induction xs) simp_all

lemma sort_key_map: "(\<And>x. f (h x) = f' x) \<Longrightarrow> sort_key f (map h xs) = map h (sort_key f' xs)"
  by (induction xs) (simp_all add: insort_map)

lemma gm_wf_sort [simp]: "gm_wf (sort_key fst m) \<longleftrightarrow> gm_wf m"
  by (induction m) (auto simp: distinct_insort_key set_insort_key)

lemma services_back:
  assumes "gm_wf m" shows "map_of_json (json_map JStr m) = Some (sort_key fst m)"
proof -
  let ?h = "\<lambda>(k, v). (k, JStr v)"
  have j: "json_map JStr m = JObj (map ?h (sort_key fst m))"
    by (simp add: json_map_def sort_key_map [of fst ?h fst] split_beta)
  have t: "those (map (str_of_json \<circ> snd) (map ?h xs)) = Some (map snd xs)" for xs
    using those_map_Some [of xs "\<lambda>x. str_of_json (snd (?h x))" snd] by (simp add: split_beta comp_def)
  have z: "zip (map fst (map ?h xs)) (map snd xs) = xs" for xs :: "(string \<times> string) list"
    by (induction xs) auto
  show ?thesis
    unfolding j map_of_json.simps t option.map z using fold_update_distinct [of "[]" "sort_key fst m"] assms by simp
qed

lemmas json_field_simps = json_field_def obj_fields_def map_add_def map_of_json_opt

lemma query_back:
  assumes "in_int64 (q_Family q)" and "in_int64 (q_Port q)"
  shows "query_of_json (json_Query q) = Some q"
  using assms by (cases q) (simp add: query_of_json_def json_Query_def json_field_simps)

lemma host_back: "go_host h \<Longrightarrow> host_of_json (json_HostHealth h) = Some (sorted_host h)"
  by (cases h) (simp add: host_of_json_def json_HostHealth_def json_field_simps go_host_def services_back sorted_host_def)

lemma service_back: "in_int64 (sh_Port s) \<Longrightarrow> service_of_json (json_ServiceHealth s) = Some s"
  by (cases s) (simp add: service_of_json_def json_ServiceHealth_def json_field_simps)

lemma location_back:
  "in_int64 (lh_Satellites l) \<Longrightarrow> in_int64 (lh_LastSeen l) \<Longrightarrow> location_of_json (json_LocationHealth l) = Some l"
  by (cases l) (simp add: location_of_json_def json_LocationHealth_def json_field_simps)

lemma response_back:
  assumes "go_response r" and "\<And>x. unb64 (b64 x) = Some x" and "b64 [] = []"
  shows "response_of_json unb64 (json_Response b64 r) = Some (sorted_response r)"
proof -
  have hs: "list_of_json host_of_json (JArr (map json_HostHealth (rsp_Hosts r))) = Some (map sorted_host (rsp_Hosts r))"
    using those_map_Some [of "rsp_Hosts r" "host_of_json \<circ> json_HostHealth" sorted_host] assms(1) host_back
    by (simp add: go_response_def list_all_iff)
  have ss: "list_of_json service_of_json (JArr (map json_ServiceHealth (rsp_Services r))) = Some (rsp_Services r)"
    using those_map_Some [of "rsp_Services r" "service_of_json \<circ> json_ServiceHealth" "\<lambda>s. s"] assms(1) service_back
    by (simp add: go_response_def list_all_iff)
  have ls: "list_of_json location_of_json (JArr (map json_LocationHealth (rsp_Locations r))) = Some (rsp_Locations r)"
    using those_map_Some [of "rsp_Locations r" "location_of_json \<circ> json_LocationHealth" "\<lambda>s. s"] assms(1) location_back
    by (simp add: go_response_def list_all_iff)
  have "b64 x = [] \<longleftrightarrow> x = []" for x using assms(2) [of x] assms(2) [of "[]"] assms(3) by auto
  then have rec: "(if b64 (rsp_Records r) = [] then Some [] else unb64 (b64 (rsp_Records r))) = Some (rsp_Records r)"
    using assms(2) by simp
  define fs where "fs = (case json_Response b64 r of JObj fs \<Rightarrow> fs | _ \<Rightarrow> [])"
  have fs: "json_Response b64 r = JObj fs" by (simp add: fs_def json_Response_def)
  note fields = fs_def json_Response_def json_field_simps
  have "json_field str_of_json fs ''type'' = Some (rsp_Type r)" "json_field str_of_json fs ''request_id'' = Some (rsp_RequestID r)"
    "json_field str_of_json fs ''name'' = Some (rsp_Name r)" "json_field str_of_json fs ''error'' = Some (rsp_Error r)"
    "json_field str_of_json fs ''records'' = Some (b64 (rsp_Records r))"
    "json_field (list_of_json str_of_json) fs ''aliases'' = Some (rsp_Aliases r)"
    "json_field (list_of_json str_of_json) fs ''addrs'' = Some (rsp_Addrs r)"
    "json_field int_of_json fs ''addr_type'' = Some (rsp_AddrType r)" "json_field int_of_json fs ''addr_len'' = Some (rsp_AddrLen r)"
    "json_field int_of_json fs ''count'' = Some (rsp_Count r)"
    using assms(1,3) by (simp_all add: fields go_response_def)
  moreover have "json_field (list_of_json host_of_json) fs ''hosts'' = Some (map sorted_host (rsp_Hosts r))"
    "json_field (list_of_json service_of_json) fs ''services'' = Some (rsp_Services r)"
    "json_field (list_of_json location_of_json) fs ''locations'' = Some (rsp_Locations r)"
    using hs ss ls by (simp_all add: fields del: list_of_json.simps(2))
  ultimately show ?thesis
    using rec by (simp add: response_of_json_def fs obj_fields_def sorted_response_def Response.equality)
qed

section \<open>Reading back what was written\<close>

text \<open>
  The text of a JSON document does not tell an integer from a float64 with an integral value: 45 is
  written for both, and read back as an integer literal. \<open>reads j j'\<close>: the value read from the text
  of \<open>j\<close> may be \<open>j'\<close>.
\<close>

fun reads :: "json \<Rightarrow> json \<Rightarrow> bool" where
  "reads (JNum x) (JInt n) \<longleftrightarrow> x = of_int n"
| "reads (JArr vs) (JArr ws) \<longleftrightarrow> list_all2 reads vs ws"
| "reads (JObj fs) (JObj gs) \<longleftrightarrow> list_all2 (\<lambda>f g. fst f = fst g \<and> reads (snd f) (snd g)) fs gs"
| "reads j j' \<longleftrightarrow> j = j'"

fun_cases reads_JArrE: "reads (JArr vs) j"
fun_cases reads_JObjE: "reads (JObj fs) j"

text \<open>A decoder is stable if it takes the value read for the value written.\<close>

definition stable :: "(json \<Rightarrow> 'a option) \<Rightarrow> bool" where
  "stable f \<longleftrightarrow> (\<forall>j j' v. reads j j' \<longrightarrow> f j = Some v \<longrightarrow> f j' = Some v)"

lemma stable_basic: "stable str_of_json" "stable int_of_json" "stable num_of_json" "stable bool_of_json"
  unfolding stable_def
  subgoal by (intro allI impI, elim reads.elims) auto
  subgoal by (intro allI impI, elim reads.elims) auto
  subgoal by (intro allI impI, elim reads.elims) auto
  subgoal by (intro allI impI, elim reads.elims) auto
  done

lemma those_stable:
  "list_all2 (\<lambda>x y. \<forall>v. f x = Some v \<longrightarrow> g y = Some v) xs ys \<Longrightarrow> those (map f xs) = Some vs \<Longrightarrow> those (map g ys) = Some vs"
  by (induction xs ys arbitrary: vs rule: list_all2_induct) (auto split: option.splits)

lemma stable_list: "stable f \<Longrightarrow> stable (list_of_json f)"
  unfolding stable_def
  by (intro allI impI, elim reads.elims) (auto elim!: those_stable [rotated] elim: list_all2_mono)

text \<open>Objects with the same keys whose values are read.\<close>

abbreviation reads_fields :: "(string \<times> json) list \<Rightarrow> (string \<times> json) list \<Rightarrow> bool" where
  "reads_fields \<equiv> list_all2 (\<lambda>f g. fst f = fst g \<and> reads (snd f) (snd g))"

lemma reads_fields_keys: "reads_fields fs gs \<Longrightarrow> map fst gs = map fst fs"
  by (induction fs gs rule: list_all2_induct) simp_all

lemma reads_fields_map_of: "reads_fields fs gs \<Longrightarrow> rel_option reads (map_of fs k) (map_of gs k)"
  by (induction fs gs rule: list_all2_induct) auto

lemma stable_map: "stable map_of_json"
proof -
  have obj: "map_of_json (JObj gs) = Some v" if "reads_fields fs gs" "map_of_json (JObj fs) = Some v" for fs gs v
  proof -
    from that(2) obtain vs where vs: "those (map (str_of_json \<circ> snd) fs) = Some vs"
        "v = fold (\<lambda>(k, v). AList.update k v) (zip (map fst fs) vs) []"
      by auto
    have "list_all2 (\<lambda>x y. \<forall>v. (str_of_json \<circ> snd) x = Some v \<longrightarrow> (str_of_json \<circ> snd) y = Some v) fs gs"
      using that(1) by (rule list_all2_mono) (use stable_basic(1) in \<open>auto simp: stable_def\<close>)
    from those_stable [OF this vs(1)] vs(2) reads_fields_keys [OF that(1)] show ?thesis by (simp add: comp_def)
  qed
  have "map_of_json j' = Some v" if "reads j j'" "map_of_json j = Some v" for j j' v
  proof (cases "\<exists>fs. j = JObj fs")
    case True
    then obtain fs where fs: "j = JObj fs" by blast
    with that(1) obtain gs where "j' = JObj gs" "reads_fields fs gs" by (auto elim!: reads_JObjE)
    with obj that(2) fs show ?thesis by blast
  next
    case False
    with that show ?thesis by (cases j; cases j') simp_all
  qed
  then show ?thesis unfolding stable_def by blast
qed

lemma json_field_stable:
  assumes "stable f" and "reads_fields fs gs" and "json_field f fs k = Some v"
  shows "json_field f gs k = Some v"
proof (cases "map_of fs k")
  case None
  then have "map_of gs k = None" using reads_fields_map_of [OF assms(2), of k] by simp
  with None assms(3) show ?thesis by (simp add: json_field_def)
next
  case (Some x)
  then obtain y where y: "map_of gs k = Some y" "reads x y"
    using reads_fields_map_of [OF assms(2), of k] by (auto simp: option_rel_Some1)
  have "f x = Some v" using Some assms(3) by (simp add: json_field_def)
  with assms(1) y(2) have "f y = Some v" unfolding stable_def by blast
  with y(1) show ?thesis by (simp add: json_field_def)
qed

lemma obj_fields_reads:
  assumes "reads j j'" and "obj_fields j = Some fs"
  shows "\<exists>gs. obj_fields j' = Some gs \<and> reads_fields fs gs"
  using assms by (elim reads.elims) (auto simp: obj_fields_def)

text \<open>What is computed from the fields of an object by reading them one after the other.\<close>

definition stable_fields :: "((string \<times> json) list \<Rightarrow> 'a option) \<Rightarrow> bool" where
  "stable_fields g \<longleftrightarrow> (\<forall>fs gs v. reads_fields fs gs \<longrightarrow> g fs = Some v \<longrightarrow> g gs = Some v)"

lemma stable_bind_field:
  assumes "stable f" and "\<And>x. stable_fields (h x)"
  shows "stable_fields (\<lambda>fs. Option.bind (json_field f fs k) (\<lambda>x. h x fs))"
  using assms json_field_stable [OF assms(1)] unfolding stable_fields_def by (auto simp: bind_eq_Some_conv)

lemma stable_bind_const:
  "(\<And>x. stable_fields (h x)) \<Longrightarrow> stable_fields (\<lambda>fs. Option.bind c (\<lambda>x. h x fs))"
  unfolding stable_fields_def by (auto simp: bind_eq_Some_conv)

lemma stable_const: "stable_fields (\<lambda>fs. c)"
  by (simp add: stable_fields_def)

lemma stable_obj: "stable_fields g \<Longrightarrow> stable (\<lambda>j. Option.bind (obj_fields j) g)"
  unfolding stable_fields_def stable_def by (auto simp: bind_eq_Some_conv dest!: obj_fields_reads)

lemmas stable_intros = stable_obj stable_bind_field stable_const stable_bind_const stable_basic stable_list stable_map

lemma stable_query: "stable query_of_json"
  unfolding query_of_json_def by (intro stable_intros)

lemma stable_host: "stable host_of_json"
  unfolding host_of_json_def by (intro stable_intros)

lemma stable_service: "stable service_of_json"
  unfolding service_of_json_def by (intro stable_intros)

lemma stable_location: "stable location_of_json"
  unfolding location_of_json_def by (intro stable_intros)

lemma stable_response: "stable (response_of_json unb64)"
  unfolding response_of_json_def by (intro stable_intros stable_host stable_service stable_location)

section \<open>Properties\<close>

text \<open>C36: What one end of the socket encodes the other end decodes: a query whose integers fit comes back
  unchanged, and so does a response up to the order of the services of a host, which the encoder sorts. What
  is asked of \<^verbatim>\<open>encoding/json\<close> is that it reads back the text of these two documents, which it does for
  text in valid UTF-8, where a float64 with an integral value may come back as an integer.\<close>

theorem protocol_json_roundtrip:
  assumes "in_int64 (q_Family q)" and "in_int64 (q_Port q)" and "go_response r"
    and "MarshalQuery marshal q = Inr qdata" and "MarshalResponse base64 marshal r = Inr rdata"
    and "\<And>data. marshal (json_Query q) = Inr data \<Longrightarrow> \<exists>j. parse data = Inr j \<and> reads (json_Query q) j"
    and "\<And>data. marshal (json_Response base64 r) = Inr data \<Longrightarrow> \<exists>j. parse data = Inr j \<and> reads (json_Response base64 r) j"
  shows "UnmarshalQuery parse mismatch qdata = Inr q
    \<and> UnmarshalResponse unbase64 parse mismatch rdata = Inr (sorted_response r)"
proof -
  obtain jq where jq: "parse qdata = Inr jq" "reads (json_Query q) jq"
    using assms(4,6) unfolding MarshalQuery_def by blast
  obtain jr where jr: "parse rdata = Inr jr" "reads (json_Response base64 r) jr"
    using assms(5,7) unfolding MarshalResponse_def by blast
  have "query_of_json jq = Some q"
    using stable_query jq(2) query_back [OF assms(1,2)] unfolding stable_def by blast
  moreover have "response_of_json unbase64 jr = Some (sorted_response r)"
    using stable_response jr(2) response_back [OF assms(3), of unbase64 base64] unfolding stable_def by fastforce
  ultimately show ?thesis
    using jq(1) jr(1) by (simp add: UnmarshalQuery_def UnmarshalResponse_def)
qed

text \<open>An encoder that writes one response with a host and a location on the equator, whose latitude is
  read back as an integer.\<close>

definition demo_hosts_response :: Response where
  "demo_hosts_response = zero_Response\<lparr>rsp_Type := ResponseOK, rsp_Count := 1, rsp_Hosts := [
     \<lparr>hh_Hostname = ''a'', hh_MachineID = [], hh_Addresses = [''10.0.0.7''], hh_Status = ''healthy'',
      hh_Services = [(''www'', '':80''), (''dns'', '':53'')], hh_LastSeen = 1, hh_LastSeenAgo = ''1s ago'', hh_IsStatic = False\<rparr>],
     rsp_Locations := [\<lparr>lh_SourceID = ''gps'', lh_Latitude = 0, lh_Longitude = 1 / 2, lh_Altitude = 45, lh_Satellites = 7,
      lh_Fix = True, lh_LastSeen = 1, lh_LastSeenAgo = ''1s ago''\<rparr>]\<rparr>"

definition demo_response_text :: json where
  "demo_response_text = JObj [(''type'', JStr ResponseOK), (''request_id'', JStr []), (''count'', JInt 1),
     (''hosts'', JArr [JObj [(''hostname'', JStr ''a''), (''addresses'', JArr [JStr ''10.0.0.7'']), (''status'', JStr ''healthy''),
        (''services'', JObj [(''dns'', JStr '':53''), (''www'', JStr '':80'')]), (''last_seen'', JInt 1),
        (''last_seen_ago'', JStr ''1s ago''), (''is_static'', JBool False)]]),
     (''locations'', JArr [JObj [(''source_id'', JStr ''gps''), (''latitude'', JInt 0), (''longitude'', JNum (1 / 2)),
        (''altitude'', JInt 45), (''satellites'', JInt 7), (''fix'', JBool True), (''last_seen'', JInt 1),
        (''last_seen_ago'', JStr ''1s ago'')]])]"

lemma demo_response_reads: "reads (json_Response base64 demo_hosts_response) demo_response_text"
  by code_simp

theorem protocol_json_roundtrip_witness:
  "UnmarshalResponse unbase64 (\<lambda>d. Inr (if d = ''r'' then demo_response_text else json_Query zero_Query)) (\<lambda>_. []) ''r''
     = Inr (sorted_response demo_hosts_response)
   \<and> map lh_Altitude (rsp_Locations (sorted_response demo_hosts_response)) = [45]"
proof
  let ?marshal = "\<lambda>j. Inr (if j = json_Response base64 demo_hosts_response then ''r'' else ''q'')"
  have ne: "json_Query zero_Query \<noteq> json_Response base64 demo_hosts_response" by code_simp
  have q: "reads (json_Query zero_Query) (json_Query zero_Query)" by code_simp
  have "go_response demo_hosts_response"
    by (simp add: demo_hosts_response_def go_response_def zero_Response_def go_host_def)
  then show "UnmarshalResponse unbase64 (\<lambda>d. Inr (if d = ''r'' then demo_response_text else json_Query zero_Query)) (\<lambda>_. []) ''r''
     = Inr (sorted_response demo_hosts_response)"
    using ne q demo_response_reads
    by (intro protocol_json_roundtrip [of zero_Query demo_hosts_response ?marshal "''q''" "''r''"
          "\<lambda>d. Inr (if d = ''r'' then demo_response_text else json_Query zero_Query)"
          "\<lambda>_. []", THEN conjunct2])
       (auto simp: MarshalQuery_def MarshalResponse_def zero_Query_def)
qed (simp add: sorted_response_def demo_hosts_response_def)

end
