(* ===== verification/Time_Client.thy ===== *)
theory Time_Client
  imports Nss_Json
begin

text \<open>
  The connection of a client to the daemon, and the client of the time commands
  (\<^verbatim>\<open>internal/client/client.go\<close>). A connection carries \<open>json\<close> values.
\<close>

section \<open>Connection\<close>

text \<open>
  What a client sees of the socket and of the daemon \<open>'s\<close> behind it: the errors of dialling a
  path, of setting the deadline and of writing, if any; the answer to the value it sends, or the error of
  reading it; and the decoder's error for a value that does not fit. A deadline that passes is one
  of the errors of reading.
\<close>

record 's daemon_link =
  dl_dial :: "string \<Rightarrow> string option"
  dl_deadline :: "string option"
  dl_send :: "string option"
  dl_serve :: "json \<Rightarrow> 's \<Rightarrow> 's \<times> (string + json)"
  dl_mismatch :: "json \<Rightarrow> string"
  dl_unb64 :: "string \<Rightarrow> string option"

definition connect :: "'s daemon_link \<Rightarrow> string \<Rightarrow> string option" where
  "connect link socketPath =
     (case dl_dial link socketPath of
        Some err \<Rightarrow> Some (''failed to connect to daemon: '' @ err)
      | None \<Rightarrow> map_option (\<lambda>err. ''failed to set deadline: '' @ err) (dl_deadline link))"

text \<open>A request and its response, decoded into a map.\<close>

definition time_exchange :: "'s daemon_link \<Rightarrow> string \<Rightarrow> json \<Rightarrow> 's \<Rightarrow> 's \<times> (string + json)" where
  "time_exchange link socketPath req s =
     (case connect link socketPath of
        Some err \<Rightarrow> (s, Inl err)
      | None \<Rightarrow>
          (case dl_send link of
             Some err \<Rightarrow> (s, Inl (''failed to send request: '' @ err))
           | None \<Rightarrow>
               (case dl_serve link req s of
                  (s1, Inl err) \<Rightarrow> (s1, Inl (''failed to read response: '' @ err))
                | (s1, Inr resp) \<Rightarrow>
                    if obj_fields resp = None then (s1, Inl (''failed to read response: '' @ dl_mismatch link resp))
                    else (s1, Inr resp))))"

section \<open>Client\<close>

record TimeStatus =
  cts_Synced :: bool
  cts_SourceCount :: int
  cts_LastOffset :: float64
  cts_LastSyncTime :: string
  cts_LastError :: string

record ClientForceResult =
  cfr_Success :: bool
  cfr_Offset :: float64
  cfr_Method :: string
  cfr_SourceCount :: int
  cfr_Error :: string

text \<open>A value decoded into \<^verbatim>\<open>map[string]interface{}\<close>: every number is a float there.\<close>

definition dyn_field :: "json \<Rightarrow> string \<Rightarrow> json option" where
  "dyn_field resp k =
     (case resp of
        JObj fs \<Rightarrow> (case map_of fs k of Some (JInt n) \<Rightarrow> Some (JNum (of_int n)) | v \<Rightarrow> v)
      | _ \<Rightarrow> None)"

definition dyn_bool :: "json option \<Rightarrow> bool" where
  "dyn_bool v = (case v of Some (JBool b) \<Rightarrow> b | _ \<Rightarrow> False)"

definition dyn_num :: "json option \<Rightarrow> float64" where
  "dyn_num v = (case v of Some (JNum f) \<Rightarrow> f | _ \<Rightarrow> 0)"

definition time_status_request :: "time \<Rightarrow> json" where
  "time_status_request now = JObj [(''request_id'', JStr (''time-'' @ itoa now)), (''type'', JStr ''TIME_STATUS'')]"

definition time_status_of :: "json \<Rightarrow> TimeStatus" where
  "time_status_of resp =
     \<lparr>cts_Synced = dyn_bool (dyn_field resp ''synced''),
      cts_SourceCount = float_to_int64 (dyn_num (dyn_field resp ''source_count'')),
      cts_LastOffset = dyn_num (dyn_field resp ''last_offset''),
      cts_LastSyncTime = json_str (dyn_field resp ''last_sync_time''),
      cts_LastError = json_str (dyn_field resp ''last_error'')\<rparr>"

definition GetTimeStatus :: "'s daemon_link \<Rightarrow> string \<Rightarrow> time \<Rightarrow> 's \<Rightarrow> 's \<times> (string + TimeStatus)" where
  "GetTimeStatus link socketPath now s =
     (let (s1, resp) = time_exchange link socketPath (time_status_request now) s
      in (s1, map_sum id time_status_of resp))"

definition force_update_request :: "time \<Rightarrow> bool \<Rightarrow> json" where
  "force_update_request now allowBackward =
     JObj [(''allow_backward'', JBool allowBackward), (''request_id'', JStr (''force-'' @ itoa now)),
       (''type'', JStr ''TIME_FORCE_UPDATE'')]"

definition force_result_of :: "json \<Rightarrow> ClientForceResult" where
  "force_result_of resp =
     \<lparr>cfr_Success = dyn_bool (dyn_field resp ''success''),
      cfr_Offset = dyn_num (dyn_field resp ''offset''),
      cfr_Method = json_str (dyn_field resp ''method''),
      cfr_SourceCount = float_to_int64 (dyn_num (dyn_field resp ''source_count'')),
      cfr_Error = json_str (dyn_field resp ''error'')\<rparr>"

definition ForceTimeUpdate :: "'s daemon_link \<Rightarrow> string \<Rightarrow> time \<Rightarrow> bool \<Rightarrow> 's \<Rightarrow> 's \<times> (string + ClientForceResult)" where
  "ForceTimeUpdate link socketPath now allowBackward s =
     (let (s1, resp) = time_exchange link socketPath (force_update_request now allowBackward) s
      in (s1, map_sum id force_result_of resp))"

section \<open>Lemmas\<close>

lemma json_Response_fields:
  "k \<notin> {''type'', ''request_id'', ''name'', ''aliases'', ''addr_type'', ''addr_len'', ''addrs'', ''error'', ''records'',
     ''count'', ''hosts'', ''services'', ''locations''} \<Longrightarrow> dyn_field (json_Response b64 r) k = None"
  by (simp add: dyn_field_def json_Response_def map_add_def map_of_json_opt)

lemma time_status_blank:
  "time_status_of (json_Response b64 rsp) =
     \<lparr>cts_Synced = False, cts_SourceCount = 0, cts_LastOffset = 0, cts_LastSyncTime = [], cts_LastError = []\<rparr>"
  by (simp add: time_status_of_def json_Response_fields dyn_bool_def dyn_num_def json_str_def float_to_int64_def float_trunc_def)

lemma force_result_blank: "\<not> cfr_Success (force_result_of (json_Response b64 rsp))"
  by (simp add: force_result_of_def json_Response_fields dyn_bool_def)

lemma map_sum_Inr: "map_sum f g x = Inr y \<longleftrightarrow> (\<exists>z. x = Inr z \<and> y = g z)"
  by (cases x) auto

section \<open>Properties\<close>

text \<open>The time commands of the client never show what the daemon did: whatever response the
  daemon sends, the client reads an unsynchronised status with no sources, and reports a forced
  update as failed, because it looks for the fields at the top level of a response that carries
  them encoded inside another field.\<close>

theorem client_never_sees_time_status:
  assumes "\<And>j s s' v. dl_serve link j s = (s', Inr v) \<Longrightarrow> \<exists>rsp. v = json_Response b64 rsp"
  shows "(GetTimeStatus link path now s = (s1, Inr status) \<longrightarrow> status =
      \<lparr>cts_Synced = False, cts_SourceCount = 0, cts_LastOffset = 0, cts_LastSyncTime = [], cts_LastError = []\<rparr>)
    \<and> (ForceTimeUpdate link path now allowBackward s = (s2, Inr res) \<longrightarrow> \<not> cfr_Success res)"
proof -
  have "\<exists>rsp. v = json_Response b64 rsp" if "time_exchange link path req s = (s', Inr v)" for req s' v
    using that assms by (auto simp: time_exchange_def split: option.splits prod.splits sum.splits if_splits)
  then show ?thesis
    using time_status_blank [of b64] force_result_blank [of b64]
    by (auto simp: GetTimeStatus_def ForceTimeUpdate_def map_sum_Inr split: prod.splits) blast+
qed

text \<open>A daemon that answers every request with the same response.\<close>

definition demo_link :: "Response \<Rightarrow> unit daemon_link" where
  "demo_link rsp = \<lparr>dl_dial = (\<lambda>_. None), dl_deadline = None, dl_send = None,
     dl_serve = (\<lambda>_ s. (s, Inr (json_Response id rsp))), dl_mismatch = (\<lambda>_. ''mismatch''), dl_unb64 = Some\<rparr>"

theorem client_never_sees_time_status_witness:
  "\<exists>status. GetTimeStatus (demo_link demo_hosts_response) ''sock'' 0 () = ((), Inr status) \<and> \<not> cts_Synced status"
proof -
  have g: "GetTimeStatus (demo_link demo_hosts_response) ''sock'' 0 () =
      ((), Inr (time_status_of (json_Response id demo_hosts_response)))"
    by (simp add: GetTimeStatus_def time_exchange_def connect_def demo_link_def obj_fields_def json_Response_def)
  have "\<exists>rsp. v = json_Response id rsp" if "dl_serve (demo_link demo_hosts_response) j s = (s', Inr v)" for j s s' v
    using that by (auto simp: demo_link_def)
  then have "(GetTimeStatus (demo_link demo_hosts_response) ''sock'' 0 () = ((), Inr status) \<longrightarrow> status =
      \<lparr>cts_Synced = False, cts_SourceCount = 0, cts_LastOffset = 0, cts_LastSyncTime = [], cts_LastError = []\<rparr>)
      \<and> (ForceTimeUpdate (demo_link demo_hosts_response) ''sock'' 0 True () = ((), Inr res) \<longrightarrow> \<not> cfr_Success res)" for status res
    by (rule client_never_sees_time_status)
  with g have "time_status_of (json_Response id demo_hosts_response) =
      \<lparr>cts_Synced = False, cts_SourceCount = 0, cts_LastOffset = 0, cts_LastSyncTime = [], cts_LastError = []\<rparr>" by simp
  with g show ?thesis by simp
qed

text \<open>The permission to step the clock backwards does not reach the daemon: with and without
  it the daemon decodes the same request, and it never permits the backward step.\<close>

theorem backward_permission_lost:
  "\<exists>q. query_of_json (force_update_request now allowBackward) = Some q \<and>
     query_of_json (force_update_request now (\<not> allowBackward)) = Some q \<and>
     (case handleQuery env announce now' q s of
        None \<Rightarrow> True
      | Some (s', rsp) \<Rightarrow>
          (case sv_timeSync s of
             None \<Rightarrow> s' = s
           | Some ts \<Rightarrow>
               (case ForceUpdate (se_sort env) (se_kernel env) now' False ts of
                  None \<Rightarrow> False
                | Some (ts', acts, res) \<Rightarrow> sv_timeSync s' = Some ts')))"
  by (auto simp: query_of_json_def force_update_request_def json_field_simps
      handleQuery_def handleTimeForceUpdate_def Let_def split: option.splits sum.splits)

end
