(* ===== verification/Cli_Client.thy ===== *)
theory Cli_Client
  imports Cli_Output Time_Client
begin

text \<open>
  The socket client of the command line tool (\<^verbatim>\<open>cmd/disco/internal/cli/client.go\<close>) and what
  its commands share (\<^verbatim>\<open>cmd/disco/commands/root.go\<close>). A command is a function of the daemon
  behind the socket; it returns the daemon after the command, what was written, and the exit code or,
  for a command that returns its error to the framework, the error.
\<close>

section \<open>Surroundings of a command\<close>

text \<open>
  The flags that all commands have, the environment variable \<^verbatim>\<open>DISCO_SOCKET\<close>, the loader
  of the configuration file, \<^verbatim>\<open>json.MarshalIndent\<close>, \<^verbatim>\<open>strconv.Quote\<close>, whether the
  output is a terminal, the time that the request identifiers carry, the parser of IPv6 addresses, and the
  order in which a range loop visits a map.
\<close>

record cli_env =
  ce_socketPath :: string
  ce_configPath :: string
  ce_outputJSON :: bool
  ce_discoSocket :: string
  ce_load :: "string \<Rightarrow> string + Config"
  ce_marshalIndent :: marshaller
  ce_quote :: "string \<Rightarrow> string"
  ce_tty :: bool
  ce_now :: time
  ce_v6 :: "string \<Rightarrow> IP option"
  ce_range :: "(string, string) gomap \<Rightarrow> (string, string) gomap"

definition DefaultSocketPath :: string where
  "DefaultSocketPath = ''/run/disco/disco.sock''"

definition getSocketPath :: "cli_env \<Rightarrow> string" where
  "getSocketPath env =
     (if ce_socketPath env \<noteq> [] then ce_socketPath env
      else if ce_discoSocket env \<noteq> [] then ce_discoSocket env
      else if ce_configPath env \<noteq> [] then
        (case ce_load env (ce_configPath env) of
           Inr cfg \<Rightarrow> if dc_SocketPath (c_Daemon cfg) \<noteq> [] then dc_SocketPath (c_Daemon cfg) else DefaultSocketPath
         | Inl _ \<Rightarrow> DefaultSocketPath)
      else DefaultSocketPath)"

definition checkError :: "string \<Rightarrow> written \<times> int" where
  "checkError err = (print_err (''Error: '' @ err), 1)"

section \<open>Client\<close>

definition cli_Query :: "'s daemon_link \<Rightarrow> string \<Rightarrow> Query \<Rightarrow> 's \<Rightarrow> 's \<times> (string + Response)" where
  "cli_Query link socketPath query s =
     (case dl_dial link socketPath of
        Some err \<Rightarrow> (s, Inl (''failed to connect to daemon: '' @ err @ '' (is disco-daemon running?)''))
      | None \<Rightarrow>
          (case dl_deadline link of
             Some err \<Rightarrow> (s, Inl (''failed to set deadline: '' @ err))
           | None \<Rightarrow>
               (case dl_send link of
                  Some err \<Rightarrow> (s, Inl (''failed to send query: '' @ err))
                | None \<Rightarrow>
                    (case dl_serve link (json_Query query) s of
                       (s1, Inl err) \<Rightarrow> (s1, Inl (''failed to decode response: '' @ err))
                     | (s1, Inr j) \<Rightarrow>
                         (case response_of_json (dl_unb64 link) j of
                            None \<Rightarrow> (s1, Inl (''failed to decode response: '' @ dl_mismatch link j))
                          | Some response \<Rightarrow> (s1, Inr response))))))"

definition GenerateRequestID :: "time \<Rightarrow> string \<Rightarrow> string" where
  "GenerateRequestID now prefix = prefix @ ''-'' @ itoa now"

definition HandleResponse :: "Response \<Rightarrow> string + Response" where
  "HandleResponse response =
     (if rsp_Type response = ResponseError then Inl (rsp_Error response) else Inr response)"

text \<open>The mock of the client that the tests of the commands use.\<close>

record MockDaemonClient =
  mk_Response :: "Response option"
  mk_Error :: "string option"
  mk_CallCount :: int

definition NewMockDaemonClient :: "Response option \<Rightarrow> string option \<Rightarrow> MockDaemonClient" where
  "NewMockDaemonClient response err = \<lparr>mk_Response = response, mk_Error = err, mk_CallCount = 0\<rparr>"

definition Mock_Query :: "Query \<Rightarrow> MockDaemonClient \<Rightarrow> MockDaemonClient \<times> (string + Response)" where
  "Mock_Query query m =
     (let m1 = m\<lparr>mk_CallCount := wrap64 (mk_CallCount m + 1)\<rparr>
      in case mk_Error m1 of
           Some err \<Rightarrow> (m1, Inl err)
         | None \<Rightarrow>
             (case mk_Response m1 of
                None \<Rightarrow> (m1\<lparr>mk_Response := Some zero_Response\<rparr>, Inr zero_Response)
              | Some r \<Rightarrow> (m1, Inr r)))"

section \<open>Commands\<close>

type_synonym 's outcome = "'s \<times> written \<times> int"
type_synonym 's outcome_err = "'s \<times> written \<times> string option"

text \<open>
  The beginning of every command that asks the daemon: an error of the connection or an error
  response ends it with exit code 1.
\<close>

definition ask_daemon :: "cli_env \<Rightarrow> 's daemon_link \<Rightarrow> Query \<Rightarrow> 's \<Rightarrow> 's \<times> (string + Response)" where
  "ask_daemon env link query s =
     (let (s1, r) = cli_Query link (getSocketPath env) query s
      in (s1, case r of Inl err \<Rightarrow> Inl err | Inr response \<Rightarrow> HandleResponse response))"

definition with_response :: "cli_env \<Rightarrow> 's daemon_link \<Rightarrow> Query \<Rightarrow> (Response \<Rightarrow> 's \<Rightarrow> 's outcome) \<Rightarrow> 's \<Rightarrow> 's outcome" where
  "with_response env link query k s =
     (case ask_daemon env link query s of
        (s1, Inl err) \<Rightarrow> (s1, checkError err)
      | (s1, Inr response) \<Rightarrow> k response s1)"

definition output_json :: "cli_env \<Rightarrow> json \<Rightarrow> written \<times> int" where
  "output_json env v = (case OutputJSON (ce_marshalIndent env) v of Inl out \<Rightarrow> (out, 0) | Inr err \<Rightarrow> checkError err)"

text \<open>A slice that the decoder left \<^verbatim>\<open>nil\<close> is encoded as null.\<close>

definition json_list :: "('a \<Rightarrow> json) \<Rightarrow> 'a list \<Rightarrow> json" where
  "json_list f xs = (if xs = [] then JNull else JArr (map f xs))"

definition short_id :: "string \<Rightarrow> string" where
  "short_id i = (if length i > 8 then take 8 i else i)"

definition table_id :: "string \<Rightarrow> string" where
  "table_id i = (if i = [] then ''-'' else short_id i)"

text \<open>Concrete surroundings for the witnesses.\<close>

definition demo_cli :: cli_env where
  "demo_cli = \<lparr>ce_socketPath = ''/s'', ce_configPath = [], ce_outputJSON = False, ce_discoSocket = [], ce_load = (\<lambda>_. Inl []),
     ce_marshalIndent = demo_marshal, ce_quote = (\<lambda>s. s), ce_tty = False, ce_now = 7, ce_v6 = (\<lambda>_. None), ce_range = (\<lambda>m. m)\<rparr>"

lemma demo_cli_path [simp]: "getSocketPath demo_cli = ''/s''"
  by (simp add: getSocketPath_def demo_cli_def)

end
