(* ===== verification/Daemon_Link.thy ===== *)
theory Daemon_Link
  imports Daemon Cli_Client Base64
begin

text \<open>
  The daemon at the other end of the socket. A state whose maps are well-formed and whose integers fit
  Go's integers only produces answers that the client decodes unchanged; the services of every reachable
  record are a well-formed map. The locale of this theory is what the commands rely on.
\<close>

section \<open>Types of the answers\<close>

definition typed_record :: "Record \<Rightarrow> bool" where
  "typed_record r \<longleftrightarrow> gm_wf (r_Services r) \<and> in_int64 (r_Timestamp r)"

definition typed_location :: "LocationHealth \<Rightarrow> bool" where
  "typed_location l \<longleftrightarrow> in_int64 (lh_Satellites l) \<and> in_int64 (lh_LastSeen l)"

definition service_total :: "Record list \<Rightarrow> nat" where
  "service_total records = sum_list (map (\<lambda>r. length (r_Services r)) records)"

text \<open>The integers of the state and the sizes that an answer counts fit 64 bits.\<close>

definition ints_fit :: "'z shared_scheme \<Rightarrow> bool" where
  "ints_fit s \<longleftrightarrow> list_all (\<lambda>e. in_int64 (r_Timestamp (snd e))) (rs_records (sv_store s))
     \<and> int (length (rs_records (sv_store s)) + service_total (map snd (rs_records (sv_store s)))) < 2 ^ 63
     \<and> (case sv_locationStore s of None \<Rightarrow> True
         | Some ls \<Rightarrow> list_all (typed_location \<circ> snd) (ls_records ls) \<and> int (length (ls_records ls)) < 2 ^ 63)"

definition services_wf :: "RecordStore \<Rightarrow> bool" where
  "services_wf rs \<longleftrightarrow> list_all (\<lambda>e. gm_wf (r_Services (snd e))) (rs_records rs)"

definition typed_shared :: "'z shared_scheme \<Rightarrow> bool" where
  "typed_shared s \<longleftrightarrow> services_wf (sv_store s) \<and> ints_fit s"

lemma typed_shared_iff:
  "typed_shared s \<longleftrightarrow> list_all (typed_record \<circ> snd) (rs_records (sv_store s))
     \<and> int (length (rs_records (sv_store s)) + service_total (map snd (rs_records (sv_store s)))) < 2 ^ 63
     \<and> (case sv_locationStore s of None \<Rightarrow> True
         | Some ls \<Rightarrow> list_all (typed_location \<circ> snd) (ls_records ls) \<and> int (length (ls_records ls)) < 2 ^ 63)"
  by (auto simp: typed_shared_def services_wf_def ints_fit_def typed_record_def list_all_iff)

lemma refresh_all_records [simp]:
  "rs_records (refresh_all now rs) = map (apsnd (UpdateRecordStatus (rs_healthTracker rs) now)) (rs_records rs)"
  by (simp add: refresh_all_def apsnd_def map_prod_def split_beta)

lemma UpdateRecordStatus_services [simp]: "r_Services (UpdateRecordStatus ht now r) = r_Services r"
  by (simp add: UpdateRecordStatus_def)

lemma typed_UpdateRecordStatus [simp]: "typed_record (UpdateRecordStatus ht now r) = typed_record r"
  by (simp add: typed_record_def UpdateRecordStatus_def)

lemma typed_host_health: "typed_record r \<Longrightarrow> go_host (host_health now r)"
  by (simp add: typed_record_def go_host_def host_health_def)

text \<open>The number of services in an answer.\<close>

lemma length_update [simp]: "length (AList.update k v m) \<le> Suc (length m)"
  by (induction m) auto

lemma length_fold_bounded:
  assumes "\<And>x m. length (f x m) \<le> length m + w x"
  shows "length (fold f xs m) \<le> length m + sum_list (map w xs)"
proof (induction xs arbitrary: m)
  case (Cons x xs)
  show ?case using Cons [of "f x m"] assms [of x m] by simp
qed simp

lemma services_by_name_length: "length (services_by_name records) \<le> service_total records"
proof -
  have "length (add_service_health r e m) \<le> length m + 1" for r e m
    by (simp add: add_service_health_def Let_def)
  from length_fold_bounded [of "add_service_health _" "\<lambda>_. 1", OF this]
  have "length (fold (add_service_health r) (r_Services r) m) \<le> length m + length (r_Services r)" for r m
    by (simp add: sum_list_triv)
  from length_fold_bounded [of "\<lambda>r. fold (add_service_health r) (r_Services r)", OF this, of records "[]"]
  show ?thesis by (simp add: services_by_name_def service_total_def)
qed

lemma list_services_length: "length (list_services records) \<le> service_total records"
proof -
  have "length (add_service_host h e m) \<le> length m + 1" for h e m
    by (auto simp: add_service_host_def split: sum.split prod.split bool.split)
  from length_fold_bounded [of "add_service_host _" "\<lambda>_. 1", OF this]
  have "length (fold (add_service_host (r_Hostname r)) (r_Services r) m) \<le> length m + length (r_Services r)" for r m
    by (simp add: sum_list_triv)
  from length_fold_bounded [of "\<lambda>r. fold (add_service_host (r_Hostname r)) (r_Services r)", OF this, of records "[]"]
  show ?thesis by (simp add: list_services_def service_total_def)
qed

lemma fold_keeps: "(\<And>x m. P m \<Longrightarrow> P (f x m)) \<Longrightarrow> P m \<Longrightarrow> P (fold f xs m)"
  by (induction xs arbitrary: m) simp_all

lemma services_by_name_ports: "list_all (\<lambda>svc. in_int64 (sh_Port svc)) (map snd (services_by_name records))"
proof -
  define P where "P m \<longleftrightarrow> (\<forall>n svc. map_of m n = Some svc \<longrightarrow> sh_Port svc = 0)" for m :: "(string, ServiceHealth) gomap"
  have "P m \<Longrightarrow> P (add_service_health r e m)" for r e m
    by (cases "map_of m (fst e)") (simp_all add: P_def add_service_health_def Let_def)
  then have "P m \<Longrightarrow> P (fold (add_service_health r) svcs m)" for r svcs m by (rule fold_keeps [of P])
  then have "P (services_by_name records)"
    unfolding services_by_name_def by (rule fold_keeps [of P "\<lambda>r. fold (add_service_health r) (r_Services r)"]) (auto simp: P_def)
  then show ?thesis
    using services_by_name_wf [of records] by (auto simp: P_def list_all_iff)
qed

lemma go_response_base [simp]:
  "go_response zero_Response" "go_response (r\<lparr>rsp_Type := t\<rparr>) = go_response r" "go_response (r\<lparr>rsp_RequestID := i\<rparr>) = go_response r"
  "go_response (r\<lparr>rsp_Name := n\<rparr>) = go_response r" "go_response (r\<lparr>rsp_Addrs := as\<rparr>) = go_response r"
  "go_response (r\<lparr>rsp_Error := e\<rparr>) = go_response r" "go_response (r\<lparr>rsp_Records := d\<rparr>) = go_response r"
  by (simp_all add: go_response_def zero_Response_def)

lemma go_response_new [simp]:
  "go_response (NewOKResponse i n as)" "go_response (NewNotFoundResponse i)" "go_response (NewErrorResponse i e)"
  "go_response (ok_response q)" "go_response (time_disabled q)"
  by (simp_all add: NewOKResponse_def NewNotFoundResponse_def NewErrorResponse_def ok_response_def time_disabled_def)

lemma go_response_lists:
  "go_response r \<Longrightarrow> in_int64 c \<Longrightarrow> list_all go_host hs \<Longrightarrow> go_response (r\<lparr>rsp_Hosts := hs, rsp_Count := c\<rparr>)"
  "go_response r \<Longrightarrow> in_int64 c \<Longrightarrow> list_all (\<lambda>s. in_int64 (sh_Port s)) ss \<Longrightarrow> go_response (r\<lparr>rsp_Services := ss, rsp_Count := c\<rparr>)"
  "go_response r \<Longrightarrow> in_int64 c \<Longrightarrow> list_all typed_location ls \<Longrightarrow> go_response (r\<lparr>rsp_Locations := ls, rsp_Count := c\<rparr>)"
  "go_response r \<Longrightarrow> in_int64 c \<Longrightarrow> go_response (r\<lparr>rsp_Records := d, rsp_Count := c\<rparr>)"
  by (simp_all add: go_response_def list_all_iff typed_location_def)

lemma in_int64_length: "n \<le> m \<Longrightarrow> int m < 2 ^ 63 \<Longrightarrow> in_int64 (int n)"
  by simp

lemma ListRecords_sizes:
  "length (ListRecords rs now) \<le> length (rs_records rs)" "service_total (ListRecords rs now) \<le> service_total (map snd (rs_records rs))"
proof -
  have "service_total (filter P xs) \<le> service_total xs" for P xs by (induction xs) (auto simp: service_total_def)
  then show "service_total (ListRecords rs now) \<le> service_total (map snd (rs_records rs))" unfolding ListRecords_def .
  show "length (ListRecords rs now) \<le> length (rs_records rs)" by (simp add: ListRecords_def le_trans [OF length_filter_le])
qed

lemma ListAll_typed:
  assumes "typed_shared s"
  shows "list_all typed_record (snd (ListAll now (sv_store s)))"
    and "length (snd (ListAll now (sv_store s))) = length (rs_records (sv_store s))"
    and "service_total (snd (ListAll now (sv_store s))) = service_total (map snd (rs_records (sv_store s)))"
  using assms
  by (auto simp: ListAll_def Let_def typed_shared_iff list_all_iff service_total_def comp_def)

lemma typed_handlers:
  assumes "typed_shared s"
  shows "go_response (snd (handleHostsList now q s))" "go_response (snd (handleHostsShow now q s))"
    "go_response (snd (handleServicesList now q s))" "go_response (snd (handleServicesShow now q s))"
    "go_response (handleQueryListHosts m now q s)" "go_response (handleQueryListServices m now q s)"
    "go_response (handleLocationList now q s)" "go_response (handleLocationShow now q s)"
proof -
  let ?n = "length (rs_records (sv_store s))" and ?m = "service_total (map snd (rs_records (sv_store s)))"
  have bound: "in_int64 (int k)" if "k \<le> ?n \<or> k \<le> ?m" for k
    using assms that by (intro in_int64_length [of k "?n + ?m"]) (auto simp: typed_shared_iff)
  note la = ListAll_typed [OF assms, of now]
  have hosts: "list_all go_host (map (host_health now) (snd (ListAll now (sv_store s))))"
    using la(1) by (simp add: list_all_iff typed_host_health)
  show "go_response (snd (handleHostsList now q s))"
    unfolding handleHostsList_def split_beta Let_def snd_conv
    by (intro go_response_lists go_response_new hosts bound) (simp add: la(2))
  show "go_response (snd (handleServicesList now q s))"
    unfolding handleServicesList_def split_beta Let_def snd_conv
    by (intro go_response_lists go_response_new services_by_name_ports bound)
       (use services_by_name_length [of "snd (ListAll now (sv_store s))"] la(3) in simp)
  have "go_host (host_health now r)" if "find P (snd (ListAll now (sv_store s))) = Some r" for P r
    using la(1) that by (auto simp: list_all_iff find_Some_iff intro!: typed_host_health)
  then show "go_response (snd (handleHostsShow now q s))"
    by (auto simp: handleHostsShow_def Let_def split_beta split: option.split intro!: go_response_lists)
  show "go_response (snd (handleServicesShow now q s))"
    by (auto simp: handleServicesShow_def Let_def split_beta intro!: go_response_lists)
  show "go_response (handleQueryListHosts m now q s)"
    using bound ListRecords_sizes(1) [of "sv_store s" now]
    by (auto simp: handleQueryListHosts_def Let_def split: sum.split intro!: go_response_lists)
  show "go_response (handleQueryListServices m now q s)"
    using bound le_trans [OF list_services_length ListRecords_sizes(2) [of "sv_store s" now]]
    by (auto simp: handleQueryListServices_def Let_def split: sum.split intro!: go_response_lists)
  have loc: "typed_location (with_age now l) = typed_location l" for l by (simp add: typed_location_def with_age_def)
  show "go_response (handleLocationList now q s)"
    using assms by (auto simp: handleLocationList_def Let_def typed_shared_iff Location_List_def list_all_iff split_beta loc
        split: option.splits intro!: go_response_lists)
  show "go_response (handleLocationShow now q s)"
  proof -
    have "typed_location l" if "sv_locationStore s = Some ls" "map_of (ls_records ls) k = Some l" for ls k l
      using assms that(1) map_of_SomeD [OF that(2)] by (auto simp: typed_shared_iff list_all_iff)
    then show ?thesis
      by (auto simp: handleLocationShow_def Location_Get_def loc split: option.splits intro!: go_response_lists)
  qed
qed

lemma simple_answers:
  "go_response (handleQueryByName now q s)" "go_response (handleQueryByAddr now q s)"
  "go_response (handleQueryList m now q s)" "go_response (handleTimeStatus env q s)"
  "go_response (snd (handleHostsForget q s))" "go_response (snd (handleHostsMarkLost q s))"
  "go_response (handleServicesForget q)" "go_response (snd (handleServiceAnnounce announce q s))"
  by (auto simp: handleQueryByName_def handleQueryByAddr_def handleQueryList_def handleTimeStatus_def handleHostsForget_def
      handleHostsMarkLost_def handleServicesForget_def handleServiceAnnounce_def Let_def split: option.split sum.split prod.split)

text \<open>Every answer is made of Go's integers and maps.\<close>

lemma handleQuery_typed:
  assumes "handleQuery env announce now q s = Some (s', r)" and "typed_shared s"
  shows "go_response r"
proof -
  have force: "go_response r" if "handleTimeForceUpdate env now q s = Some (s', r)"
    using that by (auto simp: handleTimeForceUpdate_def Let_def split: option.splits sum.splits prod.splits)
  have pair: "go_response (snd h) \<Longrightarrow> h = (s', r) \<Longrightarrow> go_response r" for h :: "'a shared_scheme \<times> Response" by auto
  note t = typed_handlers [OF assms(2), where now = now and q = q]
  note pairs = pair [OF t(1)] pair [OF t(2)] pair [OF t(3)] pair [OF t(4)] simple_answers(5,6,8) [THEN pair]
  show ?thesis
    using assms(1) simple_answers(1-4,7) t(5,6) [where m = "se_marshal env"] t(7,8) unfolding handleQuery_def Let_def
    by (auto split: if_split_asm dest: force pairs)
qed

section \<open>Link\<close>

text \<open>
  The connection handler behind the socket: the client meets the end of the stream when the daemon closes
  the connection without an answer.
\<close>

definition daemon_serve :: "sock_env \<Rightarrow> 'z shared_scheme announcer_fn option \<Rightarrow> time \<Rightarrow> json
    \<Rightarrow> 'z shared_scheme \<Rightarrow> 'z shared_scheme \<times> (string + json)" where
  "daemon_serve env announce now request s =
     (case handleConnection query_of_json env announce now request s of
        None \<Rightarrow> (s, Inl ''EOF'')
      | Some (s1, None) \<Rightarrow> (s1, Inl ''EOF'')
      | Some (s1, Some response) \<Rightarrow> (s1, Inr (json_Response base64 response)))"

text \<open>
  A socket at one path, without errors of the connection. It carries the JSON values themselves: what
  \<^verbatim>\<open>encoding/json\<close> does to text that is not UTF-8 and to the form of numbers is left out. That the decoders do
  not depend on the form of a number is shown in \<open>Nss_Json\<close>.
\<close>

definition socket_link :: "sock_env \<Rightarrow> 'z shared_scheme announcer_fn option
    \<Rightarrow> time \<Rightarrow> string \<Rightarrow> 'z shared_scheme daemon_link" where
  "socket_link env announce now socketPath =
     \<lparr>dl_dial = (\<lambda>p. if p = socketPath then None else Some (''dial unix '' @ p @ '': connect: no such file or directory'')),
      dl_deadline = None, dl_send = None, dl_serve = daemon_serve env announce now,
      dl_mismatch = (\<lambda>_. ''json: cannot unmarshal''), dl_unb64 = unbase64\<rparr>"

text \<open>
  What the commands rely on: a query whose integers fit is answered, and the client reads the answer as it
  was given, up to the order of maps.
\<close>

locale query_service =
  fixes link :: "'s daemon_link" and path :: string and answer :: "Query \<Rightarrow> 's \<Rightarrow> ('s \<times> Response) option" and ok :: "'s \<Rightarrow> bool"
  assumes reads: "ok s \<Longrightarrow> answer q s = Some (s', r) \<Longrightarrow> in_int64 (q_Family q) \<Longrightarrow> in_int64 (q_Port q) \<Longrightarrow>
      cli_Query link path q s = (s', Inr (sorted_response r))"
begin

lemma ask_ok:
  assumes "ok s" and "answer q s = Some (s', r)" and "in_int64 (q_Family q)" and "in_int64 (q_Port q)" and "getSocketPath env = path"
  shows "ask_daemon env link q s = (s', HandleResponse (sorted_response r))"
  using reads [OF assms(1-4)] assms(5) by (simp add: ask_daemon_def)

lemma command_ok:
  assumes "ok s" and "answer q s = Some (s', r)" and "in_int64 (q_Family q)" and "in_int64 (q_Port q)" and "getSocketPath env = path"
  shows "with_response env link q k s =
    (if rsp_Type r = ResponseError then (s', checkError (rsp_Error r)) else k (sorted_response r) s')"
  using ask_ok [OF assms] by (simp add: with_response_def HandleResponse_def sorted_response_def)

end

lemma link_delivers:
  assumes "handleQuery env announce now q s = Some (s', r)" and "go_response r" and "in_int64 (q_Family q)" and "in_int64 (q_Port q)"
  shows "cli_Query (socket_link env announce now path) path q s = (s', Inr (sorted_response r))"
  using response_back [OF assms(2), of unbase64 base64] assms query_back [of q]
  by (simp add: cli_Query_def socket_link_def daemon_serve_def handleConnection_def)

interpretation socket: query_service "socket_link env announce now path" path "handleQuery env announce now" typed_shared
  for env announce now path
  by unfold_locales (rule link_delivers, assumption, rule handleQuery_typed)

text \<open>The answers to queries for a name and to forget requests carry no integers, so they arrive in every state.\<close>

definition name_answer :: "sock_env \<Rightarrow> 'z shared_scheme announcer_fn option \<Rightarrow> time \<Rightarrow> Query \<Rightarrow> 'z shared_scheme
    \<Rightarrow> ('z shared_scheme \<times> Response) option" where
  "name_answer env announce now q s =
     (if q_Type q = QueryByName then Some (s, handleQueryByName now q s)
      else if q_Type q = HostsForget then Some (handleHostsForget q s) else None)"

interpretation name_socket: query_service "socket_link env announce now path" path "name_answer env announce now" "\<lambda>_. True"
  for env announce now path
proof
  fix s q s' r
  assume q: "name_answer env announce now q s = Some (s', r)" and int: "in_int64 (q_Family q)" "in_int64 (q_Port q)"
  have "handleQuery env announce now q s = Some (s', r) \<and> go_response r"
    using q simple_answers(1) [of now q s] simple_answers(5) [of q s]
    by (auto simp: name_answer_def handleQuery_def split: if_split_asm)
  then show "cli_Query (socket_link env announce now path) path q s = (s', Inr (sorted_response r))"
    using link_delivers int by blast
qed

lemma services_wf_iff: "store_inv rs \<Longrightarrow> services_wf rs \<longleftrightarrow> (\<forall>h r. map_of (rs_records rs) h = Some r \<longrightarrow> gm_wf (r_Services r))"
  by (simp add: services_wf_def list_all_gm store_inv_wf)

definition typed_store :: "RecordStore \<Rightarrow> bool" where
  "typed_store rs \<longleftrightarrow> store_inv rs \<and> services_wf rs"

lemma typed_quiet:
  assumes "quiet_step rs rs'" and "typed_store rs" shows "typed_store rs'"
proof -
  have inv: "store_inv rs" using assms(2) by (simp add: typed_store_def)
  then have inv': "store_inv rs'" using store_step_inv quiet_is_store_step [OF assms(1)] by blast
  with quiet_entries [OF assms(1) inv] assms(2) inv show ?thesis
    by (simp add: typed_store_def services_wf_iff) metis
qed

lemma typed_add:
  assumes "typed_store rs" and "gm_wf (r_Services r)" shows "typed_store (AddOrUpdate now r rs)"
proof (cases "IsStatic (rs_healthTracker rs) (r_Hostname r)")
  case True
  then show ?thesis using assms(1) by (simp add: AddOrUpdate_static)
next
  case False
  with assms show ?thesis
    by (auto simp: typed_store_def services_wf_iff AddOrUpdate_inv AddOrUpdate_records split: if_splits)
qed

lemma typed_new: "gm_wf hosts \<Longrightarrow> typed_store (NewRecordStore ttl cfg hosts)"
  using store_init_inv [of ttl cfg hosts]
  by (auto simp: typed_store_def services_wf_iff store_init_def NewRecordStore_sel map_of_map_snd static_record_def
      static_services_def fold_update_wf)

interpretation typed_system: transition_system "daemon_init env ne cfg" "daemon_step env" "\<lambda>d. typed_store (sv_store d)" for env ne cfg
proof
  fix d assume "daemon_init env ne cfg d"
  then obtain t d0 t1 where wf: "gm_wf (c_StaticHosts cfg)" and n: "New ne t cfg = Inr d0"
    and r: "Run env (Inr ()) t1 d0 = Some (Inr d)" by (auto simp: daemon_init_def)
  show "typed_store (sv_store d)"
    using Run_Inr(1) [OF r] typed_add [OF typed_new [OF wf]] by (auto simp: New_store [OF n])
next
  fix d d' assume inv: "typed_store (sv_store d)" and step: "daemon_step env d d'"
  have "typed_store rs'" if "quiet_step\<^sup>*\<^sup>* (sv_store d) rs'" for rs'
    using that inv by (induction rule: rtranclp_induct) (auto intro: typed_quiet)
  with daemon_step_store [OF step] typed_add [OF inv] show "typed_store (sv_store d')" by auto
qed

end
