(* ===== verification/Cli_Queries.thy ===== *)
theory Cli_Queries
  imports Cli_Client
begin

text \<open>
  The commands that ask the daemon (\<^verbatim>\<open>cmd/disco/commands\<close>: \<^verbatim>\<open>hosts.go\<close>,
  \<^verbatim>\<open>lookup.go\<close>, \<^verbatim>\<open>status.go\<close>, \<^verbatim>\<open>services.go\<close>, \<^verbatim>\<open>service.go\<close>,
  \<^verbatim>\<open>location.go\<close>, \<^verbatim>\<open>time.go\<close>, \<^verbatim>\<open>check.go\<close>). Each is a function of its arguments, of
  the connection and of the daemon behind it, and ends with what it printed and its exit code.
\<close>

definition cli_query :: "cli_env \<Rightarrow> MessageType \<Rightarrow> string \<Rightarrow> string \<Rightarrow> Query" where
  "cli_query env t name prefix =
     zero_Query\<lparr>q_Type := t, q_Name := name, q_RequestID := GenerateRequestID (ce_now env) prefix\<rparr>"

section \<open>Hosts\<close>

definition host_row :: "cli_env \<Rightarrow> HostHealth \<Rightarrow> string list" where
  "host_row env h =
     (let addrs = Truncate (JoinStrings (hh_Addresses h) '', '') 34;
          svcStr = Truncate (JoinStrings (map fst (ce_range env (hh_Services h))) '', '') 18
      in [table_id (hh_MachineID h), hh_Hostname h, addrs, ColorizeStatus (ce_tty env) (hh_Status h),
          if svcStr = [] then ''-'' else svcStr, hh_LastSeenAgo h])"

definition listHosts :: "cli_env \<Rightarrow> 's daemon_link \<Rightarrow> 's \<Rightarrow> 's outcome" where
  "listHosts env link =
     with_response env link (cli_query env HostsList [] ''hosts'')
       (\<lambda>response s.
          (s, if ce_outputJSON env then output_json env (json_list json_HostHealth (rsp_Hosts response))
              else if rsp_Hosts response = [] then (print_line ''No hosts discovered'', 0)
              else (Table_Print (fold (\<lambda>h. AddRow (host_row env h)) (rsp_Hosts response)
                      (NewTable [''ID'', ''HOSTNAME'', ''ADDRESSES'', ''STATUS'', ''SERVICES'', ''LAST SEEN''])), 0)))"

definition printHostDetail :: "cli_env \<Rightarrow> HostHealth \<Rightarrow> written" where
  "printHostDetail env h =
     print_line (''Hostname:    '' @ hh_Hostname h)
     @ (if hh_MachineID h \<noteq> [] then print_line (''Machine ID:  '' @ hh_MachineID h) else [])
     @ print_line (''Addresses:   '' @ JoinStrings (hh_Addresses h) '', '')
     @ print_line (''Status:      '' @ ColorizeStatus (ce_tty env) (hh_Status h))
     @ print_line (''Last Seen:   '' @ hh_LastSeenAgo h)
     @ print_line (''Static:      '' @ bool_text (hh_IsStatic h))
     @ (if hh_Services h \<noteq> [] then
          print_line (nl @ ''Services:'')
          @ concat (map (\<lambda>(svc, proto). print_line (''  - '' @ svc @ '' ('' @ proto @ '')'')) (ce_range env (hh_Services h)))
        else [])"

text \<open>The dash of the message about an ambiguous prefix, in UTF-8.\<close>

abbreviation em_dash :: string where "em_dash \<equiv> [CHR 0xE2, CHR 0x80, CHR 0x94]"

definition host_not_found :: "string \<Rightarrow> written \<times> int" where
  "host_not_found name = cli_Fatal (''Host not found: '' @ name) None ExitError"

definition show_matches :: "cli_env \<Rightarrow> string \<Rightarrow> HostHealth list \<Rightarrow> written \<times> int" where
  "show_matches env name matches =
     (case matches of
        [] \<Rightarrow> host_not_found name
      | [h] \<Rightarrow> (printHostDetail env h, 0)
      | _ \<Rightarrow> (print_err (''Ambiguous prefix '' @ ce_quote env name @ '' matches '' @ itoa (int (length matches))
                  @ '' hosts '' @ em_dash @ '' use more characters:'')
               @ concat (map (\<lambda>h. print_err (''  '' @ short_id (hh_MachineID h) @ ''  '' @ hh_Hostname h)) matches),
              ExitError))"

definition showHost :: "cli_env \<Rightarrow> 's daemon_link \<Rightarrow> string \<Rightarrow> 's \<Rightarrow> 's outcome" where
  "showHost env link name s =
     (let isHex = IsHexPrefix name; isFull = (cli_ValidateHexKey name 32 = None)
      in case (if \<not> isHex \<and> \<not> isFull then ValidateHostname name else None) of
           Some err \<Rightarrow> (s, checkError (''invalid hostname or machine ID: '' @ err))
         | None \<Rightarrow>
             with_response env link (cli_query env HostsShow name ''host'')
               (\<lambda>response s1.
                  if rsp_Type response \<noteq> ResponseNotFound \<and> rsp_Hosts response \<noteq> []
                  then (s1, printHostDetail env (hd (rsp_Hosts response)), 0)
                  else if \<not> isHex then (s1, host_not_found name)
                  else with_response env link (cli_query env HostsList [] ''host-prefix'')
                    (\<lambda>listResp s2. (s2, show_matches env name
                       (filter (\<lambda>h. HasPrefix (hh_MachineID h) name) (rsp_Hosts listResp)))) s1) s)"

definition forgetHost :: "cli_env \<Rightarrow> 's daemon_link \<Rightarrow> string \<Rightarrow> 's \<Rightarrow> 's outcome" where
  "forgetHost env link hostname s =
     (case ValidateHostname hostname of
        Some err \<Rightarrow> (s, checkError (''invalid hostname: '' @ err))
      | None \<Rightarrow>
          with_response env link (cli_query env HostsForget hostname ''forget'')
            (\<lambda>_ s1. (s1, print_line (''Host forgotten: '' @ hostname), 0)) s)"

definition markLostHost :: "cli_env \<Rightarrow> 's daemon_link \<Rightarrow> string \<Rightarrow> 's \<Rightarrow> 's outcome" where
  "markLostHost env link hostname s =
     (case ValidateHostname hostname of
        Some err \<Rightarrow> (s, checkError (''invalid hostname: '' @ err))
      | None \<Rightarrow>
          with_response env link (cli_query env HostsMarkLost hostname ''lost'')
            (\<lambda>_ s1. (s1, print_line (''Host marked as lost: '' @ hostname), 0)) s)"

definition doLookup :: "cli_env \<Rightarrow> 's daemon_link \<Rightarrow> string \<Rightarrow> 's \<Rightarrow> 's outcome" where
  "doLookup env link hostname s =
     (case ValidateHostname hostname of
        Some err \<Rightarrow> (s, checkError (''invalid hostname: '' @ err))
      | None \<Rightarrow>
          with_response env link (cli_query env QueryByName hostname ''lookup'')
            (\<lambda>response s1.
               (s1, if rsp_Type response = ResponseNotFound then host_not_found hostname
                    else (concat (map print_line (rsp_Addrs response)), 0))) s)"

section \<open>Status\<close>

text \<open>The counters of healthy, stale, lost and static hosts; a host of any other status is not counted.\<close>

definition count_status :: "HostHealth \<Rightarrow> int \<times> int \<times> int \<times> int \<Rightarrow> int \<times> int \<times> int \<times> int" where
  "count_status h acc =
     (case acc of (healthy, stale, lost, static) \<Rightarrow>
        if hh_Status h = ''healthy'' then (healthy + 1, stale, lost, static)
        else if hh_Status h = ''stale'' then (healthy, stale + 1, lost, static)
        else if hh_Status h = ''lost'' then (healthy, stale, lost + 1, static)
        else if hh_Status h = ''static'' then (healthy, stale, lost, static + 1)
        else acc)"

definition print_status :: "cli_env \<Rightarrow> HostHealth list \<Rightarrow> written" where
  "print_status env hosts =
     (case fold count_status hosts (0, 0, 0, 0) of (healthy, stale, lost, static) \<Rightarrow>
        print_line ''Disco Daemon Status''
        @ print_line (replicate 30 CHR ''-'')
        @ print_line (''Socket:      '' @ getSocketPath env)
        @ print_line (''Total hosts: '' @ itoa (int (length hosts)))
        @ print_line (''  Healthy:   '' @ itoa healthy)
        @ print_line (''  Stale:     '' @ itoa stale)
        @ print_line (''  Lost:      '' @ itoa lost)
        @ print_line (''  Static:    '' @ itoa static))"

definition doStatus :: "cli_env \<Rightarrow> 's daemon_link \<Rightarrow> 's \<Rightarrow> 's outcome" where
  "doStatus env link =
     with_response env link (cli_query env HostsList [] ''status'')
       (\<lambda>response s. (s, print_status env (rsp_Hosts response), 0))"

section \<open>Services\<close>

definition showService :: "cli_env \<Rightarrow> 's daemon_link \<Rightarrow> string \<Rightarrow> 's \<Rightarrow> 's outcome" where
  "showService env link name =
     with_response env link (cli_query env ServicesShow name ''service'')
       (\<lambda>response s.
          (s, if rsp_Type response = ResponseNotFound \<or> rsp_Services response = []
              then cli_Fatal (''Service not found: '' @ name) None ExitError
              else let svc = hd (rsp_Services response)
                   in (print_line (''Service:   '' @ sh_Name svc)
                       @ print_line (''Protocol:  '' @ sh_Protocol svc)
                       @ print_line (''Status:    '' @ ColorizeStatus (ce_tty env) (sh_Status svc))
                       @ print_line (nl @ ''Hosts:'')
                       @ concat (map (\<lambda>h. print_line (''  - '' @ h)) (sh_Hosts svc)), 0)))"

definition service_row :: "ServiceHealth \<Rightarrow> string list" where
  "service_row svc = [sh_Name svc, sh_Protocol svc, Truncate (JoinStrings (sh_Hosts svc) '', '') 38]"

definition listServices :: "cli_env \<Rightarrow> 's daemon_link \<Rightarrow> string list \<Rightarrow> 's \<Rightarrow> 's outcome" where
  "listServices env link args =
     (case args of
        name # _ \<Rightarrow> showService env link name
      | [] \<Rightarrow>
          with_response env link (cli_query env ServicesList [] ''services'')
            (\<lambda>response s.
               (s, if ce_outputJSON env then output_json env (json_list json_ServiceHealth (rsp_Services response))
                   else if rsp_Services response = [] then (print_line ''No services discovered'', 0)
                   else (Table_Print (fold (\<lambda>svc. AddRow (service_row svc)) (rsp_Services response)
                           (NewTable [''SERVICE'', ''PROTOCOL'', ''HOSTS''])), 0))))"

text \<open>\<^verbatim>\<open>disco service add\<close> returns its error to the command framework.\<close>

definition runServiceAdd :: "cli_env \<Rightarrow> 's daemon_link \<Rightarrow> string list \<Rightarrow> string \<Rightarrow> string \<Rightarrow> 's \<Rightarrow> 's outcome_err" where
  "runServiceAdd env link serviceAddAliases name port_arg s =
     (let (port, ok) = Atoi port_arg
      in if \<not> ok \<or> port < 1 \<or> port > 65535
         then (s, [], Some (''invalid port '' @ ce_quote env port_arg @ '': must be 1-65535''))
         else (case ask_daemon env link
                 ((cli_query env ServiceAnnounce name ''service-add'')\<lparr>q_Port := port, q_Aliases := serviceAddAliases\<rparr>) s of
                 (s1, Inl err) \<Rightarrow> (s1, [], Some err)
               | (s1, Inr _) \<Rightarrow>
                   (s1, print_out (''Announced service '' @ ce_quote env name @ '' on port '' @ itoa port)
                        @ (if serviceAddAliases \<noteq> [] then print_out ('' with aliases: '' @ slice_text serviceAddAliases) else [])
                        @ print_line [], None)))"

section \<open>Locations\<close>

definition location_row :: "LocationHealth \<Rightarrow> string list" where
  "location_row loc = [lh_SourceID loc, fixed_text 6 (lh_Latitude loc), fixed_text 6 (lh_Longitude loc),
     fixed_text 1 (lh_Altitude loc) @ ''m'', itoa (lh_Satellites loc), lh_LastSeenAgo loc]"

definition listLocations :: "cli_env \<Rightarrow> 's daemon_link \<Rightarrow> 's \<Rightarrow> 's outcome" where
  "listLocations env link =
     with_response env link (cli_query env LocationList [] ''location'')
       (\<lambda>response s.
          (s, if ce_outputJSON env then output_json env (json_list json_LocationHealth (rsp_Locations response))
              else if rsp_Locations response = [] then (print_line ''No location broadcasts received'', 0)
              else (Table_Print (fold (\<lambda>loc. AddRow (location_row loc)) (rsp_Locations response)
                      (NewTable [''SOURCE'', ''LATITUDE'', ''LONGITUDE'', ''ALTITUDE'', ''SATS'', ''LAST SEEN''])), 0)))"

definition showLocation :: "cli_env \<Rightarrow> 's daemon_link \<Rightarrow> string \<Rightarrow> 's \<Rightarrow> 's outcome" where
  "showLocation env link name =
     with_response env link (cli_query env LocationShow name ''location'')
       (\<lambda>response s.
          (s, if rsp_Locations response = [] then cli_Fatal (''Source not found: '' @ name) None ExitError
              else if ce_outputJSON env then output_json env (json_LocationHealth (hd (rsp_Locations response)))
              else let loc = hd (rsp_Locations response)
                   in (print_line (''Source:     '' @ lh_SourceID loc)
                       @ print_line (''Latitude:   '' @ fixed_text 6 (lh_Latitude loc))
                       @ print_line (''Longitude:  '' @ fixed_text 6 (lh_Longitude loc))
                       @ print_line (''Altitude:   '' @ fixed_text 1 (lh_Altitude loc) @ '' m'')
                       @ print_line (''Satellites: '' @ itoa (lh_Satellites loc))
                       @ print_line (''Fix:        '' @ bool_text (lh_Fix loc))
                       @ print_line (''Last Seen:  '' @ lh_LastSeenAgo loc), 0)))"

section \<open>Time\<close>

definition showTimeStatus :: "cli_env \<Rightarrow> 's daemon_link \<Rightarrow> 's \<Rightarrow> 's outcome" where
  "showTimeStatus env link s =
     (case GetTimeStatus link (getSocketPath env) (ce_now env) s of
        (s1, Inl err) \<Rightarrow> (s1, checkError (''failed to get time status: '' @ err))
      | (s1, Inr status) \<Rightarrow>
          (s1, print_line (''Synced: '' @ (if cts_Synced status then ''YES'' else ''NO''))
               @ print_line (''Sources: '' @ itoa (cts_SourceCount status))
               @ print_line (''Offset: '' @ fixed_text 6 (cts_LastOffset status) @ '' seconds'')
               @ (if cts_LastSyncTime status \<noteq> [] then print_line (''Last sync: '' @ cts_LastSyncTime status) else [])
               @ (if cts_LastError status \<noteq> [] then print_line (''Error: '' @ cts_LastError status) else []), 0))"

definition forceTimeUpdate :: "cli_env \<Rightarrow> 's daemon_link \<Rightarrow> bool \<Rightarrow> bool \<Rightarrow> 's \<Rightarrow> 's outcome" where
  "forceTimeUpdate env link verbose allowBackward s =
     (let out = (if verbose then print_line ''Sending force update request...''
                   @ print_line (''  Allow backward: '' @ bool_text allowBackward) else [])
      in case ForceTimeUpdate link (getSocketPath env) (ce_now env) allowBackward s of
           (s1, Inl err) \<Rightarrow> (s1, apfst ((@) out) (checkError (''failed to force time update: '' @ err)))
         | (s1, Inr result) \<Rightarrow>
             if \<not> cfr_Success result
             then (s1, apfst ((@) out) (checkError (''force update failed: ''
                     @ (if cfr_Error result = [] then ''unknown error'' else cfr_Error result))))
             else (s1, out @ print_line ''Time adjusted successfully''
                       @ print_line (''  Method: '' @ cfr_Method result)
                       @ print_line (''  Offset: '' @ fixed_text 6 (cfr_Offset result) @ '' seconds'')
                       @ print_line (''  Sources: '' @ itoa (cfr_SourceCount result)), 0))"

section \<open>Reachability of services\<close>

text \<open>
  The error of a failed dial with the value that \<^verbatim>\<open>json.Marshal\<close> makes of it; \<open>dial\<close>
  gives the error for an address, if any.
\<close>

record dial_error =
  de_text :: string
  de_json :: json

record ServiceCheck =
  sc_Host :: string
  sc_MachineID :: string
  sc_Address :: string
  sc_Service :: string
  sc_Protocol :: string
  sc_Port :: int
  sc_Reachable :: bool
  sc_Error :: "dial_error option"

definition parseServiceAddr :: "string \<Rightarrow> int \<times> string" where
  "parseServiceAddr svcValue =
     (case SplitHostPort svcValue of
        Inl _ \<Rightarrow> (0, [])
      | Inr (host, portStr) \<Rightarrow>
          (case Atoi portStr of (port, ok) \<Rightarrow> if ok then (port, host) else (0, [])))"

definition host_checks :: "cli_env \<Rightarrow> HostHealth \<Rightarrow> ServiceCheck list" where
  "host_checks env h =
     concat (map (\<lambda>(svcName, svcValue).
       let port = fst (parseServiceAddr svcValue)
       in if port = 0 then []
          else map (\<lambda>addr. \<lparr>sc_Host = hh_Hostname h, sc_MachineID = hh_MachineID h, sc_Address = addr, sc_Service = svcName,
                 sc_Protocol = ''tcp'', sc_Port = port, sc_Reachable = False, sc_Error = None\<rparr>) (hh_Addresses h))
       (ce_range env (hh_Services h)))"

definition check_address :: "ServiceCheck \<Rightarrow> string" where
  "check_address check = sc_Address check @ '':'' @ itoa (sc_Port check)"

definition checkService :: "(string \<Rightarrow> dial_error option) \<Rightarrow> ServiceCheck \<Rightarrow> ServiceCheck" where
  "checkService dial check =
     (case dial (check_address check) of
        Some err \<Rightarrow> check\<lparr>sc_Reachable := False, sc_Error := Some err\<rparr>
      | None \<Rightarrow> check\<lparr>sc_Reachable := True\<rparr>)"

definition check_row :: "cli_env \<Rightarrow> ServiceCheck \<Rightarrow> string list" where
  "check_row env c = [table_id (sc_MachineID c), sc_Host c, sc_Service c, sc_Address c, itoa (sc_Port c),
     if sc_Reachable c then Colorize (ce_tty env) ''UP'' ColorGreen else Colorize (ce_tty env) ''DOWN'' ColorRed]"

definition printCheckResults :: "cli_env \<Rightarrow> bool \<Rightarrow> ServiceCheck list \<Rightarrow> written" where
  "printCheckResults env checkVerbose checks =
     (let reachable = int (length (filter sc_Reachable checks));
          unreachable = int (length (filter (\<lambda>c. \<not> sc_Reachable c) checks))
      in concat (map (\<lambda>c. case sc_Error c of
                    Some err \<Rightarrow> if checkVerbose then print_line (''  Error: '' @ de_text err) else []
                  | None \<Rightarrow> []) checks)
         @ Table_Print (fold (\<lambda>c. AddRow (check_row env c)) checks
             (NewTable [''ID'', ''HOST'', ''SERVICE'', ''ADDRESS'', ''PORT'', ''STATUS'']))
         @ print_line (nl @ ''Summary: '' @ Colorize (ce_tty env) (itoa reachable) ColorGreen @ '' up, ''
             @ Colorize (ce_tty env) (itoa unreachable) ColorRed @ '' down, '' @ itoa (int (length checks)) @ '' total''))"

definition json_ServiceCheck :: "ServiceCheck \<Rightarrow> json" where
  "json_ServiceCheck c = JObj [(''Host'', JStr (sc_Host c)), (''MachineID'', JStr (sc_MachineID c)),
     (''Address'', JStr (sc_Address c)), (''Service'', JStr (sc_Service c)), (''Protocol'', JStr (sc_Protocol c)),
     (''Port'', JInt (sc_Port c)), (''Reachable'', JBool (sc_Reachable c)),
     (''Error'', case sc_Error c of None \<Rightarrow> JNull | Some err \<Rightarrow> de_json err)]"

definition checkServices :: "cli_env \<Rightarrow> 's daemon_link \<Rightarrow> (string \<Rightarrow> dial_error option) \<Rightarrow> duration \<Rightarrow> bool \<Rightarrow> 's \<Rightarrow> 's outcome" where
  "checkServices env link dial checkTimeout checkVerbose =
     with_response env link (cli_query env HostsList [] ''check'')
       (\<lambda>response s.
          (s, if rsp_Hosts response = [] then (print_line ''No hosts discovered'', 0)
              else let checks = concat (map (host_checks env) (rsp_Hosts response))
              in if checks = [] then (print_line ''No TCP services found to check'', 0)
              else let out = (if checkVerbose then print_out (''Checking '' @ itoa (int (length checks)) @ '' service(s) with ''
                              @ duration_text checkTimeout @ '' timeout...'' @ nl @ nl) else []);
                       checked = map (checkService dial) checks
              in if ce_outputJSON env then apfst ((@) out) (output_json env (JArr (map json_ServiceCheck checked)))
              else (out @ printCheckResults env checkVerbose checked, 0)))"

end
