(* ===== verification/Cli_Ping.thy ===== *)
theory Cli_Ping
  imports Cli_Client
begin

text \<open>
  The ping command (\<^verbatim>\<open>cmd/disco/commands/ping.go\<close>): resolution of the target against the hosts
  of the daemon, the attempts, and the statistics. The network is an argument: what each attempt meets.
\<close>

section \<open>Target\<close>

text \<open>
  \<^verbatim>\<open>strings.EqualFold\<close> with a validated target: beyond ASCII letters of different case, the
  Kelvin sign folds to k and the long s to s; no other rune folds to one of a valid name. Strings fold
  to the same bytes exactly when they are equal under folding.
\<close>

fun fold_case :: "string \<Rightarrow> string" where
  "fold_case [] = []"
| "fold_case (c # s) =
     (if c = CHR 0xE2 \<and> take 2 s = [CHR 0x84, CHR 0xAA] then CHR ''k'' # fold_case (drop 2 s)
      else if c = CHR 0xC5 \<and> take 1 s = [CHR 0xBF] then CHR ''s'' # fold_case (drop 1 s)
      else lower_char c # fold_case s)"

definition EqualFold :: "string \<Rightarrow> string \<Rightarrow> bool" where
  "EqualFold s t \<longleftrightarrow> fold_case s = fold_case t"

text \<open>The first host with an address that the condition selects.\<close>

definition first_address :: "(HostHealth \<Rightarrow> bool) \<Rightarrow> HostHealth list \<Rightarrow> string option" where
  "first_address sel hosts = map_option (\<lambda>h. hh_Addresses h ! 0) (find (\<lambda>h. sel h \<and> length (hh_Addresses h) > 0) hosts)"

definition matchTarget :: "string \<Rightarrow> HostHealth list \<Rightarrow> string" where
  "matchTarget target hosts =
     (case first_address (\<lambda>h. EqualFold (hh_Hostname h) target) hosts of
        Some addr \<Rightarrow> addr
      | None \<Rightarrow>
          (case first_address (\<lambda>h. hh_MachineID h \<noteq> [] \<and> hh_MachineID h = ToLower target) hosts of
             Some addr \<Rightarrow> addr
           | None \<Rightarrow>
               (case first_address (\<lambda>h. map_of (hh_Services h) target \<noteq> None) hosts of
                  Some addr \<Rightarrow> addr
                | None \<Rightarrow> target)))"

definition resolveTarget :: "cli_env \<Rightarrow> 's daemon_link \<Rightarrow> string \<Rightarrow> 's \<Rightarrow> 's \<times> string" where
  "resolveTarget env link target s =
     (if ParseIP (ce_v6 env) target \<noteq> None then (s, target)
      else (case ask_daemon env link
              (zero_Query\<lparr>q_Type := HostsList, q_RequestID := GenerateRequestID (ce_now env) ''ping''\<rparr>) s of
              (s1, Inl _) \<Rightarrow> (s1, target)
            | (s1, Inr response) \<Rightarrow> (s1, matchTarget target (rsp_Hosts response))))"

section \<open>Attempts\<close>

record PingArgs =
  pg_Port :: int
  pg_Count :: int
  pg_Interval :: duration
  pg_Verbose :: bool

definition validatePingArgs :: "PingArgs \<Rightarrow> string option" where
  "validatePingArgs a =
     (if pg_Count a < 1 \<or> pg_Count a > 10 then Some ''count must be between 1 and 10''
      else if pg_Interval a < 100 * Millisecond then Some ''interval must be at least 100ms''
      else None)"

text \<open>
  What an attempt meets: an error of dialling, of writing, of the second deadline or of reading (a
  timeout among them), or a datagram and the time since the start.
\<close>

datatype attempt = DialErr string | WriteErr string | DeadlineErr string | ReadErr string | Reply string duration

definition JoinHostPort :: "string \<Rightarrow> string \<Rightarrow> string" where
  "JoinHostPort host port = (if CHR '':'' \<in> set host then ''['' @ host @ '']:'' @ port else host @ '':'' @ port)"

text \<open>The buffer of 1024 bytes after a read: the datagram, cut off or filled up with zeros.\<close>

definition ping_buffer :: "string \<Rightarrow> string" where
  "ping_buffer data = take 1024 data @ replicate (1024 - length data) CHR 0x00"

definition attempt_label :: "nat \<Rightarrow> string" where
  "attempt_label i = ''['' @ itoa (int i + 1) @ ''] ''"

definition ping_error :: "cli_env \<Rightarrow> PingArgs \<Rightarrow> nat \<Rightarrow> string \<Rightarrow> written" where
  "ping_error env a i err = (if pg_Verbose a then PrintError (ce_tty env) (attempt_label i @ ''ERROR: '' @ err @ nl) else [])"

text \<open>One round of the loop: what it prints, and the latency of a success.\<close>

definition ping_once :: "cli_env \<Rightarrow> PingArgs \<Rightarrow> string \<Rightarrow> nat \<Rightarrow> attempt \<Rightarrow> written \<times> duration option" where
  "ping_once env a target i r =
     (case r of
        DialErr err \<Rightarrow> (ping_error env a i err, None)
      | WriteErr err \<Rightarrow> (ping_error env a i err, None)
      | DeadlineErr err \<Rightarrow> (ping_error env a i err, None)
      | ReadErr err \<Rightarrow> (ping_error env a i err, None)
      | Reply data latency \<Rightarrow>
          if HasPrefix (ping_buffer data) ''PONG''
          then (if pg_Verbose a then PrintSuccess (ce_tty env) (attempt_label i @ ''PONG from '' @ target @ '' (latency: ''
                  @ duration_text latency @ '')'' @ nl) else [], Some latency)
          else (if pg_Verbose a then PrintWarning (ce_tty env) (attempt_label i @ ''Unexpected response: '' @ ping_buffer data @ nl)
                else [], None))"

text \<open>The loop: the network gives for each round and address what the attempt meets.\<close>

definition executePings :: "cli_env \<Rightarrow> PingArgs \<Rightarrow> (nat \<Rightarrow> string \<Rightarrow> attempt) \<Rightarrow> string \<Rightarrow> written \<times> int \<times> duration list" where
  "executePings env a net target =
     fold (\<lambda>i (out, successful, latencies).
       case ping_once env a target i (net i (JoinHostPort target (itoa (pg_Port a)))) of
         (o1, None) \<Rightarrow> (out @ o1, successful, latencies)
       | (o1, Some l) \<Rightarrow> (out @ o1, successful + 1, latencies @ [l]))
       [0..<nat (pg_Count a)] ([], 0, [])"

section \<open>Result\<close>

definition avg_latency :: "int \<Rightarrow> duration list \<Rightarrow> duration" where
  "avg_latency successful latencies = wrap64 (fold (\<lambda>l total. wrap64 (total + l)) latencies 0 sdiv successful)"

definition printPingResults :: "cli_env \<Rightarrow> PingArgs \<Rightarrow> string \<Rightarrow> int \<Rightarrow> duration list \<Rightarrow> written" where
  "printPingResults env a target successful latencies =
     print_line (nl @ ''=== Results ==='')
     @ print_line (''Target:    '' @ target @ '':'' @ itoa (pg_Port a))
     @ print_line (''Success:   '' @ itoa successful @ ''/'' @ itoa (pg_Count a))
     @ (if successful > 0 then
          print_line (''Latency:   '' @ duration_text (avg_latency successful latencies) @ '' (avg over '' @ itoa successful
            @ '' successes)'')
          @ (if successful = pg_Count a then PrintSuccess (ce_tty env) (''Status:     UP'' @ nl)
             else PrintWarning (ce_tty env) (''Status:     PARTIAL (''
               @ fixed_text 0 (of_int (pg_Count a - successful) / of_int (pg_Count a) * 100) @ ''% loss)'' @ nl))
        else PrintError (ce_tty env) (''Status:     DOWN'' @ nl))"

definition runPing :: "cli_env \<Rightarrow> 's daemon_link \<Rightarrow> (nat \<Rightarrow> string \<Rightarrow> attempt) \<Rightarrow> PingArgs \<Rightarrow> string \<Rightarrow> 's \<Rightarrow> 's outcome_err" where
  "runPing env link net a raw s =
     (case ValidatePingTarget (ce_v6 env) raw of
        Some err \<Rightarrow> (s, [], Some (''invalid target: '' @ err))
      | None \<Rightarrow>
          (case validatePingArgs a of
             Some err \<Rightarrow> (s, [], Some err)
           | None \<Rightarrow>
               let (s1, target) = resolveTarget env link raw s;
                   out1 = (if target \<noteq> raw \<and> pg_Verbose a then print_line (''Resolved '' @ ce_quote env raw @ '' to '' @ target) else []);
                   out2 = (if pg_Verbose a then print_out (''Pinging '' @ target @ '' on port '' @ itoa (pg_Port a) @ '' (''
                             @ itoa (pg_Count a) @ '' times, '' @ duration_text (pg_Interval a) @ '' interval)...'' @ nl @ nl) else []);
                   (out3, successful, latencies) = executePings env a net target
               in (s1, out1 @ out2 @ out3 @ printPingResults env a target successful latencies,
                   if successful > 0 then None else Some ''host is down or unreachable'')))"

section \<open>Lemmas\<close>

text \<open>The latencies of the attempts that a pong answers.\<close>

definition pong :: "attempt \<Rightarrow> duration option" where
  "pong r = (case r of Reply data latency \<Rightarrow> if HasPrefix data ''PONG'' then Some latency else None | _ \<Rightarrow> None)"

definition pongs :: "(nat \<Rightarrow> string \<Rightarrow> attempt) \<Rightarrow> string \<Rightarrow> nat \<Rightarrow> duration list" where
  "pongs net addr n = List.map_filter (\<lambda>i. pong (net i addr)) [0..<n]"

lemma pong_iff: "pong r \<noteq> None \<longleftrightarrow> (\<exists>data l. r = Reply data l \<and> HasPrefix data ''PONG'')"
  by (cases r) (simp_all add: pong_def)

lemma pongs_empty: "pongs net addr n = [] \<longleftrightarrow> (\<forall>i < n. pong (net i addr) = None)"
  by (auto simp: pongs_def List.map_filter_def filter_empty_conv)

text \<open>The zeros behind a short datagram never complete the word.\<close>

lemma ping_buffer_prefix: "HasPrefix (ping_buffer data) ''PONG'' \<longleftrightarrow> HasPrefix data ''PONG''"
proof -
  have pre: "HasPrefix xs ''PONG'' \<longleftrightarrow> take 4 xs = ''PONG''" for xs by (simp add: HasPrefix_def eval_nat_numeral)
  show ?thesis
  proof (cases "length data < 4")
    case True
    then have "(ping_buffer data) ! length data = CHR 0x00" by (simp add: ping_buffer_def nth_append)
    moreover have "length data < length (ping_buffer data)" using True by (simp add: ping_buffer_def)
    ultimately have "take 4 (ping_buffer data) ! length data = CHR 0x00" using True by simp
    moreover have "''PONG'' ! length data \<noteq> CHR 0x00" using True by (auto simp: less_Suc_eq numeral_eq_Suc)
    ultimately have "take 4 (ping_buffer data) \<noteq> ''PONG''" by auto
    moreover have "take 4 data \<noteq> ''PONG''" using True by auto
    ultimately show ?thesis by (simp only: pre)
  next
    case False
    then have "take 4 (ping_buffer data) = take 4 data" by (simp add: ping_buffer_def)
    then show ?thesis by (simp only: pre)
  qed
qed

lemma ping_once_result: "snd (ping_once env a target i r) = pong r"
  by (simp add: ping_once_def pong_def ping_buffer_prefix split: attempt.split)

lemma executePings_result:
  assumes "executePings env a net target = (out, n, latencies)"
  shows "latencies = pongs net (JoinHostPort target (itoa (pg_Port a))) (nat (pg_Count a))" and "n = int (length latencies)"
proof -
  let ?addr = "JoinHostPort target (itoa (pg_Port a))"
  let ?f = "\<lambda>i (out, successful, latencies). case ping_once env a target i (net i ?addr) of
      (o1, None) \<Rightarrow> (out @ o1, successful, latencies) | (o1, Some l) \<Rightarrow> (out @ o1, successful + 1, latencies @ [l])"
  have "\<exists>o2. fold ?f is (o1, m, ls) = (o2, m + int (length (List.map_filter (\<lambda>i. pong (net i ?addr)) is)),
      ls @ List.map_filter (\<lambda>i. pong (net i ?addr)) is)" for "is" o1 m ls
  proof (induction "is" arbitrary: o1 m ls)
    case Nil
    then show ?case by (simp add: List.map_filter_simps)
  next
    case (Cons i "is")
    obtain o3 p where p: "ping_once env a target i (net i ?addr) = (o3, p)" by fastforce
    then have pg: "pong (net i ?addr) = p" using ping_once_result [of env a target i "net i ?addr"] by simp
    show ?case
    proof (cases p)
      case None
      with p pg Cons.IH [of "o1 @ o3" m ls] show ?thesis by (simp add: List.map_filter_simps)
    next
      case (Some l)
      with p pg Cons.IH [of "o1 @ o3" "m + 1" "ls @ [l]"] show ?thesis by (simp add: List.map_filter_simps add.assoc)
    qed
  qed
  from this [of "[0..<nat (pg_Count a)]" "[]" 0 "[]"] assms
  show "latencies = pongs net ?addr (nat (pg_Count a))" "n = int (length latencies)"
    by (auto simp: executePings_def pongs_def)
qed

lemma fold_wrap_sum:
  assumes "\<forall>l \<in> set ls. 0 \<le> l \<and> l \<le> m" and "acc + m * int (length ls) < 2 ^ 63" and "0 \<le> acc" and "0 \<le> m"
  shows "fold (\<lambda>l total. wrap64 (total + l)) ls acc = acc + sum_list ls"
  using assms(1-3)
proof (induction ls arbitrary: acc)
  case (Cons l ls)
  have "acc + l + m * int (length ls) < 2 ^ 63" using Cons.prems by (simp add: algebra_simps)
  moreover have "0 \<le> m * int (length ls)" using assms(4) by simp
  moreover have "0 \<le> acc + l" using Cons.prems by simp
  ultimately have "in_int64 (acc + l)" by linarith
  then have "wrap64 (acc + l) = acc + l" by (rule wrap64_id)
  with Cons \<open>acc + l + m * int (length ls) < 2 ^ 63\<close> show ?case by simp
qed simp

section \<open>Properties\<close>

text \<open>The average that the ping command prints is an average: for latencies that are not negative and below 29
  years, the sum does not overflow, and the result lies between the smallest and the largest of them.\<close>

theorem ping_average_bounds:
  assumes "executePings env a net target = (out, n, latencies)" and "validatePingArgs a = None" and "n > 0"
    and "\<forall>l \<in> set latencies. 0 \<le> l \<and> l < 2 ^ 59"
  shows "Min (set latencies) \<le> avg_latency n latencies \<and> avg_latency n latencies \<le> Max (set latencies)"
proof -
  note r = executePings_result [OF assms(1)]
  have count: "pg_Count a \<le> 10" using assms(2) by (auto simp: validatePingArgs_def split: if_splits)
  have "length latencies \<le> nat (pg_Count a)"
    unfolding r(1) pongs_def List.map_filter_def by (simp add: le_trans [OF length_filter_le])
  then have len: "length latencies \<le> 10" using count by linarith
  have ne: "latencies \<noteq> []" using assms(3) r(2) by auto
  have lo: "Min (set latencies) * int (length ls) \<le> sum_list ls" and hi: "sum_list ls \<le> Max (set latencies) * int (length ls)"
    if "set ls \<subseteq> set latencies" for ls
    using that by (induction ls) (auto simp: algebra_simps intro!: add_mono Min_le Max_ge)
  have mx: "0 \<le> Max (set latencies)" "Max (set latencies) < 2 ^ 59" "0 \<le> Min (set latencies)"
    using assms(4) ne by (auto simp: Max_ge_iff ex_in_conv)
  have "fold (\<lambda>l total. wrap64 (total + l)) latencies 0 = sum_list latencies"
    using fold_wrap_sum [of latencies "2 ^ 59" 0] assms(4) len by (force simp: less_imp_le)
  moreover have pos: "0 \<le> sum_list latencies" using assms(4) by (simp add: sum_list_nonneg)
  ultimately have avg: "avg_latency n latencies = wrap64 (sum_list latencies div n)"
    using assms(3) by (cases "sum_list latencies = 0") (simp_all add: avg_latency_def signed_divide_int_def)
  have "Min (set latencies) \<le> sum_list latencies div n" "sum_list latencies div n \<le> Max (set latencies)"
    using zdiv_mono1 [OF lo [of latencies], of n] zdiv_mono1 [OF hi [of latencies], of n] assms(3) r(2) by auto
  with mx show ?thesis unfolding avg by (subst (1 2) wrap64_id) auto
qed

theorem ping_average_bounds_witness:
  "\<exists>a net n ls. executePings demo_cli a net ''10.0.0.7'' = ([], n, ls) \<and> n = 2 \<and> Min (set ls) = 3 \<and> avg_latency n ls \<le> 8 \<and> 3 \<le> avg_latency n ls"
proof -
  let ?a = "\<lparr>pg_Port = 5354, pg_Count = 3, pg_Interval = Second, pg_Verbose = False\<rparr>"
  let ?net = "\<lambda>i addr. if i = 0 then Reply ''PONG'' 3 else if i = 1 then ReadErr ''timeout'' else Reply ''PONG!'' 8"
  have e: "executePings demo_cli ?a ?net ''10.0.0.7'' = ([], 2, [3, 8])"
    by (simp add: executePings_def ping_once_def ping_error_def ping_buffer_prefix numeral_3_eq_3) (simp add: HasPrefix_def)
  have "Min (set [3, 8]) \<le> avg_latency 2 [3, 8] \<and> avg_latency 2 [3, 8] \<le> Max (set [3, 8])"
    by (rule ping_average_bounds [OF e]) (simp_all add: validatePingArgs_def)
  with e show ?thesis by (intro exI [of _ ?a] exI [of _ ?net] exI [of _ 2] exI [of _ "[3, 8]"]) simp
qed

end
