(* ===== verification/Cli_System.thy ===== *)
theory Cli_System
  imports Daemon_Link Cli_Queries Cli_Ping
begin

text \<open>
  The commands together with the daemon: what a user sees of the daemon's state through the client, the
  encoding of the messages, the socket server and the store.
\<close>

section \<open>Lemmas\<close>

lemma cli_query_sel [simp]:
  "q_Type (cli_query env t n p) = t" "q_Name (cli_query env t n p) = n" "q_Family (cli_query env t n p) = 0"
  "q_Port (cli_query env t n p) = 0" "q_Aliases (cli_query env t n p) = []"
  by (simp_all add: cli_query_def zero_Query_def)

lemmas command_query = socket.command_ok [where q = "cli_query _ _ _ _"]

lemma sorted_response_sel [simp]:
  "rsp_Type (sorted_response r) = rsp_Type r" "rsp_Addrs (sorted_response r) = rsp_Addrs r"
  "rsp_Hosts (sorted_response r) = map sorted_host (rsp_Hosts r)" "rsp_Services (sorted_response r) = rsp_Services r"
  by (simp_all add: sorted_response_def)

lemma sorted_host_sel [simp]:
  "hh_Status (sorted_host h) = hh_Status h" "hh_Hostname (sorted_host h) = hh_Hostname h" "hh_MachineID (sorted_host h) = hh_MachineID h"
  "hh_Addresses (sorted_host h) = hh_Addresses h" "mset (hh_Services (sorted_host h)) = mset (hh_Services h)"
  by (simp_all add: sorted_host_def)

text \<open>The hosts as a client sees them.\<close>

definition seen_host :: "HealthTracker \<Rightarrow> time \<Rightarrow> Record \<Rightarrow> HostHealth" where
  "seen_host ht now r = sorted_host (host_health now (UpdateRecordStatus ht now r))"

definition seen_hosts :: "time \<Rightarrow> 'z shared_scheme \<Rightarrow> HostHealth list" where
  "seen_hosts now s = map (seen_host (rs_healthTracker (sv_store s)) now \<circ> snd) (rs_records (sv_store s))"

abbreviation refreshed :: "time \<Rightarrow> 'z shared_scheme \<Rightarrow> 'z shared_scheme" where
  "refreshed now s \<equiv> s\<lparr>sv_store := refresh_all now (sv_store s)\<rparr>"

lemma hosts_ask:
  assumes "typed_shared s" and "getSocketPath env = path"
  shows "\<exists>r. rsp_Hosts r = seen_hosts now s \<and> rsp_Type r = ResponseOK
    \<and> ask_daemon env (socket_link senv ann now path) (cli_query env HostsList [] p) s = (refreshed now s, Inr r)"
proof -
  let ?q = "cli_query env HostsList [] p"
  obtain s' r where h: "handleHostsList now ?q s = (s', r)" by fastforce
  then have q: "handleQuery senv ann now ?q s = Some (s', r)" by (simp add: handleQuery_def)
  from h have "s' = refreshed now s" "rsp_Type r = ResponseOK"
    "rsp_Hosts r = map (host_health now) (map (UpdateRecordStatus (rs_healthTracker (sv_store s)) now) (map snd (rs_records (sv_store s))))"
    by (auto simp: handleHostsList_def Let_def ListAll_def ok_response_def comp_def)
  with socket.ask_ok [OF assms(1) q _ _ assms(2)] show ?thesis
    by (intro exI [of _ "sorted_response r"]) (simp add: seen_hosts_def seen_host_def comp_def HandleResponse_def)
qed

lemma hosts_command:
  assumes "typed_shared s" and "getSocketPath env = path"
  shows "\<exists>r. rsp_Hosts r = seen_hosts now s \<and> rsp_Type r = ResponseOK \<and>
    (\<forall>k :: Response \<Rightarrow> 'a shared_scheme \<Rightarrow> 'a shared_scheme outcome.
       with_response env (socket_link senv ann now path) (cli_query env HostsList [] p) k s = k r (refreshed now s))"
  using hosts_ask [OF assms, where now = now and senv = senv and ann = ann and p = p] by (auto simp: with_response_def)

lemma status_values: "ComputeStatus ht now r \<in> {StatusHealthy, StatusStale, StatusLost, StatusStatic}"
  by (simp add: ComputeStatus_def Let_def)

lemma seen_host_sel [simp]:
  "hh_Status (seen_host ht now r) = ComputeStatus ht now r" "hh_Hostname (seen_host ht now r) = r_Hostname r"
  "hh_MachineID (seen_host ht now r) = r_MachineID r" "hh_Addresses (seen_host ht now r) = r_Addresses r"
  by (simp_all add: seen_host_def host_health_def UpdateRecordStatus_def)

lemma count_status_fold:
  "fold count_status hosts (a, b, c, d) =
     (a + int (length (filter (\<lambda>h. hh_Status h = ''healthy'') hosts)), b + int (length (filter (\<lambda>h. hh_Status h = ''stale'') hosts)),
      c + int (length (filter (\<lambda>h. hh_Status h = ''lost'') hosts)), d + int (length (filter (\<lambda>h. hh_Status h = ''static'') hosts)))"
  by (induction hosts arbitrary: a b c d) (auto simp: count_status_def)

text \<open>The records as the commands see them stay the same when they are refreshed again.\<close>

lemma typed_refreshed: "typed_shared s \<Longrightarrow> typed_shared (refreshed now s)"
  by (simp add: typed_shared_iff list_all_iff service_total_def comp_def refresh_all_def split_beta)

lemma refresh_twice: "refresh_all now (refresh_all now rs) = refresh_all now rs"
  by (simp add: refresh_all_def comp_def split_beta UpdateRecordStatus_def ComputeStatus_def record_age_def Let_def)

lemma seen_refreshed: "seen_hosts now (refreshed now s) = seen_hosts now s"
  by (simp add: seen_hosts_def seen_host_def refresh_all_def comp_def split_beta UpdateRecordStatus_def ComputeStatus_def
      record_age_def Let_def)

definition named :: "string \<Rightarrow> HostHealth \<Rightarrow> bool" where
  "named name h \<longleftrightarrow> hh_Hostname h = name \<or> hh_MachineID h \<noteq> [] \<and> hh_MachineID h = name"

lemma show_command:
  assumes "typed_shared s" and "getSocketPath env = path" and "name \<noteq> []"
  shows "\<exists>r. with_response env (socket_link senv ann now path) (cli_query env HostsShow name p) k s = k r (refreshed now s)
    \<and> (case find (named name) (seen_hosts now s) of
         None \<Rightarrow> rsp_Type r = ResponseNotFound | Some h \<Rightarrow> rsp_Type r = ResponseOK \<and> rsp_Hosts r = [h])"
proof -
  let ?q = "cli_query env HostsShow name p" and ?ht = "rs_healthTracker (sv_store s)"
  let ?P = "\<lambda>r. r_Hostname r = name \<or> (r_MachineID r \<noteq> [] \<and> r_MachineID r = name)"
  let ?recs = "map (UpdateRecordStatus ?ht now) (map snd (rs_records (sv_store s)))"
  obtain s' r where h: "handleHostsShow now ?q s = (s', r)" by fastforce
  then have q: "handleQuery senv ann now ?q s = Some (s', r)" by (simp add: handleQuery_def)
  have recs: "snd (ListAll now (sv_store s)) = ?recs" by (simp add: ListAll_def Let_def comp_def)
  have "find (named name) (map (sorted_host \<circ> host_health now) xs) = map_option (sorted_host \<circ> host_health now) (find ?P xs)" for xs
    by (induction xs) (auto simp: named_def host_health_def)
  from this [of ?recs] have f: "find (named name) (seen_hosts now s) = map_option (sorted_host \<circ> host_health now) (find ?P ?recs)"
    by (simp add: seen_hosts_def seen_host_def comp_def)
  have "s' = refreshed now s \<and> (case find ?P ?recs of None \<Rightarrow> r = NewNotFoundResponse (q_RequestID ?q)
      | Some rec \<Rightarrow> r = (ok_response ?q)\<lparr>rsp_Hosts := [host_health now rec], rsp_Count := 1\<rparr>)"
    using h assms(3) recs by (auto simp: handleHostsShow_def Let_def split_beta split: option.splits)
  with socket.command_ok [OF assms(1) q _ _ assms(2), of k] f show ?thesis
    by (intro exI [of _ "sorted_response r"]) (auto simp: response_defs ok_response_def split: option.splits)
qed

lemma daemon_serve_response: "daemon_serve senv ann now j s = (s', Inr v) \<Longrightarrow> \<exists>rsp. v = json_Response base64 rsp"
  by (auto simp: daemon_serve_def split: option.splits prod.splits)

lemma exchange_response:
  "time_exchange (socket_link senv ann now path) p req s = (s', Inr v) \<Longrightarrow> \<exists>rsp. v = json_Response base64 rsp"
  using daemon_serve_response [of senv ann now req s s' v]
  by (auto simp: time_exchange_def socket_link_def split: option.splits prod.splits sum.splits if_splits)

text \<open>The addresses that a check dials: every address of the host with the port of every service that has one.\<close>

definition service_targets :: "Record \<Rightarrow> string list" where
  "service_targets r = concat (map (\<lambda>(svc, v). let port = fst (parseServiceAddr v)
     in if port = 0 then [] else map (\<lambda>addr. addr @ '':'' @ itoa port) (r_Addresses r)) (r_Services r))"

lemma mset_concat_map: "mset xs = mset ys \<Longrightarrow> mset (concat (map f xs)) = mset (concat (map f ys))"
proof -
  have "mset (concat (map f xs)) = sum_mset (image_mset (mset \<circ> f) (mset xs))" for xs by (induction xs) simp_all
  then show "mset xs = mset ys \<Longrightarrow> mset (concat (map f xs)) = mset (concat (map f ys))" by simp
qed

lemma host_checks_targets:
  assumes "\<And>m. mset (ce_range env m) = mset m"
  shows "mset (map check_address (host_checks env (seen_host ht now r))) = mset (service_targets r)"
proof -
  let ?f = "\<lambda>(svc, v). let port = fst (parseServiceAddr v) in if port = 0 then [] else map (\<lambda>addr. addr @ '':'' @ itoa port) (r_Addresses r)"
  let ?h = "seen_host ht now r"
  have "map check_address (host_checks env ?h) = concat (map ?f (ce_range env (hh_Services ?h)))"
    by (auto simp: host_checks_def map_concat comp_def check_address_def Let_def split_beta intro!: arg_cong [of _ _ concat])
  also have "mset \<dots> = mset (concat (map ?f (r_Services r)))"
    by (intro mset_concat_map) (simp add: assms seen_host_def host_health_def sorted_host_def UpdateRecordStatus_def)
  finally show ?thesis by (simp add: service_targets_def)
qed

lemma length_filter_mset: "mset (map f xs) = mset ys \<Longrightarrow> length (filter (\<lambda>x. P (f x)) xs) = length (filter P ys)"
  by (metis comp_apply filter_cong filter_map length_map mset_filter size_mset)

lemma dec_zero: "dec_nat 0 = ''0''"
  by code_simp

lemma fixed_zero: "fixed_text 6 0 = ''0.000000''"
proof -
  have "replicate 5 CHR ''0'' = ''00000''" by (simp add: eval_nat_numeral)
  moreover have "round_even 0 = 0" by (simp add: round_even_def)
  ultimately show ?thesis by (simp add: fixed_text_def dec_zero)
qed

lemma doLookup_eq:
  assumes "getSocketPath env = path"
  shows "doLookup env (socket_link senv ann now path) name s = (s,
    case ValidateHostname name of
      Some err \<Rightarrow> (print_err (''Error: invalid hostname: '' @ err), 1)
    | None \<Rightarrow>
        (case Get (sv_store s) now name of
           None \<Rightarrow> (print_err (''Error: Host not found: '' @ name), 1)
         | Some record \<Rightarrow> (map (\<lambda>addr. (Stdout, addr @ nl)) (r_Addresses record), 0)))"
proof (cases "ValidateHostname name")
  case (Some err)
  then show ?thesis by (simp add: doLookup_def checkError_def)
next
  case None
  let ?q = "cli_query env QueryByName name ''lookup''"
  have q: "name_answer senv ann now ?q s = Some (s, handleQueryByName now ?q s)" by (simp add: name_answer_def)
  have lines: "concat (map print_line xs) = map (\<lambda>a. (Stdout, a @ nl)) xs" for xs by (induction xs) (simp_all add: print_line_def)
  show ?thesis
    using None
    by (simp add: doLookup_def name_socket.command_ok [OF TrueI q _ _ assms(1)] handleQueryByName_def response_defs lines
        host_not_found_def cli_Fatal_def cli_Error_def split: option.split)
qed

lemma forgetHost_eq:
  assumes "getSocketPath env = path" and "ValidateHostname host = None"
  shows "forgetHost env (socket_link senv ann now path) host s
    = (s\<lparr>sv_store := Forget host (sv_store s)\<rparr>, [(Stdout, ''Host forgotten: '' @ host @ nl)], 0)"
proof -
  let ?q = "cli_query env HostsForget host ''forget''"
  have "host \<noteq> []" using assms(2) by (auto simp: ValidateHostname_def)
  then have q: "name_answer senv ann now ?q s = Some (s\<lparr>sv_store := Forget host (sv_store s)\<rparr>, (ok_response ?q)\<lparr>rsp_Name := host\<rparr>)"
    by (simp add: name_answer_def handleHostsForget_def Let_def)
  show ?thesis using name_socket.command_ok [OF TrueI q _ _ assms(1)] assms(2) by (simp add: forgetHost_def ok_response_def print_line_def)
qed

section \<open>Properties\<close>

text \<open>C15: The lookup command shows the store: for a valid name it prints the addresses of the record that the store
  has for the name or alias at that moment, one on a line, and exits with 0; without such a record it exits with
  1, and it never changes the daemon.\<close>

theorem lookup_command_exact:
  assumes "getSocketPath env = path"
  shows "doLookup env (socket_link senv ann now path) name s = (s,
    case ValidateHostname name of
      Some err \<Rightarrow> (print_err (''Error: invalid hostname: '' @ err), 1)
    | None \<Rightarrow>
        (case Get (sv_store s) now name of
           None \<Rightarrow> (print_err (''Error: Host not found: '' @ name), 1)
         | Some record \<Rightarrow> (map (\<lambda>addr. (Stdout, addr @ nl)) (r_Addresses record), 0)))"
  using assms by (rule doLookup_eq)

text \<open>The status command adds up: the four counters that it prints are the numbers of records with each computed
  status, and their sum is the printed total.\<close>

theorem status_counts_add_up:
  assumes "typed_shared s" and "getSocketPath env = path"
  shows "\<exists>n. doStatus env (socket_link senv ann now path) s = (refreshed now s,
      map (\<lambda>l. (Stdout, l @ nl)) [''Disco Daemon Status'', replicate 30 CHR ''-'', ''Socket:      '' @ path,
        ''Total hosts: '' @ itoa (int (length (rs_records (sv_store s)))), ''  Healthy:   '' @ itoa (n StatusHealthy),
        ''  Stale:     '' @ itoa (n StatusStale), ''  Lost:      '' @ itoa (n StatusLost), ''  Static:    '' @ itoa (n StatusStatic)], 0)
    \<and> (\<forall>st. n st = int (card {i. i < length (rs_records (sv_store s))
         \<and> ComputeStatus (rs_healthTracker (sv_store s)) now (snd (rs_records (sv_store s) ! i)) = st}))
    \<and> n StatusHealthy + n StatusStale + n StatusLost + n StatusStatic = int (length (rs_records (sv_store s)))"
proof -
  let ?recs = "rs_records (sv_store s)" and ?st = "\<lambda>r. ComputeStatus (rs_healthTracker (sv_store s)) now r"
  define n where "n st = int (length (filter (\<lambda>e. ?st (snd e) = st) ?recs))" for st
  have "n StatusHealthy + n StatusStale + n StatusLost + n StatusStatic = int (length ?recs)"
  proof -
    have "length (filter (\<lambda>e. ?st (snd e) = ''healthy'') es) + length (filter (\<lambda>e. ?st (snd e) = ''stale'') es)
        + length (filter (\<lambda>e. ?st (snd e) = ''lost'') es) + length (filter (\<lambda>e. ?st (snd e) = ''static'') es) = length es" for es
    proof (induction es)
      case (Cons e es)
      then show ?case using status_values [of "rs_healthTracker (sv_store s)" now "snd e"] by (elim insertE emptyE) simp_all
    qed simp
    from this [of ?recs] show ?thesis unfolding n_def by linarith
  qed
  moreover have "n st = int (card {i. i < length ?recs \<and> ?st (snd (?recs ! i)) = st})" for st
    by (simp add: n_def length_filter_conv_card)
  moreover have cnt: "int (length (filter (\<lambda>h. hh_Status h = st) (seen_hosts now s))) = n st" for st
    by (simp add: seen_hosts_def n_def filter_map comp_def)
  have "doStatus env (socket_link senv ann now path) s = (refreshed now s, print_status env (seen_hosts now s), 0)"
    using hosts_command [OF assms, where p = "''status''" and now = now and senv = senv and ann = ann] by (auto simp: doStatus_def)
  moreover have "length (seen_hosts now s) = length ?recs" by (simp add: seen_hosts_def)
  ultimately show ?thesis
    by (intro exI [of _ n]) (simp add: print_status_def count_status_fold cnt print_line_def assms(2))
qed

text \<open>C29: The show command resolves a name or an unambiguous prefix: given a name that it accepts, it exits with 0 if and
  only if some host has it as its name or machine identifier, or it is a hexadecimal prefix of the machine identifier
  of exactly one host; it then prints the details of such a host, and otherwise it exits with 1.\<close>

theorem show_command_unique:
  assumes "typed_shared s" and "getSocketPath env = path"
    and "IsHexPrefix name \<or> cli_ValidateHexKey name 32 = None \<or> ValidateHostname name = None"
  shows "\<exists>out code. showHost env (socket_link senv ann now path) name s = (refreshed now s, out, code) \<and> code \<in> {0, 1}
    \<and> (code = 0 \<longleftrightarrow> (\<exists>h \<in> set (seen_hosts now s). hh_Hostname h = name \<or> hh_MachineID h = name)
         \<or> IsHexPrefix name \<and> length (filter (\<lambda>h. HasPrefix (hh_MachineID h) name) (seen_hosts now s)) = 1)
    \<and> (code = 0 \<longrightarrow> (\<exists>h \<in> set (seen_hosts now s). out = printHostDetail env h
         \<and> (hh_Hostname h = name \<or> HasPrefix (hh_MachineID h) name)))"
proof -
  let ?seen = "seen_hosts now s"
  let ?prefix = "filter (\<lambda>h. HasPrefix (hh_MachineID h) name) ?seen"
  have ne: "name \<noteq> []" using assms(3) by (auto simp: IsHexPrefix_def cli_ValidateHexKey_def ValidateHostname_def)
  obtain r2 where prefix: "rsp_Hosts r2 = ?seen" "with_response env (socket_link senv ann now path)
      (cli_query env HostsList [] ''host-prefix'') k (refreshed now s) = k r2 (refreshed now s)" for k :: "_ \<Rightarrow> _ \<Rightarrow> _ outcome"
    using hosts_command [OF typed_refreshed [OF assms(1), of now] assms(2), where now = now and senv = senv and ann = ann
        and p = "''host-prefix''"] by (auto simp: seen_refreshed refresh_twice)
  define k :: "Response \<Rightarrow> 'a shared_scheme \<Rightarrow> 'a shared_scheme outcome" where "k = (\<lambda>response s1.
     if rsp_Type response \<noteq> ResponseNotFound \<and> rsp_Hosts response \<noteq> []
     then (s1, printHostDetail env (hd (rsp_Hosts response)), 0)
     else if \<not> IsHexPrefix name then (s1, host_not_found name)
     else with_response env (socket_link senv ann now path) (cli_query env HostsList [] ''host-prefix'')
       (\<lambda>listResp s2. (s2, show_matches env name (filter (\<lambda>h. HasPrefix (hh_MachineID h) name) (rsp_Hosts listResp)))) s1)"
  obtain r where "with_response env (socket_link senv ann now path) (cli_query env HostsShow name ''host'') k s = k r (refreshed now s)"
    and r: "case find (named name) ?seen of None \<Rightarrow> rsp_Type r = ResponseNotFound | Some h \<Rightarrow> rsp_Type r = ResponseOK \<and> rsp_Hosts r = [h]"
    using show_command [OF assms(1,2) ne, where senv = senv and ann = ann and now = now and p = "''host''" and k = k] by blast
  then have start: "showHost env (socket_link senv ann now path) name s = k r (refreshed now s)"
    using assms(3) by (auto simp: showHost_def Let_def k_def [symmetric])
  show ?thesis
  proof (cases "find (named name) ?seen")
    case (Some h)
    then have "h \<in> set ?seen" "named name h" by (auto simp: find_Some_iff)
    moreover have "showHost env (socket_link senv ann now path) name s = (refreshed now s, printHostDetail env h, 0)"
      using start r Some by (simp add: k_def)
    ultimately show ?thesis by (auto simp: named_def HasPrefix_def)
  next
    case None
    then have no: "\<not> (\<exists>h \<in> set ?seen. hh_Hostname h = name \<or> hh_MachineID h = name)"
      using ne by (auto simp: find_None_iff named_def)
    have eq: "showHost env (socket_link senv ann now path) name s = (refreshed now s,
        if IsHexPrefix name then show_matches env name ?prefix else host_not_found name)"
      using start r None prefix by (simp add: k_def)
    show ?thesis
    proof (cases "IsHexPrefix name \<and> length ?prefix = 1")
      case True
      then obtain h where h: "?prefix = [h]" by (auto simp: length_Suc_conv)
      have "h \<in> set ?prefix" unfolding h by simp
      then have "h \<in> set ?seen" "HasPrefix (hh_MachineID h) name" by simp_all
      with True h eq show ?thesis by (auto simp: show_matches_def)
    next
      case False
      then have "\<exists>out. (if IsHexPrefix name then show_matches env name ?prefix else host_not_found name) = (out, 1)"
        by (auto simp: show_matches_def host_not_found_def cli_Fatal_def split: list.split)
      with False eq no show ?thesis by auto
    qed
  qed
qed

text \<open>C16: Forgetting through the command takes effect at once: once \<^verbatim>\<open>disco hosts forget\<close> has reported success
  for a host that is not configured, no lookup of any name or alias at any time prints the addresses of that host;
  one that exits with 0 prints those of a record of another host.\<close>

theorem forget_then_lookup:
  assumes "getSocketPath env = path" and "store_inv (sv_store s)"
    and "\<not> IsStatic (rs_healthTracker (sv_store s)) host"
    and "forgetHost env (socket_link senv ann now path) host s = (s', out, 0)"
  shows "out = [(Stdout, ''Host forgotten: '' @ host @ nl)] \<and>
    (\<exists>out' code. doLookup env (socket_link senv ann t path) name s' = (s', out', code) \<and>
      (code = 0 \<longrightarrow> (\<exists>r. Get (sv_store s') t name = Some r \<and> r_Hostname r \<noteq> host
         \<and> out' = map (\<lambda>addr. (Stdout, addr @ nl)) (r_Addresses r))))"
proof -
  have v: "ValidateHostname host = None" using assms(4) by (auto simp: forgetHost_def checkError_def split: option.splits)
  have f: "s' = s\<lparr>sv_store := Forget host (sv_store s)\<rparr>" "out = [(Stdout, ''Host forgotten: '' @ host @ nl)]"
    using assms(4) by (simp_all add: forgetHost_eq [OF assms(1) v])
  note l = doLookup_eq [OF assms(1), of senv ann t name]
  have "r_Hostname r \<noteq> host" if "Get (sv_store s') t name = Some r" for r
    using cache.forgotten_not_served [OF assms(2,3)] that f(1) by simp
  then show ?thesis
    unfolding l using f(2) by (cases "ValidateHostname name"; cases "Get (sv_store s') t name") auto
qed

text \<open>The forget command reports success for every valid name, also for one that no host has and for a configured host,
  which stays.\<close>

theorem forget_always_reports_success:
  assumes "getSocketPath env = path" and "ValidateHostname host = None"
  shows "\<exists>s'. forgetHost env (socket_link senv ann now path) host s = (s', [(Stdout, ''Host forgotten: '' @ host @ nl)], 0)
    \<and> (\<forall>r. map_of (rs_records (sv_store s)) host = Some r \<and> r_IsStatic r \<longrightarrow> map_of (rs_records (sv_store s')) host = Some r)"
  by (auto simp: forgetHost_eq [OF assms] Forget_def)

text \<open>The check command reports on every service: for a state with at least one service that has a port, its last
  line counts, over all hosts, their services with a port and their addresses, how many connections to
  \<^verbatim>\<open>address:port\<close> succeed and how many fail, in whatever order the maps are visited.\<close>

theorem check_counts_every_service:
  assumes "typed_shared s" and "getSocketPath env = path" and "\<And>m. mset (ce_range env m) = mset m"
    and "\<not> ce_outputJSON env" and "\<not> ce_tty env"
    and "targets = concat (map (service_targets \<circ> snd) (rs_records (sv_store s)))" and "targets \<noteq> []"
  shows "\<exists>out. checkServices env (socket_link senv ann now path) dial timeout verbose s = (refreshed now s, out, 0)
    \<and> last out = (Stdout, nl @ ''Summary: '' @ itoa (int (length (filter (\<lambda>t. dial t = None) targets))) @ '' up, ''
        @ itoa (int (length (filter (\<lambda>t. dial t \<noteq> None) targets))) @ '' down, '' @ itoa (int (length targets)) @ '' total'' @ nl)"
proof -
  let ?checks = "concat (map (host_checks env) (seen_hosts now s))"
  have m: "mset (map check_address ?checks) = mset targets"
  proof -
    have "mset (map check_address (concat (map (host_checks env) (map (seen_host ht now \<circ> snd) es)))) =
        mset (concat (map (service_targets \<circ> snd) es))" for ht es
    proof (induction es)
      case (Cons e es)
      then show ?case using host_checks_targets [OF assms(3), of ht now "snd e"] by simp
    qed simp
    then show ?thesis unfolding assms(6) seen_hosts_def .
  qed
  have reach: "sc_Reachable (checkService dial c) \<longleftrightarrow> dial (check_address c) = None" for c
    by (simp add: checkService_def split: option.split)
  have n: "length ?checks = length targets" using arg_cong [OF m, of size] by simp
  with assms(7) have ne: "?checks \<noteq> []" by (metis length_0_conv)
  moreover have "seen_hosts now s \<noteq> []" using ne by auto
  moreover have "length (filter sc_Reachable (map (checkService dial) ?checks)) = length (filter (\<lambda>t. dial t = None) targets)"
    "length (filter (\<lambda>c. \<not> sc_Reachable c) (map (checkService dial) ?checks)) = length (filter (\<lambda>t. dial t \<noteq> None) targets)"
    using length_filter_mset [OF m, of "\<lambda>t. dial t = None"] length_filter_mset [OF m, of "\<lambda>t. dial t \<noteq> None"]
    by (simp_all add: filter_map comp_def reach)
  moreover obtain r where "rsp_Hosts r = seen_hosts now s" "with_response env (socket_link senv ann now path)
      (cli_query env HostsList [] ''check'') k s = k r (refreshed now s)" for k :: "_ \<Rightarrow> _ \<Rightarrow> _ outcome"
    using hosts_command [OF assms(1,2), where now = now and senv = senv and ann = ann and p = "''check''"] by auto
  ultimately show ?thesis
    using n assms(4,5) by (simp add: checkServices_def Let_def printCheckResults_def print_line_def Colorize_def)
qed

text \<open>C40: The time commands are blind: behind any daemon that answers in its own format, \<^verbatim>\<open>disco timeset\<close> always ends
  with exit code 1, whatever the daemon did to the clock, and \<^verbatim>\<open>disco time\<close> can print nothing but an
  unsynchronised clock without sources.\<close>

theorem time_commands_blind:
  "snd (snd (forceTimeUpdate env (socket_link senv ann now path) verbose allowBackward s)) = 1
   \<and> (case showTimeStatus env (socket_link senv ann now path) s of
        (s', out, code) \<Rightarrow> code = 0 \<and> out = map (\<lambda>l. (Stdout, l @ nl)) [''Synced: NO'', ''Sources: 0'', ''Offset: 0.000000 seconds'']
          \<or> code = 1)"
proof
  show "snd (snd (forceTimeUpdate env (socket_link senv ann now path) verbose allowBackward s)) = 1"
  proof -
    obtain s' r where x: "time_exchange (socket_link senv ann now path) (getSocketPath env)
        (force_update_request (ce_now env) allowBackward) s = (s', r)" by fastforce
    show ?thesis
    proof (cases r)
      case (Inl err)
      with x show ?thesis by (simp add: forceTimeUpdate_def ForceTimeUpdate_def checkError_def Let_def)
    next
      case (Inr v)
      then obtain rsp where "v = json_Response base64 rsp" using exchange_response x by blast
      with x Inr force_result_blank [of base64 rsp] show ?thesis
        by (simp add: forceTimeUpdate_def ForceTimeUpdate_def checkError_def Let_def)
    qed
  qed
  show "case showTimeStatus env (socket_link senv ann now path) s of
        (s', out, code) \<Rightarrow> code = 0 \<and> out = map (\<lambda>l. (Stdout, l @ nl)) [''Synced: NO'', ''Sources: 0'', ''Offset: 0.000000 seconds'']
          \<or> code = 1"
  proof -
    obtain s' r where x: "time_exchange (socket_link senv ann now path) (getSocketPath env) (time_status_request (ce_now env)) s = (s', r)"
      by fastforce
    show ?thesis
    proof (cases r)
      case (Inl err)
      with x show ?thesis by (simp add: showTimeStatus_def GetTimeStatus_def checkError_def)
    next
      case (Inr v)
      then obtain rsp where "v = json_Response base64 rsp" using exchange_response x by blast
      with x Inr show ?thesis
        by (simp add: showTimeStatus_def GetTimeStatus_def time_status_blank fixed_zero dec_zero print_line_def itoa_def)
    qed
  qed
qed

text \<open>Pinging a host that the daemon knows by name: the command tries the first address of a host whose name is the
  target up to the case of letters, and it succeeds exactly if at least one of the requested attempts at that address
  and port is answered by a datagram that starts with PONG.\<close>

theorem ping_known_host:
  assumes "typed_shared s" and "getSocketPath env = path" and "ValidatePingTarget (ce_v6 env) raw = None"
    and "validatePingArgs a = None" and "ParseIP (ce_v6 env) raw = None"
    and "(h, r) \<in> set (rs_records (sv_store s))" and "EqualFold (r_Hostname r) raw" and "r_Addresses r \<noteq> []"
  shows "\<exists>h' r' out err. (h', r') \<in> set (rs_records (sv_store s)) \<and> EqualFold (r_Hostname r') raw \<and> r_Addresses r' \<noteq> []
    \<and> runPing env (socket_link senv ann now path) net a raw s = (refreshed now s, out, err)
    \<and> (err = None \<longleftrightarrow> (\<exists>i data l. int i < pg_Count a
         \<and> net i (JoinHostPort (r_Addresses r' ! 0) (itoa (pg_Port a))) = Reply data l \<and> HasPrefix data ''PONG''))"
proof -
  let ?P = "\<lambda>h. EqualFold (hh_Hostname h) raw \<and> length (hh_Addresses h) > 0"
  have "\<exists>h \<in> set (seen_hosts now s). ?P h"
    using assms(6-8) by (force simp: seen_hosts_def)
  then obtain hh where f: "find ?P (seen_hosts now s) = Some hh" by (cases "find ?P (seen_hosts now s)") (auto simp: find_None_iff)
  then have "hh \<in> set (seen_hosts now s)" "?P hh" by (auto simp: find_Some_iff)
  then obtain h' r' where r': "(h', r') \<in> set (rs_records (sv_store s))" "EqualFold (r_Hostname r') raw" "r_Addresses r' \<noteq> []"
    and a': "hh_Addresses hh = r_Addresses r'"
    by (auto simp: seen_hosts_def)
  let ?t = "r_Addresses r' ! 0"
  let ?q = "zero_Query\<lparr>q_Type := HostsList, q_RequestID := GenerateRequestID (ce_now env) ''ping''\<rparr>"
  have "?q = cli_query env HostsList [] ''ping''" by (simp add: cli_query_def zero_Query_def)
  moreover have "\<exists>rs. rsp_Hosts rs = seen_hosts now s
      \<and> ask_daemon env (socket_link senv ann now path) (cli_query env HostsList [] ''ping'') s = (refreshed now s, Inr rs)"
    using hosts_ask [OF assms(1,2)] by fast
  ultimately obtain rs where "rsp_Hosts rs = seen_hosts now s"
    "ask_daemon env (socket_link senv ann now path) ?q s = (refreshed now s, Inr rs)" by auto
  then have target: "resolveTarget env (socket_link senv ann now path) raw s = (refreshed now s, ?t)"
    using f a' assms(5) by (simp add: resolveTarget_def matchTarget_def first_address_def)
  obtain out3 n ls where e: "executePings env a net ?t = (out3, n, ls)" by (cases "executePings env a net ?t")
  have "n > 0 \<longleftrightarrow> (\<exists>i data l. int i < pg_Count a \<and> net i (JoinHostPort ?t (itoa (pg_Port a))) = Reply data l \<and> HasPrefix data ''PONG'')"
    unfolding executePings_result(2) [OF e] executePings_result(1) [OF e]
    using pongs_empty [of net "JoinHostPort ?t (itoa (pg_Port a))" "nat (pg_Count a)"] pong_iff
    by (metis length_greater_0_conv of_nat_0_less_iff zless_nat_eq_int_zless)
  with r' target e assms(3,4) show ?thesis
    by (intro exI [of _ h'] exI [of _ r']) (simp add: runPing_def Let_def)
qed

section \<open>Witnesses\<close>

text \<open>A daemon that knows one host, with an alias, a machine identifier and a service.\<close>

definition demo_web :: Record where
  "demo_web = demo_record\<lparr>r_MachineID := ''0a1b2c'', r_Timestamp := 1000, r_Services := [(''www'', ''10.0.0.5:7'')]\<rparr>"

definition demo_office :: shared where
  "demo_office = demo_shared\<lparr>sv_store := demo_store\<lparr>rs_records := [(''web1'', demo_web)]\<rparr>\<rparr>"

abbreviation demo_socket :: "shared daemon_link" where
  "demo_socket \<equiv> socket_link demo_sock_env None (1000 * Second) ''/s''"

lemmas demo_office_defs = demo_office_def demo_shared_def demo_web_def demo_record_def zero_Record_def demo_store_eval

lemma demo_office_typed: "typed_shared demo_office"
  by (simp add: typed_shared_iff demo_office_defs typed_record_def service_total_def NewLocationStore_def)

lemma demo_office_inv: "store_inv (sv_store demo_office)" "\<not> IsStatic (rs_healthTracker (sv_store demo_office)) ''web1''"
  by (simp_all add: demo_office_defs store_inv_def record_ok_def alias_ok_def IsStatic_def)

lemma demo_web1_valid: "ValidateHostname ''web1'' = None"
  by code_simp

theorem lookup_command_exact_witness:
  "doLookup demo_cli demo_socket ''web1'' demo_office = (demo_office, [(Stdout, ''10.0.0.5'' @ nl)], 0)"
proof -
  have "Get (sv_store demo_office) (1000 * Second) ''web1'' = Some demo_web"
    by (simp add: Get_def find_record_def demo_office_defs ComputeStatus_def record_age_def time_Sub_def clamp64_def time_Unix_def
        demo_health_def)
  with lookup_command_exact [OF demo_cli_path, of demo_sock_env None "1000 * Second" "''web1''" demo_office] demo_web1_valid
  show ?thesis by (simp add: demo_web_def demo_record_def)
qed

theorem status_counts_add_up_witness:
  "\<exists>n out. doStatus demo_cli demo_socket demo_office = (refreshed (1000 * Second) demo_office, out, 0)
     \<and> n StatusHealthy + n StatusStale + n StatusLost + n StatusStatic = (1 :: int)"
  using status_counts_add_up [OF demo_office_typed demo_cli_path, of demo_sock_env None "1000 * Second"]
  by (auto simp: demo_office_def)

theorem show_command_unique_witness:
  "\<exists>out. showHost demo_cli demo_socket ''0a1b'' demo_office = (refreshed (1000 * Second) demo_office, out, 0)"
proof -
  have p: "IsHexPrefix ''0a1b''" by code_simp
  have "filter (\<lambda>h. HasPrefix (hh_MachineID h) ''0a1b'') (seen_hosts (1000 * Second) demo_office) = seen_hosts (1000 * Second) demo_office"
    "length (seen_hosts (1000 * Second) demo_office) = 1"
    by (simp_all add: seen_hosts_def demo_office_def demo_web_def HasPrefix_def)
  with p show ?thesis
    using show_command_unique [OF demo_office_typed demo_cli_path, of "''0a1b''" demo_sock_env None "1000 * Second"] by auto
qed

theorem forget_then_lookup_witness:
  "\<exists>s' out code. forgetHost demo_cli demo_socket ''web1'' demo_office = (s', [(Stdout, ''Host forgotten: web1'' @ nl)], 0)
     \<and> doLookup demo_cli demo_socket ''www'' s' = (s', out, code) \<and> Get (sv_store s') (1000 * Second) ''www'' = None"
proof -
  let ?s' = "demo_office\<lparr>sv_store := Forget ''web1'' (sv_store demo_office)\<rparr>"
  have f: "forgetHost demo_cli demo_socket ''web1'' demo_office = (?s', [(Stdout, ''Host forgotten: web1'' @ nl)], 0)"
    using forgetHost_eq [OF demo_cli_path demo_web1_valid] by simp
  have "Get (sv_store ?s') (1000 * Second) ''www'' = None"
    by (simp add: demo_office_defs Forget_def removeAliasesForHost_def Get_def find_record_def)
  with f forget_then_lookup [OF demo_cli_path demo_office_inv f, of "1000 * Second" "''www''"] show ?thesis by auto
qed

theorem forget_always_reports_success_witness:
  "\<exists>s'. forgetHost demo_cli demo_socket ''nas'' demo_office = (s', [(Stdout, ''Host forgotten: nas'' @ nl)], 0)"
proof -
  have "ValidateHostname ''nas'' = None" by code_simp
  from forget_always_reports_success [OF demo_cli_path this, of demo_sock_env None "1000 * Second"] show ?thesis by auto
qed

theorem check_counts_every_service_witness:
  "\<exists>out. checkServices demo_cli demo_socket (\<lambda>t. None) Second False demo_office = (refreshed (1000 * Second) demo_office, out, 0)
     \<and> last out = (Stdout, nl @ ''Summary: 1 up, 0 down, 1 total'' @ nl)"
proof -
  have t: "concat (map (service_targets \<circ> snd) (rs_records (sv_store demo_office))) = [''10.0.0.5:7'']"
  proof -
    have "service_targets demo_web = [''10.0.0.5:7'']" unfolding demo_web_def demo_record_def zero_Record_def by code_simp
    then show ?thesis by (simp add: demo_office_def)
  qed
  have i: "itoa 1 = ''1''" "itoa 0 = ''0''" by code_simp+
  show ?thesis
    using check_counts_every_service [OF demo_office_typed demo_cli_path _ _ _ t [symmetric], of demo_sock_env None "1000 * Second" "\<lambda>t. None" Second False]
    by (simp add: demo_cli_def i)
qed

theorem ping_known_host_witness:
  "\<exists>out. runPing demo_cli demo_socket (\<lambda>i addr. if addr = ''10.0.0.5:7'' then Reply ''PONG'' 3 else ReadErr [])
     \<lparr>pg_Port = 7, pg_Count = 1, pg_Interval = Second, pg_Verbose = False\<rparr> ''WEB1'' demo_office
     = (refreshed (1000 * Second) demo_office, out, None)"
proof -
  let ?net = "\<lambda>i addr. if addr = ''10.0.0.5:7'' then Reply ''PONG'' 3 else ReadErr []"
  let ?a = "\<lparr>pg_Port = 7, pg_Count = 1, pg_Interval = Second, pg_Verbose = False\<rparr>"
  have v: "ValidatePingTarget (ce_v6 demo_cli) ''WEB1'' = None" "ParseIP (ce_v6 demo_cli) ''WEB1'' = None"
    "EqualFold ''web1'' ''WEB1''" by code_simp+
  have a: "validatePingArgs ?a = None" by (simp add: validatePingArgs_def)
  have j: "JoinHostPort ''10.0.0.5'' (itoa 7) = ''10.0.0.5:7''" by code_simp
  have web: "(''web1'', demo_web) \<in> set (rs_records (sv_store demo_office))" by (simp add: demo_office_def)
  from ping_known_host [OF demo_office_typed demo_cli_path v(1) a v(2) web, of demo_sock_env None "1000 * Second" ?net]
  show ?thesis by (auto simp: demo_office_def demo_web_def demo_record_def v(3) j HasPrefix_def intro: exI [of _ 0])
qed

end
