(* ===== verification/Network.thy ===== *)
theory Network
  imports Cli_System
begin

text \<open>
  Two nodes: the announcer of one (\<^verbatim>\<open>internal/discovery/broadcast.go\<close>), the daemon of the other with its
  listener, store and socket (\<^verbatim>\<open>internal/daemon\<close>), and the tool of a user there
  (\<^verbatim>\<open>cmd/disco/commands/lookup.go\<close>). The network between them delivers a datagram or does not.
\<close>

section \<open>Delivery inside the daemon\<close>

text \<open>The goroutine that reads the channel of announcements can empty it in every state.\<close>

lemma drain_messages:
  assumes "d_listener d = Some l" and "store_inv (sv_store d)"
  shows "\<exists>d'. (daemon_step env)\<^sup>*\<^sup>* d d' \<and> d_listener d' = Some (l\<lparr>l_messageChan := []\<rparr>) \<and> store_inv (sv_store d')
    \<and> rs_healthTracker (sv_store d') = rs_healthTracker (sv_store d)"
  using assms
proof (induction "l_messageChan l" arbitrary: d l)
  case Nil
  then have "l\<lparr>l_messageChan := []\<rparr> = l" by simp
  with Nil.prems show ?case by auto
next
  case (Cons m ms)
  let ?l = "l\<lparr>l_messageChan := ms\<rparr>"
  let ?d = "handleDiscoveryMessage 0 m (d\<lparr>d_listener := Some ?l\<rparr>)"
  have step: "daemon_step env d ?d" using d_message [of d l m ms env 0] Cons.prems Cons.hyps(2) by simp
  have "d_listener ?d = Some ?l" "store_inv (sv_store ?d)"
    "rs_healthTracker (sv_store ?d) = rs_healthTracker (sv_store d)"
    using Cons.prems by (simp_all add: handleDiscoveryMessage_def AddOrUpdate_inv)
  with Cons.hyps(1) [of ?l ?d] step show ?case by (auto intro: converse_rtranclp_into_rtranclp)
qed

text \<open>A message that the listener accepts reaches the store: it is received, queued and handled.\<close>

lemma accepted_message_stored:
  assumes "d_listener d = Some l" and "l_pending l = None" and "l_messageChan l = []"
    and "snd (receive (nv_dec env) (nv_mac env) (nv_marshal env) now (read_datagram data) l) = Some (DMsg msg)"
  shows "\<exists>d'. (daemon_step env)\<^sup>*\<^sup>* d d' \<and> sv_store d' = AddOrUpdate now (discovery_record msg) (sv_store d)
    \<and> d_hostname d' = d_hostname d"
proof -
  obtain l1 where r: "receive (nv_dec env) (nv_mac env) (nv_marshal env) now (read_datagram data) l = (l1, Some (DMsg msg))"
    using assms(4) by (metis prod.collapse)
  have l1: "l_messageChan l1 = []" using receive_frame [OF r] assms(3) by (metis Listener.select_convs(2) Listener.surjective Listener.update_convs(5))
  let ?d1 = "d\<lparr>d_listener := Some (l1\<lparr>l_pending := Some (DMsg msg)\<rparr>)\<rparr>"
  let ?l2 = "l1\<lparr>l_messageChan := [msg], l_pending := Some (DMsg msg)\<rparr>"
  let ?d2 = "?d1\<lparr>d_listener := Some (?l2\<lparr>l_pending := None\<rparr>)\<rparr>"
  let ?d3 = "handleDiscoveryMessage now msg (?d2\<lparr>d_listener := Some (?l2\<lparr>l_pending := None, l_messageChan := []\<rparr>)\<rparr>)"
  have "daemon_step env d ?d1" using d_recv [OF assms(1,2) r] by simp
  moreover have "daemon_step env ?d1 ?d2"
    by (rule d_send [of _ "l1\<lparr>l_pending := Some (DMsg msg)\<rparr>" "DMsg msg"]) (simp_all add: l1 chan_size_def)
  moreover have "daemon_step env ?d2 ?d3" by (rule d_message) simp_all
  ultimately have "(daemon_step env)\<^sup>*\<^sup>* d ?d3" by (meson rtranclp.rtrancl_refl rtranclp.rtrancl_into_rtrancl)
  moreover have "sv_store ?d3 = AddOrUpdate now (discovery_record msg) (sv_store d)" "d_hostname ?d3 = d_hostname d"
    by (simp_all add: handleDiscoveryMessage_def)
  ultimately show ?thesis by blast
qed

lemma createAnnouncement_IPs:
  "bm_IPs (snd (createAnnouncement net hm marshal rnd t a)) = snd (getLocalIPs net t a)"
  "bm_Hostname (snd (createAnnouncement net hm marshal rnd t a)) = a_hostname a"
  by (auto simp: createAnnouncement_def sign_announcement_def Let_def split_beta split: option.split sum.split)

section \<open>Properties\<close>

text \<open>C3: Discovery works across the network: a node with a key announces itself; another node whose daemon trusts
  the key, in whatever state its start and any steps have led to in which the listener is at its socket, receives one of
  the datagrams, unseen and at most 300 seconds old. Then the daemon can take steps, whatever waits in its channel, after
  which the lookup command of a user there, until the record expires, prints exactly the addresses that the announcer
  found on its interfaces.\<close>

theorem discovered_host_lookup:
  assumes "daemon_init env ne cfg d0" and "(daemon_step env)\<^sup>*\<^sup>* d0 d"
    and "d_listener d = Some l" and "l_pending l = None"
    and "sendAnnouncement net (nv_mac env) (nv_marshal env) (Inr nonce) t a = (a', sent)" and "(target, data) \<in> set sent"
    and "createAnnouncement net (nv_mac env) (nv_marshal env) (Inr nonce) t a = (a1, msg)"
    and "a_keyManager a = Some km" and "nv_marshal env (signed_payload (msg\<lparr>bm_Signature := None\<rparr>)) = Inr sigData"
    and "length data \<le> buf_size"
    and "\<And>bytes. nv_marshal env (json_BroadcastMessage msg) = Inr bytes \<Longrightarrow> dec_msg (nv_dec env) bytes = Some msg
      \<and> dec_raw (nv_dec env) bytes = Some \<lparr>raw_Type = bm_Type msg, raw_MessageID = bm_MessageID msg\<rparr>"
    and "map_of (df_seen (l_duplicateFilter l)) (bm_MessageID msg) = None"
    and "l_keyManager l = Some km'" and "map_of (km_trustedPeers km') (km_nodeID km) = Some (km_sharedSecret km)"
    and "0 \<le> t" "t \<le> now" "now < 2 ^ 62" "unix_secs now - unix_secs t \<le> 300"
    and "\<not> IsStatic (rs_healthTracker (sv_store d)) (a_hostname a)" and "ValidateHostname (a_hostname a) = None"
    and "time_Sub later (time_Unix (unix_secs now)) < hc_ExpireAfter (ht_config (rs_healthTracker (sv_store d)))"
  shows "\<exists>d'. (daemon_step env)\<^sup>*\<^sup>* d d' \<and>
    doLookup cenv (socket_link (nv_sock env) (Some (AnnounceService env later)) later (getSocketPath cenv)) (a_hostname a) d'
      = (d', map (\<lambda>ip. (Stdout, ip @ nl)) (elems (snd (getLocalIPs net t a))), 0)"
proof -
  have "typed_store (sv_store d)" by (rule typed_system.steps_inv [OF typed_system.inv_init [OF assms(1)] assms(2)])
  then obtain d1 where d1: "(daemon_step env)\<^sup>*\<^sup>* d d1" "d_listener d1 = Some (l\<lparr>l_messageChan := []\<rparr>)" "store_inv (sv_store d1)"
    "rs_healthTracker (sv_store d1) = rs_healthTracker (sv_store d)"
    using drain_messages [OF assms(3), of env] by (auto simp: typed_store_def)
  have "nv_marshal env (json_BroadcastMessage msg) = Inr data"
    using assms(5-7) by (auto simp: sendAnnouncement_def Let_def split: sum.splits prod.splits)
  note dec = assms(11) [OF this]
  have "snd (receive (nv_dec env) (nv_mac env) (nv_marshal env) now (read_datagram data) (l\<lparr>l_messageChan := []\<rparr>)) = Some (DMsg msg)"
    using announcement_received [OF assms(7-9) conjunct2 [OF dec] conjunct1 [OF dec], of "l\<lparr>l_messageChan := []\<rparr>" km' now]
      assms(10,12-18) by simp
  with accepted_message_stored [OF d1(2), of env now data msg] assms(4) obtain d2 where d2: "(daemon_step env)\<^sup>*\<^sup>* d1 d2"
    "sv_store d2 = AddOrUpdate now (discovery_record msg) (sv_store d1)" by auto
  have name: "bm_Hostname msg = a_hostname a" "bm_IPs msg = snd (getLocalIPs net t a)"
    using createAnnouncement_IPs [of net "nv_mac env" "nv_marshal env" "Inr nonce" t a] assms(7) by simp_all
  have "\<exists>r. Get (sv_store d2) later (a_hostname a) = Some r \<and> r_Addresses r = elems (snd (getLocalIPs net t a))"
    using store_get_announced(1) [OF d1(3), of "discovery_record msg" later now] assms(19,21) d1(4) d2(2)
    by (simp add: name stored_record_def)
  then show ?thesis
    using d1(1) d2(1) assms(20) by (intro exI [of _ d2]) (auto simp: doLookup_eq [OF refl])
qed

theorem discovered_host_lookup_witness:
  "\<exists>env d0 d'. daemon_init env demo_new_env demo_config d0 \<and> (daemon_step env)\<^sup>*\<^sup>* d0 d' \<and>
     doLookup demo_cli (socket_link (nv_sock env) (Some (AnnounceService env 9)) 9 (getSocketPath demo_cli)) ''a'' d'
       = (d', [(Stdout, ''192.168.1.7'' @ nl)], 0)"
proof -
  define a where "a = \<lparr>a_broadcastAddr = ''255.255.255.255:5354'', a_hostname = ''a'', a_machineID = [],
    a_interval = Minute, a_services = [], a_rateLimiter = NewRateLimiter 0 10 10, a_keyManager = Some demo_signer,
    a_cachedBroadcastAddr = ([255, 255, 255, 255], 5354), a_cachedPort = ''5354'', a_ifaceFilter = [],
    a_ifaceCache = [], a_ifaceCacheTime = zero_time, a_ifaceCacheTTL = 30 * Second\<rparr>"
  obtain a1 msg where c: "createAnnouncement demo_env demo_mac demo_marshal (Inr ''n'') 5 a = (a1, msg)"
    by (cases "createAnnouncement demo_env demo_mac demo_marshal (Inr ''n'') 5 a")
  obtain a' sent where s: "sendAnnouncement demo_env demo_mac demo_marshal (Inr ''n'') 5 a = (a', sent)"
    by (cases "sendAnnouncement demo_env demo_mac demo_marshal (Inr ''n'') 5 a")
  then have m: "(([255, 255, 255, 255], 5354), ''hello'') \<in> set sent"
    by (auto simp: sendAnnouncement_def demo_marshal_def a_def Let_def split: prod.splits)
  define env where "env = demo_node\<lparr>nv_dec := demo_dec\<lparr>dec_msg := (\<lambda>_. Some msg),
    dec_raw := (\<lambda>_. Some \<lparr>raw_Type = bm_Type msg, raw_MessageID = bm_MessageID msg\<rparr>)\<rparr>\<rparr>"
  have env: "nv_mac env = demo_mac" "nv_marshal env = demo_marshal" "dec_msg (nv_dec env) x = Some msg"
    "dec_raw (nv_dec env) x = Some \<lparr>raw_Type = bm_Type msg, raw_MessageID = bm_MessageID msg\<rparr>" for x
    by (simp_all add: env_def demo_node_def demo_sock_env_def)
  let ?l = "demo_listener (Some demo_self) True"
  obtain dn where dn: "New demo_new_env 0 demo_config = Inr dn" "d_listener dn = Some ?l" "\<not> start_panics dn"
    "sv_store dn = NewRecordStore 0 demo_health demo_hosts"
    using demo_New by blast
  then obtain d where d: "Run env (Inr ()) 0 dn = Some (Inr d)" by (simp add: Run_def Let_def)
  then have init: "daemon_init env demo_new_env demo_config d"
    using dn(1) by (auto simp: daemon_init_def demo_config_def demo_hosts_def)
  have l: "d_listener d = Some ?l" using Run_Inr [OF d] dn by auto
  have ht: "rs_healthTracker (sv_store d) = NewHealthTracker demo_health demo_hosts"
    using Run_Inr [OF d] dn(4) by (auto simp: NewRecordStore_sel demo_hosts_def)
  have host: "a_hostname a = ''a''" by (simp add: a_def)
  have valid: "ValidateHostname ''a'' = None" by code_simp
  have st: "\<not> IsStatic (NewHealthTracker demo_health demo_hosts) ''a''" by (simp add: IsStatic_New demo_hosts_def)
  have ips: "elems (snd (getLocalIPs demo_env 5 a)) = [''192.168.1.7'']" unfolding a_def by code_simp
  have "\<exists>d'. (daemon_step env)\<^sup>*\<^sup>* d d' \<and>
     doLookup demo_cli (socket_link (nv_sock env) (Some (AnnounceService env 9)) 9 (getSocketPath demo_cli)) (a_hostname a) d'
       = (d', map (\<lambda>ip. (Stdout, ip @ nl)) (elems (snd (getLocalIPs demo_env 5 a))), 0)"
  proof (rule discovered_host_lookup [OF init rtranclp.rtrancl_refl l, where km = demo_signer and km' = demo_self and now = 9 and sigData = "''hello''"])
    show "sendAnnouncement demo_env (nv_mac env) (nv_marshal env) (Inr ''n'') 5 a = (a', sent)" using s by (simp add: env)
    show "createAnnouncement demo_env (nv_mac env) (nv_marshal env) (Inr ''n'') 5 a = (a1, msg)" using c by (simp add: env)
    show "a_keyManager a = Some demo_signer" by (simp add: a_def)
  qed (fact m | simp add: env host valid st ht demo_marshal_def demo_listener_def NewDuplicateFilter_def demo_sig_defs
         buf_size_def demo_new(5) time_Sub_def time_Unix_def clamp64_def)+
  then have "\<exists>d'. (daemon_step env)\<^sup>*\<^sup>* d d' \<and>
     doLookup demo_cli (socket_link (nv_sock env) (Some (AnnounceService env 9)) 9 (getSocketPath demo_cli)) ''a'' d'
       = (d', [(Stdout, ''192.168.1.7'' @ nl)], 0)"
    unfolding host ips by simp
  with init show ?thesis by blast
qed

end
