(* ===== verification/Cli_Listen.thy ===== *)
theory Cli_Listen
  imports Cli_Client
begin

text \<open>
  The listen command (\<^verbatim>\<open>cmd/disco/commands/listen.go\<close>): it binds a listener of its own, with or
  without a key file, and prints the announcements that pass it. The command only reads the channel of
  announcements, never those of time and location messages.
\<close>

section \<open>Arguments\<close>

record ListenArgs =
  la_BroadcastAddr :: string
  la_KeyFile :: string
  la_RequireSigned :: bool

text \<open>
  The key file as \<^verbatim>\<open>LoadKeyManager\<close> finds it, the network of the listener, and the formatting of
  times in RFC 3339 and as hours, minutes and seconds.
\<close>

record listen_env =
  le_net :: net_env
  le_listen :: "string + unit"
  le_stat :: "string \<Rightarrow> stat_result"
  le_readFile :: "string \<Rightarrow> read_result"
  le_unmarshal :: "string \<Rightarrow> string + KeyFile"
  le_dec :: decoders
  le_mac :: mac
  le_marshal :: marshaller
  le_rfc3339 :: "time \<Rightarrow> string"
  le_clock :: "time \<Rightarrow> string"



section \<open>Printing\<close>

definition json_listenService :: "ServiceInfo \<Rightarrow> json" where
  "json_listenService svc = JObj ([(''name'', JStr (si_Name svc)), (''port'', JInt (si_Port svc))]
     @ json_opt (si_Aliases svc \<noteq> []) ''aliases'' (json_strings (si_Aliases svc)))"

definition json_listenEvent :: "listen_env \<Rightarrow> ListenArgs \<Rightarrow> BroadcastMessage \<Rightarrow> json" where
  "json_listenEvent le a msg = JObj ([(''time'', JStr (le_rfc3339 le (time_Unix (bm_Timestamp msg)))),
       (''hostname'', JStr (bm_Hostname msg))]
     @ json_opt (bm_MachineID msg \<noteq> []) ''machine_id'' (JStr (bm_MachineID msg))
     @ [(''addresses'', json_slice JStr (bm_IPs msg))]
     @ json_opt (elems (bm_Services msg) \<noteq> []) ''services'' (JArr (map json_listenService (elems (bm_Services msg))))
     @ [(''signed'', JBool (bm_Signature msg \<noteq> None))]
     @ json_opt (la_KeyFile a \<noteq> []) ''verified'' (JBool (bm_Signature msg \<noteq> None)))"

text \<open>An error of the encoder is dropped and leaves an empty line.\<close>

definition printListenJSON :: "listen_env \<Rightarrow> ListenArgs \<Rightarrow> BroadcastMessage \<Rightarrow> written" where
  "printListenJSON le a msg = print_line (marshalled (le_marshal le) (json_listenEvent le a msg))"

definition formatAddrs :: "string list \<Rightarrow> string" where
  "formatAddrs ips = (if length ips = 0 then [] else join_from 0 '', '' ips ''  '')"

definition sig_tag :: "ListenArgs \<Rightarrow> BroadcastMessage \<Rightarrow> string" where
  "sig_tag a msg =
     (if bm_Signature msg = None then []
      else if la_KeyFile a = [] then '' [signed]''
      else '' [verified]'')"

text \<open>The branch in front of a service: a corner and a bar, in UTF-8.\<close>

abbreviation branch :: string where "branch \<equiv> [CHR 0xE2, CHR 0x94, CHR 0x94, CHR 0xE2, CHR 0x94, CHR 0x80]"

definition printListenText :: "listen_env \<Rightarrow> ListenArgs \<Rightarrow> BroadcastMessage \<Rightarrow> written" where
  "printListenText le a msg =
     (let ts = le_clock le (time_Unix (bm_Timestamp msg));
          machine = (if bm_MachineID msg \<noteq> [] then '' ('' @ short_id (bm_MachineID msg) @ '')'' else [])
      in print_line (ts @ ''  '' @ pad_right 20 (bm_Hostname msg @ machine) @ formatAddrs (elems (bm_IPs msg)) @ sig_tag a msg)
         @ concat (map (\<lambda>svc. print_line (''         '' @ branch @ '' '' @ pad_right 14 (si_Name svc) @ '' port '' @ itoa (si_Port svc)))
             (elems (bm_Services msg))))"

definition listen_print :: "cli_env \<Rightarrow> listen_env \<Rightarrow> ListenArgs \<Rightarrow> BroadcastMessage \<Rightarrow> written" where
  "listen_print env le a msg = (if ce_outputJSON env then printListenJSON le a msg else printListenText le a msg)"

section \<open>Command\<close>

text \<open>The listener, and the messages that the command has taken from it and printed.\<close>

record listen_state =
  lst_listener :: Listener
  lst_printed :: "BroadcastMessage list"


text \<open>
  The loop beside the goroutines of the listener: it takes a message and prints it. The other steps are
  those of the listener, which has no reader for time and location messages.
\<close>

inductive listen_step :: "listen_env \<Rightarrow> listen_state \<Rightarrow> listen_state \<Rightarrow> bool" for le :: listen_env where
  lst_print: "l_messageChan (lst_listener st) = m # ms \<Longrightarrow>
     listen_step le st \<lparr>lst_listener = (lst_listener st)\<lparr>l_messageChan := ms\<rparr>, lst_printed = lst_printed st @ [m]\<rparr>"
| lst_listen: "listener_step (le_dec le) (le_mac le) (le_marshal le) False False (lst_listener st) l' \<Longrightarrow>
     l_messageChan l' = l_messageChan (lst_listener st) @ new \<Longrightarrow>
     listen_step le st (st\<lparr>lst_listener := l'\<rparr>)"

inductive_cases listen_stepE: "listen_step le st st'"

definition listen_output :: "cli_env \<Rightarrow> listen_env \<Rightarrow> ListenArgs \<Rightarrow> listen_state \<Rightarrow> written" where
  "listen_output env le a st = concat (map (listen_print env le a) (lst_printed st))"

section \<open>Lemmas\<close>









section \<open>Properties\<close>









end
