(* ===== verification/Cli_Announce.thy ===== *)
theory Cli_Announce
  imports Cli_Client
begin

text \<open>
  The announce command as its user sees it (\<^verbatim>\<open>cmd/disco/commands/announce.go\<close>): the connection, the
  messages, failed writes and the interrupt. Without failed writes its datagrams are those of
  \<open>runAnnounce\<close>.
\<close>

section \<open>Output\<close>

definition createUDPConnection :: "net_env \<Rightarrow> (string + unit) \<Rightarrow> string \<Rightarrow> string + udp_addr" where
  "createUDPConnection env dial address =
     (case ne_resolve env address of
        Inl err \<Rightarrow> Inl (''error resolving address: '' @ err)
      | Inr addr \<Rightarrow>
          (case dial of Inl err \<Rightarrow> Inl (''error creating UDP connection: '' @ err) | Inr _ \<Rightarrow> Inr addr))"

text \<open>\<^verbatim>\<open>%v\<close> of a service: its fields in braces.\<close>

definition service_text :: "ServiceInfo \<Rightarrow> string" where
  "service_text svc = ''{'' @ si_Name svc @ '' '' @ itoa (si_Port svc) @ '' '' @ si_Addr svc @ '' '' @ slice_text (si_Aliases svc) @ ''}''"

definition printAnnounceInfo :: "AnnounceArgs \<Rightarrow> string list \<Rightarrow> ServiceInfo slice \<Rightarrow> written" where
  "printAnnounceInfo a ips services =
     print_line (''Announcing host: '' @ an_Hostname a)
     @ print_line (''Broadcast address: '' @ an_Addr a)
     @ print_line (''Interval: '' @ duration_text (an_Interval a))
     @ print_line (''Local IPs: '' @ slice_text ips)
     @ (if elems services \<noteq> [] then print_line (''Services: '' @ slice_text (map service_text (elems services))) else [])
     @ print_line []"

section \<open>Sending\<close>

text \<open>The network: the error of the n-th write, if any. A write that succeeds puts its datagram on the wire.\<close>

type_synonym writes = "nat \<Rightarrow> string \<Rightarrow> string option"

definition cli_sendAnnouncement :: "bool \<Rightarrow> writes \<Rightarrow> AnnounceArgs \<Rightarrow> string \<Rightarrow> nat \<Rightarrow> written \<times> string list" where
  "cli_sendAnnouncement tty net a data n =
     (case net n data of
        Some err \<Rightarrow> (PrintError tty (''['' @ itoa (int n) @ ''] Error sending: '' @ err @ nl), [])
      | None \<Rightarrow> (PrintSuccess tty (''['' @ itoa (int n) @ ''] Announced: '' @ an_Hostname a @ '' (''
                  @ itoa (int (length data)) @ '' bytes)'' @ nl), [data]))"

text \<open>
  The loop on its events, a tick of the timer or the interrupt: what is printed, what is on the wire, and
  whether the command has returned.
\<close>

datatype announce_event = Interrupt | AnnounceTick time

fun announce_loop :: "bool \<Rightarrow> writes \<Rightarrow> (json \<Rightarrow> string) \<Rightarrow> AnnounceArgs \<Rightarrow> nat \<Rightarrow> announce_event list \<Rightarrow> BroadcastMessage
    \<Rightarrow> written \<times> string list \<times> bool" where
  "announce_loop tty net marshal a announcements [] msg = ([], [], False)"
| "announce_loop tty net marshal a announcements (Interrupt # events) msg =
     (print_line (nl @ ''Received interrupt, stopping after '' @ itoa (int announcements) @ '' announcements.''), [], True)"
| "announce_loop tty net marshal a announcements (AnnounceTick now # events) msg =
     (if an_Count a > 0 \<and> int announcements \<ge> an_Count a
      then (print_line (nl @ ''Sent '' @ itoa (int announcements) @ '' announcements, stopping.''), [], True)
      else let msg1 = msg\<lparr>bm_Timestamp := unix_secs now, bm_MessageID := ''announce-'' @ itoa now\<rparr>;
               (out1, sent1) = cli_sendAnnouncement tty net a (marshal (json_BroadcastMessage msg1)) announcements;
               (out2, sent2, ended) = announce_loop tty net marshal a (Suc announcements) events msg1
           in (out1 @ out2, sent1 @ sent2, ended))"

text \<open>The command: an error, the panic of \<^verbatim>\<open>time.NewTicker\<close> (\<open>None\<close>), or the run of the loop.\<close>

definition announce_command :: "bool \<Rightarrow> net_env \<Rightarrow> marshaller \<Rightarrow> (string + unit) \<Rightarrow> writes \<Rightarrow> time \<Rightarrow> announce_event list
    \<Rightarrow> AnnounceArgs \<Rightarrow> (string + written \<times> string list \<times> bool) option" where
  "announce_command tty env marshal dial net now events a =
     (case validateAnnounceArgs a of
        Some err \<Rightarrow> Some (Inl err)
      | None \<Rightarrow>
          (case cli_getLocalIPs env of
             Inl err \<Rightarrow> Some (Inl (''error getting local IPs: '' @ err))
           | Inr ips \<Rightarrow>
               let services = buildServices a; msg = createBroadcastMessage now a ips services
               in (case marshal (json_BroadcastMessage msg) of
                     Inl err \<Rightarrow> Some (Inl (''error marshaling message: '' @ err))
                   | Inr data \<Rightarrow>
                       (case createUDPConnection env dial (an_Addr a) of
                          Inl err \<Rightarrow> Some (Inl err)
                        | Inr _ \<Rightarrow>
                            if an_Interval a \<le> 0 then None
                            else let (out1, sent1) = cli_sendAnnouncement tty net a data 0;
                                     (out2, sent2, ended) = announce_loop tty net (marshalled marshal) a 1 events msg
                                 in Some (Inr (printAnnounceInfo a ips services @ out1 @ out2, sent1 @ sent2, ended))))))"

section \<open>Lemmas\<close>

text \<open>The ticks before the first interrupt, and the data whose write succeeds, numbered from \<open>k\<close>.\<close>

fun ticks_of :: "announce_event list \<Rightarrow> time list" where
  "ticks_of (AnnounceTick now # events) = now # ticks_of events"
| "ticks_of _ = []"

definition on_wire :: "writes \<Rightarrow> nat \<Rightarrow> string list \<Rightarrow> string list" where
  "on_wire net k datas = map snd (filter (\<lambda>(i, data). net i data = None) (enumerate k datas))"

lemma on_wire_simps [simp]:
  "on_wire net k [] = []"
  "on_wire net k (data # datas) = (if net k data = None then [data] else []) @ on_wire net (Suc k) datas"
  by (simp_all add: on_wire_def)

lemma send_sent [simp]: "snd (cli_sendAnnouncement tty net a data n) = (if net n data = None then [data] else [])"
  by (simp add: cli_sendAnnouncement_def split: option.split)

lemma announce_loop_sent:
  "fst (snd (announce_loop tty net marshal a k events msg))
     = on_wire net k (announce_ticks marshal (an_Count a) (int k) (ticks_of events) msg)"
proof (induction events arbitrary: k msg)
  case (Cons e events)
  then show ?case by (cases e) (simp_all add: Let_def split_beta add.commute)
qed simp

lemma announce_loop_summary:
  assumes "announce_loop tty net marshal a k events msg = (out, sent, True)" and "Interrupt \<notin> set events" and "int k \<le> an_Count a \<or> an_Count a \<le> 0"
  shows "0 < an_Count a \<and> out \<noteq> [] \<and> last out = (Stdout, nl @ ''Sent '' @ itoa (an_Count a) @ '' announcements, stopping.'' @ nl)"
  using assms
proof (induction events arbitrary: k msg out sent)
  case (Cons e events)
  then obtain now where e: "e = AnnounceTick now" by (cases e) auto
  show ?case
  proof (cases "an_Count a > 0 \<and> int k \<ge> an_Count a")
    case True
    with Cons.prems e show ?thesis by (auto simp: print_line_def)
  next
    case False
    then obtain out2 sent2 where "announce_loop tty net marshal a (Suc k) events
        (msg\<lparr>bm_Timestamp := unix_secs now, bm_MessageID := ''announce-'' @ itoa now\<rparr>) = (out2, sent2, True)"
      and out: "\<exists>out1. out = out1 @ out2"
      using Cons.prems(1) e by (auto simp: Let_def split: prod.splits)
    from Cons.IH [OF this(1)] Cons.prems(2,3) False out show ?thesis by fastforce
  qed
qed simp

section \<open>Properties\<close>

text \<open>The command sends what its specification says: it fails and panics exactly as \<open>runAnnounce\<close> does, and the datagrams
  on the wire are the ones of \<open>runAnnounce\<close> for the ticks before the first interrupt, without those whose write failed.\<close>

theorem announce_command_refines:
  "map_option (map_sum id (\<lambda>(out, sent, ended). sent)) (announce_command tty env marshal dial net now events a)
   = map_option (map_sum id (on_wire net 0)) (runAnnounce env marshal dial now (ticks_of events) a)"
  by (simp add: announce_command_def runAnnounce_def createUDPConnection_def sendAnnouncements_def announce_loop_sent Let_def split_beta
      split: option.split sum.split)

text \<open>The summary counts attempts: a command that ends by itself reports that it sent the requested number of
  announcements, whatever the network did with them.\<close>

theorem announce_summary_counts_attempts:
  assumes "announce_command tty env marshal dial net now events a = Some (Inr (out, sent, True))" and "Interrupt \<notin> set events"
  shows "0 < an_Count a \<and> last out = (Stdout, nl @ ''Sent '' @ itoa (an_Count a) @ '' announcements, stopping.'' @ nl)"
proof -
  obtain msg pre1 pre2 out1 sent1 where l: "announce_loop tty net (marshalled marshal) a 1 events msg = (out1, sent1, True)"
    and out: "out = pre1 @ pre2 @ out1"
    using assms(1) by (auto simp: announce_command_def Let_def split: option.splits sum.splits if_splits prod.splits)
  have "int 1 \<le> an_Count a \<or> an_Count a \<le> 0" by linarith
  from announce_loop_summary [OF l assms(2) this] out show ?thesis by auto
qed

theorem announce_summary_counts_attempts_witness:
  "\<exists>out. announce_command False demo_env demo_marshal (Inr ()) (\<lambda>_ _. Some ''network is unreachable'') 0 [AnnounceTick 5]
       \<lparr>an_Addr = ''255.255.255.255:5354'', an_Hostname = ''a'', an_Interval = 5, an_Count = 1, an_Port = 0, an_Service = [], an_Aliases = []\<rparr>
       = Some (Inr (out, [], True))
     \<and> last out = (Stdout, nl @ ''Sent 1 announcements, stopping.'' @ nl)"
proof -
  let ?a = "\<lparr>an_Addr = ''255.255.255.255:5354'', an_Hostname = ''a'', an_Interval = 5, an_Count = 1, an_Port = 0, an_Service = [], an_Aliases = []\<rparr>"
  let ?net = "\<lambda>_ _. Some ''network is unreachable''"
  have v: "validateAnnounceArgs ?a = None" by code_simp
  have i: "itoa 1 = ''1''" by code_simp
  obtain ips where ips: "cli_getLocalIPs demo_env = Inr ips" by (simp add: cli_getLocalIPs_def demo_env_def Let_def)
  have "demo_marshal (json_BroadcastMessage m) = Inr ''hello''" for m by (simp add: demo_marshal_def)
  moreover obtain addr where "createUDPConnection demo_env (Inr ()) ''255.255.255.255:5354'' = Inr addr"
    by (simp add: createUDPConnection_def demo_env_def)
  ultimately obtain out where c: "announce_command False demo_env demo_marshal (Inr ()) ?net 0 [AnnounceTick 5] ?a = Some (Inr (out, [], True))"
    by (simp add: announce_command_def v ips cli_sendAnnouncement_def)
  from announce_summary_counts_attempts [OF c] have "last out = (Stdout, nl @ ''Sent '' @ itoa 1 @ '' announcements, stopping.'' @ nl)" by simp
  with c i show ?thesis by (intro exI [of _ out]) simp
qed

end
