(* ===== verification/Go_Flags.thy ===== *)
theory Go_Flags
  imports Cli_Output
begin

text \<open>
  Command line arguments as Go's \<^verbatim>\<open>flag\<close> package reads them for the two programs that use it
  (\<^verbatim>\<open>cmd/daemon/main.go\<close>, \<^verbatim>\<open>cmd/gps-broadcaster/main.go\<close>). A flag is a setter on the record
  of the program's variables; \<^verbatim>\<open>flag.Parse\<close> ends the program with status 2 on an error and with
  status 0 on a request for help that the program has no flag for.
\<close>

section \<open>Parsing\<close>

record 'a go_flag =
  gf_isBool :: bool
  gf_set :: "string \<Rightarrow> 'a \<Rightarrow> string + 'a"

datatype flag_error = ErrHelp | FlagError string

text \<open>The name and the value of \<^verbatim>\<open>name=value\<close>; the equals sign is not looked for at the first place.\<close>

definition split_flag :: "string \<Rightarrow> string \<times> string option" where
  "split_flag name =
     (let n = Suc (length (takeWhile (\<lambda>c. c \<noteq> CHR ''='') (tl name)))
      in if n < length name then (take n name, Some (drop (Suc n) name)) else (name, None))"

definition ParseBool :: "string \<Rightarrow> string + bool" where
  "ParseBool s =
     (if s \<in> {''1'', ''t'', ''T'', ''true'', ''TRUE'', ''True''} then Inr True
      else if s \<in> {''0'', ''f'', ''F'', ''false'', ''FALSE'', ''False''} then Inr False
      else Inl ''parse error'')"

text \<open>
  The value of a flag that needs one, from behind the equals sign or from the next argument; and what is
  set for a flag, with the error that a setter's error becomes.
\<close>

definition flag_value :: "string option \<Rightarrow> string list \<Rightarrow> (string \<times> string list) option" where
  "flag_value val args =
     (case val of
        Some x \<Rightarrow> Some (x, args)
      | None \<Rightarrow> (case args of [] \<Rightarrow> None | x # rest \<Rightarrow> Some (x, rest)))"

definition set_bool_flag :: "(string \<Rightarrow> string) \<Rightarrow> string \<Rightarrow> 'a go_flag \<Rightarrow> string option \<Rightarrow> 'a \<Rightarrow> flag_error + 'a" where
  "set_bool_flag quote name f val v =
     (case val of
        Some x \<Rightarrow> (case gf_set f x v of
          Inl err \<Rightarrow> Inl (FlagError (''invalid boolean value '' @ quote x @ '' for -'' @ name @ '': '' @ err)) | Inr v1 \<Rightarrow> Inr v1)
      | None \<Rightarrow> (case gf_set f ''true'' v of
          Inl err \<Rightarrow> Inl (FlagError (''invalid boolean flag '' @ name @ '': '' @ err)) | Inr v1 \<Rightarrow> Inr v1))"

definition set_flag :: "(string \<Rightarrow> string) \<Rightarrow> string \<Rightarrow> 'a go_flag \<Rightarrow> string \<Rightarrow> 'a \<Rightarrow> flag_error + 'a" where
  "set_flag quote name f x v =
     (case gf_set f x v of
        Inl err \<Rightarrow> Inl (FlagError (''invalid value '' @ quote x @ '' for flag -'' @ name @ '': '' @ err)) | Inr v1 \<Rightarrow> Inr v1)"

lemma flag_value_shorter [termination_simp]: "flag_value val args = Some (x, rest) \<Longrightarrow> length rest \<le> length args"
  by (auto simp: flag_value_def split: option.splits list.splits)

text \<open>\<^verbatim>\<open>FlagSet.Parse\<close>: the variables and the arguments left over, or the first error.\<close>

function parse_flags :: "(string \<Rightarrow> string) \<Rightarrow> (string \<rightharpoonup> 'a go_flag) \<Rightarrow> string list \<Rightarrow> 'a \<Rightarrow> flag_error + 'a \<times> string list" where
  "parse_flags quote flags [] v = Inr (v, [])"
| "parse_flags quote flags (s # args) v =
     (if length s < 2 \<or> s ! 0 \<noteq> CHR ''-'' then Inr (v, s # args)
      else if s = ''--'' then Inr (v, args)
      else let stripped = drop (if s ! 1 = CHR ''-'' then 2 else 1) s
      in if stripped ! 0 = CHR ''-'' \<or> stripped ! 0 = CHR ''='' then Inl (FlagError (''bad flag syntax: '' @ s))
      else case split_flag stripped of (name, val) \<Rightarrow>
        (case flags name of
           None \<Rightarrow> Inl (if name = ''help'' \<or> name = ''h'' then ErrHelp else FlagError (''flag provided but not defined: -'' @ name))
         | Some f \<Rightarrow>
             if gf_isBool f then
               (case set_bool_flag quote name f val v of Inl err \<Rightarrow> Inl err | Inr v1 \<Rightarrow> parse_flags quote flags args v1)
             else
               (case flag_value val args of
                  None \<Rightarrow> Inl (FlagError (''flag needs an argument: -'' @ name))
                | Some (x, rest) \<Rightarrow>
                    (case set_flag quote name f x v of Inl err \<Rightarrow> Inl err | Inr v1 \<Rightarrow> parse_flags quote flags rest v1))))"
  by pat_completeness auto

termination
  by (relation "measure (\<lambda>(quote, flags, args, v). length args)") (auto dest!: flag_value_shorter)

text \<open>The kinds of flags.\<close>

definition bool_flag :: "(bool \<Rightarrow> 'a \<Rightarrow> 'a) \<Rightarrow> 'a go_flag" where
  "bool_flag upd = \<lparr>gf_isBool = True, gf_set = (\<lambda>x v. case ParseBool x of Inl err \<Rightarrow> Inl err | Inr b \<Rightarrow> Inr (upd b v))\<rparr>"

definition string_flag :: "(string \<Rightarrow> 'a \<Rightarrow> 'a) \<Rightarrow> 'a go_flag" where
  "string_flag upd = \<lparr>gf_isBool = False, gf_set = (\<lambda>x v. Inr (upd x v))\<rparr>"

definition int_flag :: "(string \<Rightarrow> string + int) \<Rightarrow> (int \<Rightarrow> 'a \<Rightarrow> 'a) \<Rightarrow> 'a go_flag" where
  "int_flag parse_int upd = \<lparr>gf_isBool = False, gf_set = (\<lambda>x v. case parse_int x of Inl err \<Rightarrow> Inl err | Inr n \<Rightarrow> Inr (upd n v))\<rparr>"

text \<open>How \<^verbatim>\<open>flag.Parse\<close> ends the program on an error: the error if any, the usage text, the status.\<close>

definition flag_exit :: "string \<Rightarrow> flag_error \<Rightarrow> written \<times> int" where
  "flag_exit usage err =
     (case err of
        ErrHelp \<Rightarrow> ([(Stderr, usage)], 0)
      | FlagError msg \<Rightarrow> (print_err msg @ [(Stderr, usage)], 2))"

section \<open>Lemmas\<close>

lemma split_flag_plain:
  assumes "CHR ''='' \<notin> set name" shows "split_flag name = (name, None)"
proof -
  have "takeWhile (\<lambda>c. c \<noteq> CHR ''='') (tl name) = tl name" using assms by (subst takeWhile_eq_all_conv) (cases name; auto)
  then have "\<not> Suc (length (takeWhile (\<lambda>c. c \<noteq> CHR ''='') (tl name))) < length name"
    by (simp only: length_tl)
  then show ?thesis by (simp only: split_flag_def Let_def if_False)
qed

lemma set_flag_simps [simp]:
  "set_bool_flag quote name (bool_flag upd) None v = Inr (upd True v)"
  "set_flag quote name (string_flag upds) x v = Inr (upds x v)"
  "gf_isBool (bool_flag upd)" "\<not> gf_isBool (string_flag upds)" "\<not> gf_isBool (int_flag parse updi)"
  by (simp_all add: set_bool_flag_def set_flag_def bool_flag_def string_flag_def int_flag_def ParseBool_def)

end
