(* ===== verification/Startup.thy ===== *)
theory Startup
  imports Daemon Logging
begin

text \<open>
  The entry point of the daemon (\<^verbatim>\<open>cmd/daemon/main.go\<close>): from the configuration file to a
  running daemon, an exit with an error, or a panic; and what the validation of the configuration
  means for every later state. The flags are read in
  \<open>Daemon_Entry\<close>.
\<close>

section \<open>The entry point\<close>

datatype main_result = Exit int | Panicked | Running Daemon

record main_env =
  me_readFile :: "string \<Rightarrow> string + string"
  me_unmarshal :: "string \<Rightarrow> string + Config"
  me_openFile :: "string \<Rightarrow> string option"
  me_marshal :: "(string, string) gomap \<Rightarrow> string"
  me_timestamp :: string
  me_socket :: "string + unit"

definition log_warnings :: "main_env \<Rightarrow> ValidationWarning list \<Rightarrow> log_state \<Rightarrow> (sink \<times> string) list" where
  "log_warnings me warnings ls =
     concat (map (\<lambda>w. log_Warn (me_marshal me) (me_timestamp me) (vw_Message w) [(''field'', vw_Field w)] ls) warnings)"

definition daemon_main :: "node_env \<Rightarrow> new_env \<Rightarrow> main_env \<Rightarrow> time \<Rightarrow> time \<Rightarrow> string \<Rightarrow> (sink \<times> string) list \<times> main_result" where
  "daemon_main env ne me t0 t1 configPath =
     (case Load (me_readFile me) (me_unmarshal me) configPath of
        Inl err \<Rightarrow> ([(Stderr, ''Failed to load config: '' @ err)], Exit 1)
      | Inr loaded \<Rightarrow>
          (case Validate (SetDefaults loaded) of
             (_, Inl err) \<Rightarrow> ([(Stderr, ''Configuration validation failed: '' @ err)], Exit 1)
           | (cfg, Inr warnings) \<Rightarrow>
               (case setupLogging (me_openFile me) cfg log_init of
                  (_, Some err) \<Rightarrow> ([(Stderr, ''Failed to setup logging: '' @ err)], Exit 1)
                | (ls, None) \<Rightarrow>
                    let out = log_warnings me warnings ls;
                        failed = (\<lambda>msg err. (out @ log_Error (me_marshal me) (me_timestamp me) msg (Some err) [] ls, Exit 1))
                    in case New ne t0 cfg of
                         Inl err \<Rightarrow> failed ''Failed to create daemon'' err
                       | Inr d \<Rightarrow>
                           (case Run env (me_socket me) t1 d of
                              None \<Rightarrow> (out, Panicked)
                            | Some (Inl err) \<Rightarrow> failed ''Daemon error'' err
                            | Some (Inr d') \<Rightarrow> (out, Running d')))))"

section \<open>The configuration of a running daemon\<close>

text \<open>The configuration is valid and the time service has its section of it.\<close>

definition configured :: "Daemon \<Rightarrow> bool" where
  "configured d \<longleftrightarrow> config_ok (d_config d)
     \<and> (\<forall>ts. sv_timeSync d = Some ts \<longrightarrow> tsv_config ts = c_TimeSync (d_config d) \<and> tsc_Enabled (c_TimeSync (d_config d)))"

lemma New_config:
  assumes "New ne t cfg = Inr d"
  shows "d_config d = cfg" and "sv_timeSync d = Some ts \<Longrightarrow> tsv_config ts = c_TimeSync cfg \<and> tsc_Enabled (c_TimeSync cfg)"
    and "sv_timeSync d = None \<longleftrightarrow> \<not> tsc_Enabled (c_TimeSync cfg)"
  using assms by (auto simp: New_def NewTimeSyncService_def split: sum.splits prod.splits if_splits)

lemma config_frame [simp]:
  "sv_timeSync (fst (daemon_LocalIPs env now d)) = sv_timeSync d"
  "sv_timeSync (fst (announce_to_network env now n p as d)) = sv_timeSync d"
  "d_config (selfRegister env now d) = d_config d" "sv_timeSync (selfRegister env now d) = sv_timeSync d"
  "d_config (fst (AnnounceService env now n p as d)) = d_config d"
  "sv_timeSync (fst (AnnounceService env now n p as d)) = sv_timeSync d"
  "d_config (update_announcements d) = d_config d" "sv_timeSync (update_announcements d) = sv_timeSync d"
  "d_config (handleDiscoveryMessage now m d) = d_config d" "sv_timeSync (handleDiscoveryMessage now m d) = sv_timeSync d"
  by (simp_all add: daemon_LocalIPs_def announce_to_network_def selfRegister_def AnnounceService_def update_announcements_def
      handleDiscoveryMessage_def split_beta Let_def split: option.splits)

lemma Run_config:
  assumes "Run env sock now d = Some (Inr d')"
  shows "d_config d' = d_config d" and "sv_timeSync d' = sv_timeSync d"
  using assms by (auto simp: Run_def Let_def split: if_splits sum.splits)

lemma handleQuery_config:
  assumes "handleQuery senv (Some (AnnounceService env t)) now query d = Some (d', rsp)"
  shows "d_config d' = d_config d"
    and "map_option tsv_config (sv_timeSync d') = map_option tsv_config (sv_timeSync d)"
proof -
  have ann: "d_config (fst (handleServiceAnnounce (Some (AnnounceService env t)) query d)) = d_config d"
    "sv_timeSync (fst (handleServiceAnnounce (Some (AnnounceService env t)) query d)) = sv_timeSync d"
    using config_frame(5,6) [of env t "q_Name query" "q_Port query" "q_Aliases query" d]
    by (cases "AnnounceService env t (q_Name query) (q_Port query) (q_Aliases query) d",
        auto simp: handleServiceAnnounce_def split: option.splits)+
  have "d_config d' = d_config d \<and> map_option tsv_config (sv_timeSync d') = map_option tsv_config (sv_timeSync d)"
  proof (cases "q_Type query = ServiceAnnounce")
    case True
    then have "handleServiceAnnounce (Some (AnnounceService env t)) query d = (d', rsp)"
      using assms by (simp add: handleQuery_def Let_def)
    with ann show ?thesis by simp
  next
    case False
    with assms show ?thesis
      by (auto simp: handleQuery_def handleTimeForceUpdate_def handleHostsList_def handleHostsShow_def handleHostsForget_def
          handleHostsMarkLost_def handleServicesList_def handleServicesShow_def Let_def split_beta
          dest: tsv_config_frame(3) split: if_splits option.splits sum.splits)
  qed
  then show "d_config d' = d_config d" "map_option tsv_config (sv_timeSync d') = map_option tsv_config (sv_timeSync d)"
    by auto
qed

lemma daemon_step_config:
  assumes "daemon_step env d d'"
  shows "d_config d' = d_config d \<and> map_option tsv_config (sv_timeSync d') = map_option tsv_config (sv_timeSync d)"
  using assms
proof cases
  case (d_query now query rsp)
  from handleQuery_config [OF d_query] show ?thesis by simp
qed (auto simp: tsv_config_frame(1) dest: tsv_config_frame(2))

lemma configured_step: "configured d \<Longrightarrow> daemon_step env d d' \<Longrightarrow> configured d'"
  by (drule daemon_step_config) (cases "sv_timeSync d"; auto simp: configured_def)

text \<open>A run of the daemon: it starts in the state that \<^verbatim>\<open>main\<close> hands over and is configured throughout.\<close>

definition main_runs :: "node_env \<Rightarrow> Daemon \<Rightarrow> bool" where
  "main_runs env d \<longleftrightarrow> (\<exists>ne me t0 t1 path out. daemon_main env ne me t0 t1 path = (out, Running d))"

lemma main_RunningE:
  assumes "daemon_main env ne me t0 t1 path = (out, Running d)"
  obtains loaded cfg warnings d0 where "Load (me_readFile me) (me_unmarshal me) path = Inr loaded"
    "Validate (SetDefaults loaded) = (cfg, Inr warnings)" "New ne t0 cfg = Inr d0" "Run env (me_socket me) t1 d0 = Some (Inr d)"
  using assms by (auto simp: daemon_main_def Let_def split: sum.splits prod.splits option.splits)

interpretation started: transition_system "main_runs env" "daemon_step env" configured for env
proof
  fix d assume "main_runs env d"
  then obtain ne me t0 t1 path out where "daemon_main env ne me t0 t1 path = (out, Running d)" by (auto simp: main_runs_def)
  then obtain loaded cfg warnings d0 where v: "Validate (SetDefaults loaded) = (cfg, Inr warnings)"
    and n: "New ne t0 cfg = Inr d0" and r: "Run env (me_socket me) t1 d0 = Some (Inr d)"
    by (elim main_RunningE)
  show "configured d"
    unfolding configured_def Run_config [OF r] New_config(1) [OF n] using Validate_ok [OF v] New_config(2) [OF n] by blast
qed (rule configured_step)

section \<open>Properties\<close>

text \<open>C6: A daemon that has started cannot be brought down by time sources or by requests: in every state that it can
  reach, its configuration is still the validated one, every poll of the time service returns, whatever sources are
  stored, and every query on the socket is answered with a response.\<close>

theorem started_daemon_keeps_serving:
  assumes "daemon_main env ne me t0 t1 path = (out, Running d0)" and "(daemon_step env)\<^sup>*\<^sup>* d0 d"
    and "slice_sorter (se_sort (nv_sock env))"
  shows "config_ok (d_config d)
    \<and> (\<forall>ts now. sv_timeSync d = Some ts \<longrightarrow>
         evaluateAndAdjust (se_sort (nv_sock env)) (se_kernel (nv_sock env)) now ts \<noteq> None)
    \<and> (\<forall>query now. handleQuery (nv_sock env) (Some (AnnounceService env now)) now query d \<noteq> None)"
proof -
  have "main_runs env d0" using assms(1) unfolding main_runs_def by blast
  then have c: "configured d" using started.steps_inv [OF started.inv_init assms(2)] by blast
  then have "1 \<le> tsc_MinSources (tsv_config ts)" if "sv_timeSync d = Some ts" for ts
    using that by (auto simp: configured_def config_ok_def)
  then have "\<And>ts now. sv_timeSync d = Some ts \<Longrightarrow> evaluateAndAdjust (se_sort (nv_sock env)) (se_kernel (nv_sock env)) now ts \<noteq> None"
    and "case sv_timeSync d of None \<Rightarrow> True | Some ts \<Rightarrow> 1 \<le> tsc_MinSources (tsv_config ts)"
    using poll_total [OF assms(3)] by (blast, simp split: option.split)
  with c handleQuery_total [OF assms(3), of d] show ?thesis unfolding configured_def by blast
qed

text \<open>C33: Exactly when a start ends in a panic: for a configuration that loads and passes the validation, and a daemon
  that can be created from it, the start panics if and only if time synchronisation is enabled without discovery or
  with a negative poll interval, or the cleanup interval is negative. The validation rejects none of these.\<close>

theorem startup_panics_exactly:
  assumes "Load (me_readFile me) (me_unmarshal me) path = Inr loaded"
    and "Validate (SetDefaults loaded) = (cfg, Inr warnings)"
    and "snd (setupLogging (me_openFile me) cfg log_init) = None" and "New ne t0 cfg = Inr d"
  shows "snd (daemon_main env ne me t0 t1 path) = Panicked \<longleftrightarrow>
    tsc_Enabled (c_TimeSync cfg) \<and> (\<not> disc_Enabled (c_Discovery cfg) \<or> tsc_PollInterval (c_TimeSync cfg) < 0)
    \<or> hc_CleanupInterval (c_Health cfg) < 0"
proof -
  have ok: "config_ok cfg" by (rule Validate_ok [OF assms(2)])
  have l: "d_listener d = None \<longleftrightarrow> \<not> disc_Enabled (c_Discovery cfg)"
    and a: "\<And>a. d_announcer d = Some a \<Longrightarrow> a_interval a = dc_BroadcastInterval (c_Daemon cfg)"
    and dt: "\<And>dt. d_detector d = Some dt \<Longrightarrow> disc_Enabled (c_Discovery cfg) \<and> dt_interval dt = disc_ScanInterval (c_Discovery cfg)"
    using assms(4) by (auto simp: New_def new_discovery_def NewAnnouncer_def NewDetector_def
        split: sum.splits prod.splits if_splits option.splits)
  have "(case d_announcer d of None \<Rightarrow> False | Some a \<Rightarrow> ticker_panics (a_interval a)) = False"
    using a ok by (auto simp: ticker_panics_def config_ok_def split: option.splits)
  moreover have "(case d_detector d of None \<Rightarrow> False | Some dt \<Rightarrow> ticker_panics (dt_interval dt)) = False"
    using dt ok by (auto simp: ticker_panics_def config_ok_def split: option.splits)
  moreover have "(case sv_timeSync d of None \<Rightarrow> False | Some ts \<Rightarrow> ticker_panics (tsc_PollInterval (tsv_config ts)) \<or> d_listener d = None)
      \<longleftrightarrow> tsc_Enabled (c_TimeSync cfg) \<and> (\<not> disc_Enabled (c_Discovery cfg) \<or> tsc_PollInterval (c_TimeSync cfg) \<le> 0)"
    using New_config(2,3) [OF assms(4)] l by (cases "sv_timeSync d") (auto simp: ticker_panics_def)
  moreover have "ticker_panics (cleanup_interval (ht_config (rs_healthTracker (sv_store d)))) \<longleftrightarrow> hc_CleanupInterval (c_Health cfg) < 0"
    by (auto simp: New_store [OF assms(4)] NewRecordStore_def NewHealthTracker_def Let_def ticker_panics_def cleanup_interval_def)
  ultimately have "start_panics d \<longleftrightarrow> tsc_Enabled (c_TimeSync cfg) \<and> (\<not> disc_Enabled (c_Discovery cfg) \<or> tsc_PollInterval (c_TimeSync cfg) \<le> 0)
      \<or> hc_CleanupInterval (c_Health cfg) < 0"
    unfolding start_panics_def by argo
  moreover have "tsc_PollInterval (c_TimeSync cfg) \<noteq> 0"
    using validateSecurity_frame [OF Validate_Inr(4) [OF assms(2)]] by (simp add: SetDefaults_defs or_default_def)
  moreover have "snd (daemon_main env ne me t0 t1 path) = Panicked \<longleftrightarrow> start_panics d"
    using assms by (auto simp: daemon_main_def Run_def Let_def split: sum.splits prod.splits option.splits if_splits)
  ultimately show ?thesis by auto
qed

text \<open>A configuration with discovery, signatures and time synchronisation, read from a file.\<close>

definition demo_loaded :: Config where
  "demo_loaded = demo_config\<lparr>
     c_Discovery := (c_Discovery demo_config)\<lparr>disc_Enabled := True, disc_ServicePortMapping := [(''http'', [80])]\<rparr>,
     c_TimeSync := (c_TimeSync demo_config)\<lparr>tsc_Enabled := True\<rparr>\<rparr>"

definition demo_main_env :: "Config \<Rightarrow> main_env" where
  "demo_main_env cfg = \<lparr>me_readFile = (\<lambda>_. Inr ''yaml''), me_unmarshal = (\<lambda>_. Inr cfg), me_openFile = (\<lambda>_. None),
     me_marshal = concat \<circ> map snd, me_timestamp = ''now'', me_socket = Inr ()\<rparr>"

lemma demo_main_runs:
  "\<exists>d. snd (daemon_main demo_node demo_new_env (demo_main_env demo_loaded) 0 0 ''c'') = Running d"
proof -
  have "case snd (daemon_main demo_node demo_new_env (demo_main_env demo_loaded) 0 0 ''c'') of Running d \<Rightarrow> True | _ \<Rightarrow> False"
    by code_simp
  then show ?thesis by (auto split: main_result.splits)
qed

theorem started_daemon_keeps_serving_witness:
  "\<exists>out d. daemon_main demo_node demo_new_env (demo_main_env demo_loaded) 0 0 ''c'' = (out, Running d)
     \<and> config_ok (d_config d) \<and> handleQuery (nv_sock demo_node) (Some (AnnounceService demo_node 0)) 0 zero_Query d \<noteq> None"
proof -
  obtain out d where m: "daemon_main demo_node demo_new_env (demo_main_env demo_loaded) 0 0 ''c'' = (out, Running d)"
    using demo_main_runs by (metis prod.collapse)
  have "slice_sorter (se_sort (nv_sock demo_node))"
    by (simp add: demo_node_def demo_sock_env_def insertion.slice_sorter_axioms)
  from started_daemon_keeps_serving [OF m _ this, of d] m show ?thesis by blast
qed

theorem startup_panics_exactly_witness:
  "(let cfg = demo_loaded\<lparr>c_Discovery := (c_Discovery demo_loaded)\<lparr>disc_Enabled := False\<rparr>\<rparr>
    in snd (daemon_main demo_node demo_new_env (demo_main_env cfg) 0 0 ''c'') = Panicked)"
proof -
  define c0 where "c0 = demo_loaded\<lparr>c_Discovery := (c_Discovery demo_loaded)\<lparr>disc_Enabled := False\<rparr>\<rparr>"
  define cfg where "cfg = fst (Validate (SetDefaults c0))"
  have "\<not> isl (snd (Validate (SetDefaults c0)))" unfolding c0_def by code_simp
  then obtain w where v: "Validate (SetDefaults c0) = (cfg, Inr w)"
    by (cases "Validate (SetDefaults c0)"; cases "snd (Validate (SetDefaults c0))") (auto simp: cfg_def)
  have "\<not> isl (New demo_new_env 0 cfg)" unfolding cfg_def c0_def by code_simp
  then obtain d where n: "New demo_new_env 0 cfg = Inr d" by (cases "New demo_new_env 0 cfg") auto
  have l: "snd (setupLogging (me_openFile (demo_main_env c0)) cfg log_init) = None"
    unfolding cfg_def c0_def by code_simp
  have "tsc_Enabled (c_TimeSync cfg) \<and> \<not> disc_Enabled (c_Discovery cfg)" unfolding cfg_def c0_def by code_simp
  moreover have "Load (me_readFile (demo_main_env c0)) (me_unmarshal (demo_main_env c0)) ''c'' = Inr c0"
    by (simp add: Load_def demo_main_env_def)
  ultimately show ?thesis
    using startup_panics_exactly [OF _ v l n, of "''c''" demo_node 0] by (simp add: c0_def Let_def)
qed

end
