(* ===== verification/Cli_Admin.thy ===== *)
theory Cli_Admin
  imports Cli_Client Startup
begin

text \<open>
  The commands that work without the daemon: keys (\<^verbatim>\<open>cmd/disco/commands/key.go\<close>), the validation
  of a configuration file (\<^verbatim>\<open>config.go\<close>) and the start of the daemon (\<^verbatim>\<open>start.go\<close>).
\<close>

section \<open>Keys\<close>

definition DefaultKeysPath :: string where "DefaultKeysPath = ''/etc/disco/keys.json''"

text \<open>The codec of the key files and the error of a write, if any.\<close>

record key_env =
  kv_marshal :: "Keys \<Rightarrow> string + string"
  kv_unmarshal :: "string \<Rightarrow> string + Keys"
  kv_werr :: "string option"

definition key_path :: "string list \<Rightarrow> string" where
  "key_path args = (case args of [] \<Rightarrow> DefaultKeysPath | p # _ \<Rightarrow> p)"

definition cmd_generateKeys :: "key_env \<Rightarrow> read_result \<Rightarrow> read_result \<Rightarrow> string list \<Rightarrow> files \<Rightarrow> files outcome" where
  "cmd_generateKeys kv rnd1 rnd2 args fs =
     (let keyPath = key_path args
      in case Generate rnd1 rnd2 of
           Inl err \<Rightarrow> (fs, checkError (''failed to generate keys: '' @ err))
         | Inr k \<Rightarrow>
             (case Keys_Save (kv_marshal kv) (kv_werr kv) keyPath k fs of
                Inl err \<Rightarrow> (fs, checkError (''failed to save keys: '' @ err))
              | Inr fs1 \<Rightarrow>
                  (fs1, print_line (''Keys generated and saved to '' @ keyPath)
                        @ print_line (''Public Key: '' @ k_PublicKey k)
                        @ print_line (''Private Key: '' @ k_PrivateKey k)
                        @ print_line []
                        @ print_line ''Share the public key with peers you want to trust.''
                        @ print_line ''Keep the private key secret!'', 0)))"

fun numbered :: "int \<Rightarrow> string list \<Rightarrow> written" where
  "numbered i [] = []"
| "numbered i (pubKey # ks) = print_line (''  '' @ itoa i @ '': '' @ pubKey) @ numbered (i + 1) ks"

definition showKeys :: "key_env \<Rightarrow> string list \<Rightarrow> files \<Rightarrow> files outcome" where
  "showKeys kv args fs =
     (case Keys_Load (fs_read fs) (kv_unmarshal kv) (key_path args) of
        Inl err \<Rightarrow> (fs, checkError (''failed to load keys: '' @ err))
      | Inr k \<Rightarrow>
          (fs, print_line ''Public Key:'' @ print_line (k_PublicKey k) @ print_line []
               @ print_line ''Private Key:'' @ print_line (k_PrivateKey k) @ print_line []
               @ print_line (''Trusted Peers ('' @ itoa (int (length (k_PublicKeys k))) @ ''):'')
               @ numbered 1 (k_PublicKeys k), 0))"


section \<open>Configuration file\<close>


text \<open>The file system as the path check sees it.\<close>

record path_env =
  pe_abs :: "string \<Rightarrow> string + string"
  pe_stat :: "string \<Rightarrow> string + bool \<times> int"

definition config_path_error :: "path_env \<Rightarrow> string \<Rightarrow> written \<times> string option" where
  "config_path_error pe path =
     (case ValidateConfigPath (pe_abs pe) (pe_stat pe) path of
        (err, warn) \<Rightarrow> (if warn then print_err ''Warning: Config file is world-writable'' else [], err))"




section \<open>Start of the daemon\<close>

definition allowedDaemonFlags :: "string list" where
  "allowedDaemonFlags = [''-config'', ''-v'', ''-verbose'', ''-help'', ''--help'']"

definition disallowed_flag :: "string \<Rightarrow> written \<times> int" where
  "disallowed_flag flag =
     (cli_Error (''disallowed flag: '' @ flag) None
      @ print_err (nl @ ''Allowed flags:'')
      @ print_err ''  -config <path>   Path to configuration file''
      @ print_err ''  -v, -verbose     Enable verbose logging''
      @ print_err ''  -help            Show daemon help'', 1)"

text \<open>The loop over the arguments: what ends the command, or the warnings and the arguments passed on.\<close>

fun start_args :: "path_env \<Rightarrow> string list \<Rightarrow> string list \<Rightarrow> written \<Rightarrow> (written \<times> int) + written \<times> string list" where
  "start_args pe [] validatedArgs out = Inr (out, validatedArgs)"
| "start_args pe (flag # rest) validatedArgs out =
     (if flag \<notin> set allowedDaemonFlags then Inl (apfst ((@) out) (disallowed_flag flag))
      else if flag = ''-config'' then
        (case rest of
           [] \<Rightarrow> Inr (out, validatedArgs @ [flag])
         | configPath # rest' \<Rightarrow>
             (case config_path_error pe configPath of
                (warn, Some err) \<Rightarrow> Inl (apfst ((@) (out @ warn)) (checkError (''invalid config path: '' @ err)))
              | (warn, None) \<Rightarrow> start_args pe rest' (validatedArgs @ [flag, configPath]) (out @ warn)))
      else start_args pe rest (validatedArgs @ [flag]) out)"

text \<open>
  The daemon binary beside the executable, whose path is absolute; \<open>exists\<close> is false only if
  \<^verbatim>\<open>os.Stat\<close> reports that the file does not exist.
\<close>

definition daemon_path :: "string + string \<Rightarrow> (string \<Rightarrow> bool) \<Rightarrow> string" where
  "daemon_path executable exists =
     (case executable of
        Inl _ \<Rightarrow> ''disco-daemon''
      | Inr execPath \<Rightarrow>
          let sibling = (case last_index_byte execPath CHR ''/'' of None \<Rightarrow> [] | Some i \<Rightarrow> take (Suc i) execPath) @ ''disco-daemon''
          in if exists sibling then sibling else ''disco-daemon'')"

text \<open>How the child process ended: successfully, with an exit status, or it could not be run.\<close>

datatype run_result = RunOk | RunExited int | RunFailed string

definition startDaemon :: "path_env \<Rightarrow> string + string \<Rightarrow> (string \<Rightarrow> bool) \<Rightarrow> (string \<Rightarrow> string list \<Rightarrow> run_result)
    \<Rightarrow> string list \<Rightarrow> written \<times> int" where
  "startDaemon pe executable exists run args =
     (case start_args pe args [] [] of
        Inl ended \<Rightarrow> ended
      | Inr (out, validatedArgs) \<Rightarrow>
          (case run (daemon_path executable exists) validatedArgs of
             RunOk \<Rightarrow> (out, 0)
           | RunExited status \<Rightarrow> (out, status)
           | RunFailed err \<Rightarrow> apfst ((@) out) (checkError err)))"

section \<open>Lemmas\<close>



lemma start_args_app:
  "start_args pe args acc out = Inr (out', va) \<Longrightarrow> va = acc @ args
     \<and> (\<forall>i < length args. args ! i \<in> set allowedDaemonFlags
          \<or> (0 < i \<and> args ! (i - 1) = ''-config'' \<and> snd (config_path_error pe (args ! i)) = None))"
proof (induction pe args acc out rule: start_args.induct)
  case (2 pe flag rest acc out)
  show ?case
  proof (cases "flag = ''-config'' \<and> rest \<noteq> []")
    case True
    then obtain p rest' warn where r: "rest = p # rest'" "config_path_error pe p = (warn, None)"
      and s: "start_args pe rest' (acc @ [flag, p]) (out @ warn) = Inr (out', va)"
      using "2.prems" by (cases rest) (auto split: if_splits prod.splits option.splits)
    have ok: "flag \<in> set allowedDaemonFlags" using "2.prems" by (simp split: if_splits)
    have ih: "va = (acc @ [flag, p]) @ rest' \<and> (\<forall>i < length rest'. rest' ! i \<in> set allowedDaemonFlags
          \<or> (0 < i \<and> rest' ! (i - 1) = ''-config'' \<and> snd (config_path_error pe (rest' ! i)) = None))"
      using "2.IH"(1) [OF _ _ r(1) r(2) [symmetric] _ s] True ok by simp
    then show ?thesis using True r ok by (auto simp: nth_Cons split: nat.splits)
  next
    case False
    then show ?thesis using "2.prems" "2.IH"(2) by (auto simp: nth_Cons split: if_splits nat.splits list.splits)
  qed
qed simp

lemma start_args_fails: "start_args pe args acc out = Inl e \<Longrightarrow> snd e = 1"
proof (induction pe args acc out rule: start_args.induct)
  case (2 pe flag rest acc out)
  consider "flag \<notin> set allowedDaemonFlags" | "flag \<in> set allowedDaemonFlags" "flag = ''-config''"
    | "flag \<in> set allowedDaemonFlags" "flag \<noteq> ''-config''" by blast
  then show ?case
  proof cases
    case 1
    with "2.prems" show ?thesis by (auto simp: disallowed_flag_def)
  next
    case 2
    then obtain p rest' where r: "rest = p # rest'" using "2.prems" by (cases rest) simp_all
    obtain warn err where c: "config_path_error pe p = (warn, err)" by (cases "config_path_error pe p")
    show ?thesis
    proof (cases err)
      case None
      with "2.prems" 2 r c "2.IH"(1) [OF _ _ r c [symmetric]] show ?thesis by simp
    next
      case (Some x)
      with "2.prems" 2 r c show ?thesis by (auto simp: checkError_def)
    qed
  next
    case 3
    with "2.prems" "2.IH"(2) show ?thesis by simp
  qed
qed simp


section \<open>Properties\<close>









text \<open>The start command hands over nothing that it did not allow: if the daemon is run at all, it gets exactly the
  arguments of the command, and each of them is one of the five allowed flags or stands right after
  \<^verbatim>\<open>-config\<close> and passed the path check. Otherwise the command exits with 1, whatever a run would do.\<close>

theorem start_passes_only_allowed:
  assumes "startDaemon pe executable exists run args = (written, code)"
    and "code \<noteq> 1"
  shows "(\<forall>i < length args. args ! i \<in> {''-config'', ''-v'', ''-verbose'', ''-help'', ''--help''}
        \<or> (0 < i \<and> args ! (i - 1) = ''-config'' \<and> fst (ValidateConfigPath (pe_abs pe) (pe_stat pe) (args ! i)) = None))
    \<and> (run (daemon_path executable exists) args = RunOk \<and> code = 0 \<or> run (daemon_path executable exists) args = RunExited code)"
proof -
  have flags: "set allowedDaemonFlags = {''-config'', ''-v'', ''-verbose'', ''-help'', ''--help''}"
    by (simp only: allowedDaemonFlags_def list.set)
  have path: "snd (config_path_error pe p) = fst (ValidateConfigPath (pe_abs pe) (pe_stat pe) p)" for p
    by (simp add: config_path_error_def split: prod.split)
  obtain out va where s: "start_args pe args [] [] = Inr (out, va)"
  proof (cases "start_args pe args [] []")
    case (Inl e)
    with assms start_args_fails [OF Inl] show ?thesis by (simp add: startDaemon_def)
  qed auto
  note app = start_args_app [OF s, unfolded flags path append_Nil]
  moreover have "run (daemon_path executable exists) args = RunOk \<and> code = 0 \<or> run (daemon_path executable exists) args = RunExited code"
    using assms s conjunct1 [OF app] by (cases "run (daemon_path executable exists) args") (simp_all add: startDaemon_def checkError_def)
  ultimately show ?thesis by (rule conjI [OF conjunct2])
qed

theorem start_passes_only_allowed_witness:
  "startDaemon \<lparr>pe_abs = Inr, pe_stat = (\<lambda>_. Inr (True, 420))\<rparr> (Inr ''/usr/bin/disco'') (\<lambda>p. True)
       (\<lambda>p as. if p = ''/usr/bin/disco-daemon'' \<and> as = [''-config'', ''/c''] then RunOk else RunFailed []) [''-config'', ''/c''] = ([], 0)"
proof -
  let ?pe = "\<lparr>pe_abs = Inr, pe_stat = (\<lambda>_. Inr (True, 420))\<rparr>"
  let ?run = "\<lambda>p as. if p = ''/usr/bin/disco-daemon'' \<and> as = [''-config'', ''/c''] then RunOk else RunFailed []"
  have d: "daemon_path (Inr ''/usr/bin/disco'') (\<lambda>p. True) = ''/usr/bin/disco-daemon''" by code_simp
  have r: "startDaemon ?pe (Inr ''/usr/bin/disco'') (\<lambda>p. True) ?run [''-config'', ''/c''] = ([], 0)"
    by (simp add: startDaemon_def d config_path_error_def ValidateConfigPath_def allowedDaemonFlags_def)
  have "?run (daemon_path (Inr ''/usr/bin/disco'') (\<lambda>p. True)) [''-config'', ''/c''] = RunOk"
    using conjunct2 [OF start_passes_only_allowed [OF r]] by (simp add: d)
  with r show ?thesis by blast
qed

end
