(* ===== verification/Daemon_Entry.thy ===== *)
theory Daemon_Entry
  imports Go_Flags Cli_Admin
begin

text \<open>
  The flags of the daemon (\<^verbatim>\<open>cmd/daemon/main.go\<close>) in front of \<open>daemon_main\<close>, and the daemon as
  the process that \<^verbatim>\<open>disco start\<close> runs. Each line that is printed is one piece of the output.
\<close>

section \<open>Flags\<close>

record daemon_flags =
  dfl_configPath :: string
  dfl_showVersion :: bool
  dfl_help :: bool

definition default_flags :: daemon_flags where
  "default_flags = \<lparr>dfl_configPath = ''/etc/disco/config.yaml'', dfl_showVersion = False, dfl_help = False\<rparr>"

definition daemon_flag_set :: "string \<rightharpoonup> daemon_flags go_flag" where
  "daemon_flag_set = map_of [(''config'', string_flag (\<lambda>x v. v\<lparr>dfl_configPath := x\<rparr>)),
     (''version'', bool_flag (\<lambda>b v. v\<lparr>dfl_showVersion := b\<rparr>)),
     (''help'', bool_flag (\<lambda>b v. v\<lparr>dfl_help := b\<rparr>)), (''h'', bool_flag (\<lambda>b v. v\<lparr>dfl_help := b\<rparr>))]"

section \<open>Help and version\<close>

text \<open>The bullet of the list of reasons, in UTF-8.\<close>

abbreviation bullet :: string where "bullet \<equiv> [CHR 0xE2, CHR 0x80, CHR 0xA2]"

definition printHelp :: written where
  "printHelp = concat (map print_line
     [''Disco - Service Discovery Daemon for offline networks'',
      [],
      ''WHAT:'',
      ''  Disco provides automatic host and service discovery via UDP broadcast.'',
      ''  It integrates with glibc via NSS module for seamless name resolution.'',
      ''  No DNS server required - perfect for airgapped emergency networks.'',
      [],
      ''WHY:'',
      ''  '' @ bullet @ '' Works without DNS servers or resolv.conf'',
      ''  '' @ bullet @ '' Automatic node discovery - zero configuration'',
      ''  '' @ bullet @ '' Service detection (www, smtp, ssh, etc.)'',
      ''  '' @ bullet @ '' Time synchronization via GPS broadcasters'',
      ''  '' @ bullet @ '' Minimal resource footprint (<20MB RAM)'',
      ''  '' @ bullet @ '' Runs on embedded systems (Raspberry Pi)'',
      [],
      ''USAGE:'',
      ''  disco-daemon [options]'',
      [],
      ''OPTIONS:'',
      ''  --config PATH   Path to configuration file'',
      ''                   (default: /etc/disco/config.yaml)'',
      ''  --version       Show version and exit'',
      ''  --help, -h      Show this help message'',
      [],
      ''EXAMPLES:'',
      ''  disco-daemon'',
      ''  disco-daemon --config /custom/config.yaml'',
      [],
      ''CLIENT TOOL:'',
      ''  disco hosts         List and manage discovered hosts'',
      ''  disco services      List discovered services'',
      ''  disco lookup        Look up a hostname'',
      ''  disco status        Show daemon status'',
      ''  disco time          Show time synchronization status'',
      ''  disco timeset       Force time synchronization'',
      ''  disco key           Manage security keys'',
      ''  disco config        Validate configuration files'',
      [],
      ''For more information, visit: https://github.com/offline-lab/disco''])"

text \<open>The version, commit and build time set by the linker, and the Go version, compiler, system and architecture.\<close>

record build_env =
  be_Version :: string
  be_Commit :: string
  be_BuildTime :: string
  be_runtime :: "string \<times> string \<times> string \<times> string"

definition buildInfo :: "build_env \<Rightarrow> string" where
  "buildInfo be = (case be_runtime be of (ver, compiler, goos, goarch) \<Rightarrow>
     ''Go '' @ ver @ ''/'' @ compiler @ '', '' @ goos @ '', '' @ goarch)"

definition print_version :: "build_env \<Rightarrow> written" where
  "print_version be =
     print_line (''disco-daemon '' @ be_Version be)
     @ print_line (''  Commit:    '' @ be_Commit be)
     @ print_line (''  Built:     '' @ be_BuildTime be)
     @ print_line (''  Platform:  '' @ buildInfo be)"

section \<open>The program\<close>

text \<open>\<^verbatim>\<open>main\<close> with its arguments; \<open>quote\<close> is \<^verbatim>\<open>strconv.Quote\<close>, \<open>usage\<close> the text of the flag package.\<close>

definition daemon_program :: "node_env \<Rightarrow> new_env \<Rightarrow> main_env \<Rightarrow> build_env \<Rightarrow> (string \<Rightarrow> string) \<Rightarrow> string \<Rightarrow> time \<Rightarrow> time
    \<Rightarrow> string list \<Rightarrow> written \<times> main_result" where
  "daemon_program env ne me be quote usage t0 t1 args =
     (case parse_flags quote daemon_flag_set args default_flags of
        Inl err \<Rightarrow> (case flag_exit usage err of (out, status) \<Rightarrow> (out, Exit status))
      | Inr (v, _) \<Rightarrow>
          if dfl_help v then (printHelp, Exit 0)
          else if dfl_showVersion v then (print_version be, Exit 0)
          else daemon_main env ne me t0 t1 (dfl_configPath v))"

section \<open>Lemmas\<close>

text \<open>The allowed flags of \<^verbatim>\<open>disco start\<close> as the daemon reads them.\<close>

lemma daemon_flags_parse:
  "parse_flags quote daemon_flag_set (''-config'' # path # args) v = parse_flags quote daemon_flag_set args (v\<lparr>dfl_configPath := path\<rparr>)"
  "parse_flags quote daemon_flag_set [''-config''] v = Inl (FlagError ''flag needs an argument: -config'')"
  "parse_flags quote daemon_flag_set (''-help'' # args) v = parse_flags quote daemon_flag_set args (v\<lparr>dfl_help := True\<rparr>)"
  "parse_flags quote daemon_flag_set (''--help'' # args) v = parse_flags quote daemon_flag_set args (v\<lparr>dfl_help := True\<rparr>)"
  "parse_flags quote daemon_flag_set (''-v'' # args) v = Inl (FlagError ''flag provided but not defined: -v'')"
  "parse_flags quote daemon_flag_set (''-verbose'' # args) v = Inl (FlagError ''flag provided but not defined: -verbose'')"
  by (simp_all add: daemon_flag_set_def split_flag_plain flag_value_def)

lemma daemon_flags_none: "parse_flags quote daemon_flag_set [] v = Inr (v, [])"
  by simp

declare parse_flags.simps [simp del]

lemmas daemon_flags_simps = daemon_flags_parse daemon_flags_none

lemma start_args_cases:
  assumes "start_args pe args acc out = Inr (out', va)"
  obtains "args = []" | "args = [''-config'']"
  | path rest warn where "args = ''-config'' # path # rest" "config_path_error pe path = (warn, None)"
      "start_args pe rest (acc @ [''-config'', path]) (out @ warn) = Inr (out', va)"
  | f rest where "args = f # rest" "f \<in> {''-help'', ''--help''}" "start_args pe rest (acc @ [f]) out = Inr (out', va)"
  | f rest where "args = f # rest" "f \<in> {''-v'', ''-verbose''}" "start_args pe rest (acc @ [f]) out = Inr (out', va)"
proof (cases args)
  case (Cons f rest)
  show ?thesis
  proof (cases "f = ''-config''")
    case True
    with Cons assms that(2,3) show ?thesis
      by (cases rest) (auto simp: allowedDaemonFlags_def split: prod.splits option.splits)
  next
    case False
    then have "f \<in> {''-help'', ''--help''} \<or> f \<in> {''-v'', ''-verbose''}" "start_args pe rest (acc @ [f]) out = Inr (out', va)"
      using Cons assms by (auto simp: allowedDaemonFlags_def split: if_splits)
    with Cons that(4,5) show ?thesis by blast
  qed
qed (use that(1) in blast)

text \<open>A path that stands right after \<^verbatim>\<open>-config\<close> and passes the check.\<close>

definition checked_path :: "path_env \<Rightarrow> string list \<Rightarrow> string \<Rightarrow> bool" where
  "checked_path pe args path \<longleftrightarrow> (\<exists>i. Suc i < length args \<and> args ! i = ''-config'' \<and> args ! Suc i = path
     \<and> snd (config_path_error pe path) = None)"

lemma checked_path_Cons: "checked_path pe args path \<Longrightarrow> checked_path pe (x # args) path"
  by (auto simp: checked_path_def intro: exI [of _ "Suc _"])

lemma checked_path_here: "config_path_error pe path = (warn, None) \<Longrightarrow> checked_path pe (''-config'' # path # args) path"
  by (auto simp: checked_path_def intro: exI [of _ 0])

text \<open>The arguments that \<^verbatim>\<open>disco start\<close> hands over are an error for the daemon, or all of them are flags.\<close>

lemma start_args_parse:
  assumes "start_args pe args acc out = Inr (out', va)"
  shows "(\<exists>msg. parse_flags quote daemon_flag_set args v = Inl (FlagError msg))
    \<or> (\<exists>v'. parse_flags quote daemon_flag_set args v = Inr (v', []) \<and> dfl_showVersion v' = dfl_showVersion v
        \<and> (dfl_help v' \<longrightarrow> dfl_help v \<or> ''-help'' \<in> set args \<or> ''--help'' \<in> set args)
        \<and> (dfl_configPath v' = dfl_configPath v \<or> checked_path pe args (dfl_configPath v')))"
  using assms
proof (induction "length args" arbitrary: args acc out v rule: less_induct)
  case less
  from less.prems show ?case
  proof (cases rule: start_args_cases)
    case (3 path rest warn)
    have "length rest < length args" by (simp add: 3(1))
    from less.hyps [OF this 3(3), of "v\<lparr>dfl_configPath := path\<rparr>"] checked_path_here [OF 3(2), of rest] show ?thesis
      by (auto simp: 3(1) daemon_flags_simps intro: checked_path_Cons)
  next
    case (4 f rest)
    have "length rest < length args" by (simp add: 4(1))
    from less.hyps [OF this 4(3), of "v\<lparr>dfl_help := True\<rparr>"] 4(2) show ?thesis
      by (auto simp: 4(1) daemon_flags_simps intro: checked_path_Cons)
  next
    case (5 f rest)
    then show ?thesis by (auto simp: daemon_flags_simps)
  qed (simp_all add: daemon_flags_simps)
qed

lemma verbose_args_parse:
  assumes "start_args pe (pre @ f # post) acc out = Inr (out', va)" and "f \<in> {''-v'', ''-verbose''}"
    and "pre = [] \<or> last pre \<noteq> ''-config''"
  shows "\<exists>msg. parse_flags quote daemon_flag_set (pre @ f # post) v = Inl (FlagError msg)"
  using assms
proof (induction "length pre" arbitrary: pre acc out v rule: less_induct)
  case less
  show ?case
  proof (cases pre)
    case Nil
    with less.prems(2) show ?thesis by (auto simp: daemon_flags_simps)
  next
    case (Cons g pre')
    from less.prems(1) show ?thesis
    proof (cases rule: start_args_cases)
      case (3 path rest warn)
      with Cons less.prems(3) obtain pre'' where "pre' = path # pre''" "rest = pre'' @ f # post" by (cases pre') auto
      with less.hyps [of pre'' "acc @ [''-config'', path]" "out @ warn" "v\<lparr>dfl_configPath := path\<rparr>"] 3 Cons less.prems(2,3)
      show ?thesis by (auto simp: daemon_flags_simps split: if_splits)
    next
      case (4 h rest)
      with less.hyps [of pre' "acc @ [h]" out "v\<lparr>dfl_help := True\<rparr>"] Cons less.prems(2,3)
      show ?thesis by (auto simp: daemon_flags_simps split: if_splits)
    next
      case (5 h rest)
      then show ?thesis by (auto simp: daemon_flags_simps)
    qed (use Cons in simp_all)
  qed
qed

section \<open>Properties\<close>

text \<open>C35: What \<^verbatim>\<open>disco start\<close> starts: given the arguments that it lets through, the daemon ends with its usage and
  status 2, or prints its help because it was asked to, or runs with a configuration file that is the default one or
  was named after \<^verbatim>\<open>-config\<close> and passed the check of its path. With \<^verbatim>\<open>-v\<close> or \<^verbatim>\<open>-verbose\<close>, which the
  command documents, it always ends with status 2.\<close>

theorem start_command_outcome:
  assumes "start_args pe args [] [] = Inr (warnings, vargs)"
    and "daemon_program env ne me be quote usage t0 t1 vargs = (out, result)"
  shows "((\<exists>msg. out = print_err msg @ [(Stderr, usage)] \<and> result = Exit 2)
      \<or> (out = printHelp \<and> result = Exit 0 \<and> (''-help'' \<in> set args \<or> ''--help'' \<in> set args))
      \<or> (\<exists>path. daemon_main env ne me t0 t1 path = (out, result)
           \<and> (path = ''/etc/disco/config.yaml'' \<or> (\<exists>i. Suc i < length args \<and> args ! i = ''-config'' \<and> args ! Suc i = path
                \<and> fst (ValidateConfigPath (pe_abs pe) (pe_stat pe) path) = None))))
    \<and> (\<forall>pre f post. args = pre @ f # post \<longrightarrow> f \<in> {''-v'', ''-verbose''} \<longrightarrow> (pre = [] \<or> last pre \<noteq> ''-config'') \<longrightarrow> result = Exit 2)"
proof (intro conjI allI impI)
  have va: "vargs = args" using start_args_app [OF assms(1)] by simp
  have path: "snd (config_path_error pe p) = fst (ValidateConfigPath (pe_abs pe) (pe_stat pe) p)" for p
    by (simp add: config_path_error_def split: prod.split)
  note run = assms(2) [unfolded va daemon_program_def]
  show "(\<exists>msg. out = print_err msg @ [(Stderr, usage)] \<and> result = Exit 2)
      \<or> (out = printHelp \<and> result = Exit 0 \<and> (''-help'' \<in> set args \<or> ''--help'' \<in> set args))
      \<or> (\<exists>path. daemon_main env ne me t0 t1 path = (out, result)
           \<and> (path = ''/etc/disco/config.yaml'' \<or> (\<exists>i. Suc i < length args \<and> args ! i = ''-config'' \<and> args ! Suc i = path
                \<and> fst (ValidateConfigPath (pe_abs pe) (pe_stat pe) path) = None)))"
    using start_args_parse [OF assms(1), of quote default_flags] run
    by (auto simp: flag_exit_def default_flags_def checked_path_def path split: if_splits)
  fix pre f post assume "args = pre @ f # post" "f \<in> {''-v'', ''-verbose''}" "pre = [] \<or> last pre \<noteq> ''-config''"
  with verbose_args_parse [of pe pre f post "[]" "[]" warnings vargs quote default_flags] assms(1) run
  show "result = Exit 2" by (auto simp: flag_exit_def)
qed

theorem start_command_outcome_witness:
  "start_args \<lparr>pe_abs = Inr, pe_stat = (\<lambda>_. Inr (True, 420))\<rparr> [''-config'', ''/c'', ''-v''] [] [] = Inr ([], [''-config'', ''/c'', ''-v''])
   \<and> (\<forall>ne me be quote usage. snd (daemon_program demo_node ne me be quote usage 0 0 [''-config'', ''/c'', ''-v'']) = Exit 2)"
proof -
  let ?pe = "\<lparr>pe_abs = Inr, pe_stat = (\<lambda>_. Inr (True, 420))\<rparr>"
  have s: "start_args ?pe [''-config'', ''/c'', ''-v''] [] [] = Inr ([], [''-config'', ''/c'', ''-v''])"
    by (simp add: config_path_error_def ValidateConfigPath_def allowedDaemonFlags_def)
  moreover have "snd (daemon_program demo_node ne me be quote usage 0 0 [''-config'', ''/c'', ''-v'']) = Exit 2" for ne me be quote usage
    using conjunct2 [OF start_command_outcome [OF s surjective_pairing, of demo_node ne me be quote usage 0 0],
        rule_format, of "[''-config'', ''/c'']" "''-v''" "[]"] by simp
  ultimately show ?thesis by blast
qed

end
