(* ===== verification/Goroutines.thy ===== *)
theory Goroutines
  imports Daemon
begin

text \<open>
  The goroutines that the daemon starts and that run on a ticker: the announcer
  (\<^verbatim>\<open>internal/discovery/broadcast.go\<close>), the detector (\<^verbatim>\<open>internal/service/detector.go\<close>), the time service
  (\<^verbatim>\<open>internal/timesync/service.go\<close>), the cleanup of the store (\<^verbatim>\<open>internal/daemon/store.go\<close>) and the updater of
  the announced services (\<^verbatim>\<open>internal/daemon/daemon.go\<close>). Each is a function of the ticks that come before
  its stop channel is closed.
\<close>

section \<open>Loops\<close>

text \<open>A tick carries its time and the random bytes for the nonce of a signature; the result is what each round sends.\<close>

fun Announcer_Start :: "net_env \<Rightarrow> mac \<Rightarrow> marshaller \<Rightarrow> (time \<times> read_result) list \<Rightarrow> Announcer
    \<Rightarrow> Announcer \<times> (udp_addr \<times> string) list list" where
  "Announcer_Start env hm marshal [] a = (a, [])"
| "Announcer_Start env hm marshal ((now, rnd) # ticks) a =
     (let (a1, sent) = broadcast env hm marshal rnd now a; (a2, rounds) = Announcer_Start env hm marshal ticks a1
      in (a2, sent # rounds))"

text \<open>The detector scans at once and then at every tick; the ports can answer differently each time.\<close>

definition Detector_Start :: "dialer \<Rightarrow> dialer list \<Rightarrow> Detector \<Rightarrow> Detector" where
  "Detector_Start dial dials d = fold scan dials (scan dial d)"

text \<open>The time service; \<open>None\<close> is a panic of a poll.\<close>

fun TimeSync_Start :: "(TimeSource list \<Rightarrow> TimeSource list) \<Rightarrow> kernel \<Rightarrow> time list \<Rightarrow> TimeSyncService
    \<Rightarrow> (TimeSyncService \<times> clock_action list) option" where
  "TimeSync_Start sorter kern [] s = Some (s, [])"
| "TimeSync_Start sorter kern (now # ticks) s =
     (case evaluateAndAdjust sorter kern now s of
        None \<Rightarrow> None
      | Some (s1, acts) \<Rightarrow>
          (case TimeSync_Start sorter kern ticks s1 of
             None \<Rightarrow> None
           | Some (s2, acts2) \<Rightarrow> Some (s2, acts @ acts2)))"

definition cleanupExpiredRecords :: "time list \<Rightarrow> RecordStore \<Rightarrow> RecordStore" where
  "cleanupExpiredRecords ticks rs = fold cleanup_tick ticks rs"

definition updateServiceAnnouncements :: "nat \<Rightarrow> Daemon \<Rightarrow> Daemon" where
  "updateServiceAnnouncements ticks d = (update_announcements ^^ ticks) d"

section \<open>Lemmas\<close>

lemma limiter_frame [simp]:
  "a_rateLimiter (fst (getCachedInterfaces env now a)) = a_rateLimiter a"
  "a_rateLimiter (fst (getLocalIPs env now a)) = a_rateLimiter a"
  "a_rateLimiter (fst (createAnnouncement env hm marshal rnd now a)) = a_rateLimiter a"
proof -
  show i: "a_rateLimiter (fst (getCachedInterfaces env now a)) = a_rateLimiter a"
    by (simp add: getCachedInterfaces_def split: sum.split)
  show l: "a_rateLimiter (fst (getLocalIPs env now a)) = a_rateLimiter a"
    using i by (simp add: getLocalIPs_def split_beta Let_def)
  show "a_rateLimiter (fst (createAnnouncement env hm marshal rnd now a)) = a_rateLimiter a"
    using l by (simp add: createAnnouncement_def split_beta Let_def)
qed

lemma send_limiter [simp]: "a_rateLimiter (fst (sendAnnouncement env hm marshal rnd now a)) = a_rateLimiter a"
  by (cases "createAnnouncement env hm marshal rnd now a"; use limiter_frame(3) [of env hm marshal rnd now a] in
      \<open>simp add: sendAnnouncement_def split_beta Let_def split: sum.split\<close>)

text \<open>A round that sends something was granted by the rate limiter.\<close>

lemma rounds_granted:
  "length (filter (\<lambda>sent. sent \<noteq> []) (snd (Announcer_Start env hm marshal ticks a)))
     \<le> length (filter (\<lambda>b. b) (snd (allow_run (a_rateLimiter a) (map fst ticks))))"
proof (induction ticks arbitrary: a)
  case (Cons tick ticks)
  obtain now rnd where tick: "tick = (now, rnd)" by (cases tick)
  obtain rl ok where al: "Allow now (a_rateLimiter a) = (rl, ok)" by (cases "Allow now (a_rateLimiter a)")
  obtain a1 sent where b: "broadcast env hm marshal rnd now a = (a1, sent)" by (cases "broadcast env hm marshal rnd now a")
  have a1: "a_rateLimiter a1 = rl \<and> (ok \<or> sent = [])"
  proof (cases ok)
    case True
    then have "a1 = fst (sendAnnouncement env hm marshal rnd now (a\<lparr>a_rateLimiter := rl\<rparr>))"
      using b al by (simp add: broadcast_def Let_def)
    with True show ?thesis by (simp only: send_limiter) simp
  next
    case False
    with b al show ?thesis by (auto simp: broadcast_def Let_def)
  qed
  obtain a2 rounds where r: "Announcer_Start env hm marshal ticks a1 = (a2, rounds)" by (cases "Announcer_Start env hm marshal ticks a1")
  obtain rl2 bs where rl: "allow_run rl (map fst ticks) = (rl2, bs)" by (cases "allow_run rl (map fst ticks)")
  have "length (filter (\<lambda>sent. sent \<noteq> []) rounds) \<le> length (filter (\<lambda>b. b) bs)" using Cons [of a1] r rl a1 by simp
  with al b r rl a1 show ?case by (cases ok) (simp_all add: tick)
qed simp

lemma cleanup_tick_records:
  assumes "gm_wf (rs_records rs)"
  shows "map_of (rs_records (cleanup_tick now rs)) h = (case map_of (rs_records rs) h of
    None \<Rightarrow> None
  | Some r \<Rightarrow> if ShouldExpire (rs_healthTracker rs) now r then None else Some (UpdateRecordStatus (rs_healthTracker rs) now r))"
  using assms by (simp add: cleanup_tick_def cleanup_loop_records split: option.split)

lemma cleanup_run_frame:
  "rs_healthTracker (cleanupExpiredRecords ticks rs) = rs_healthTracker rs"
  "store_inv rs \<Longrightarrow> store_inv (cleanupExpiredRecords ticks rs)"
  by (induction ticks arbitrary: rs) (simp_all add: cleanupExpiredRecords_def cleanup_inv)

text \<open>What a run of the cleanup leaves of a record: nothing once it has expired at some tick.\<close>

lemma cleanup_run_records:
  assumes "store_inv rs"
  shows "map_of (rs_records (cleanupExpiredRecords ticks rs)) h = None
    \<or> (\<exists>r r'. map_of (rs_records rs) h = Some r \<and> map_of (rs_records (cleanupExpiredRecords ticks rs)) h = Some r'
         \<and> r' = r\<lparr>r_Status := r_Status r'\<rparr> \<and> (\<forall>t \<in> set ticks. \<not> ShouldExpire (rs_healthTracker rs) t r))"
  using assms
proof (induction ticks arbitrary: rs)
  case Nil
  show ?case by (cases "map_of (rs_records rs) h") (simp_all add: cleanupExpiredRecords_def)
next
  case (Cons t ticks)
  have inv: "store_inv (cleanup_tick t rs)" using Cons.prems by (rule cleanup_inv)
  have upd: "ShouldExpire ht u (r\<lparr>r_Status := x\<rparr>) = ShouldExpire ht u r" for ht u r x
    by (simp add: ShouldExpire_def record_age_def)
  from Cons.IH [OF inv] cleanup_tick_records [OF conjunct1 [OF store_inv_wf [OF Cons.prems]], of t h] show ?case
    by (auto simp: cleanupExpiredRecords_def UpdateRecordStatus_def upd split: option.splits if_splits)
qed

text \<open>Each loop is a run of the step relation of the daemon.\<close>

lemma announcer_steps:
  "d_announcer d = Some a \<Longrightarrow> (daemon_step env)\<^sup>*\<^sup>* d
     (d\<lparr>d_announcer := Some (fst (Announcer_Start (nv_net env) (nv_mac env) (nv_marshal env) (map (\<lambda>t. (t, nv_rnd env)) ticks) a))\<rparr>)"
proof (induction ticks arbitrary: d a)
  case Nil
  then have "d\<lparr>d_announcer := Some a\<rparr> = d" by simp
  then show ?case by simp
next
  case (Cons t ticks)
  obtain a1 sent where b: "broadcast (nv_net env) (nv_mac env) (nv_marshal env) (nv_rnd env) t a = (a1, sent)"
    by (cases "broadcast (nv_net env) (nv_mac env) (nv_marshal env) (nv_rnd env) t a")
  from d_broadcast [OF Cons.prems b] Cons.IH [of "d\<lparr>d_announcer := Some a1\<rparr>" a1] show ?case
    by (auto simp: b split: prod.splits intro: converse_rtranclp_into_rtranclp)
qed

lemma detector_steps:
  "d_detector d = Some dt \<Longrightarrow>
   (daemon_step env)\<^sup>*\<^sup>* d (d\<lparr>d_detector := Some (Detector_Start (nv_dial env) (replicate n (nv_dial env)) dt)\<rparr>)"
proof (induction n arbitrary: d dt)
  case 0
  then show ?case using d_scan [of d dt env] by (auto simp: Detector_Start_def)
next
  case (Suc n)
  from d_scan [OF Suc.prems, of env] Suc.IH [of "d\<lparr>d_detector := Some (scan (nv_dial env) dt)\<rparr>" "scan (nv_dial env) dt"] show ?case
    by (auto simp: Detector_Start_def intro: converse_rtranclp_into_rtranclp)
qed

lemma timesync_steps:
  "sv_timeSync d = Some ts \<Longrightarrow> TimeSync_Start (se_sort (nv_sock env)) (se_kernel (nv_sock env)) ticks ts = Some (ts', acts) \<Longrightarrow>
   (daemon_step env)\<^sup>*\<^sup>* d (d\<lparr>sv_timeSync := Some ts'\<rparr>)"
proof (induction ticks arbitrary: d ts acts)
  case Nil
  then have "d\<lparr>sv_timeSync := Some ts'\<rparr> = d" by simp
  then show ?case by simp
next
  case (Cons t ticks)
  then obtain ts1 acts1 acts2 where e: "evaluateAndAdjust (se_sort (nv_sock env)) (se_kernel (nv_sock env)) t ts = Some (ts1, acts1)"
    and r: "TimeSync_Start (se_sort (nv_sock env)) (se_kernel (nv_sock env)) ticks ts1 = Some (ts', acts2)"
    by (auto split: option.splits prod.splits)
  from d_poll [OF Cons.prems(1) e] Cons.IH [of "d\<lparr>sv_timeSync := Some ts1\<rparr>" ts1 acts2] r show ?case
    by (auto intro: converse_rtranclp_into_rtranclp)
qed

lemma cleanup_steps: "(daemon_step env)\<^sup>*\<^sup>* d (d\<lparr>sv_store := cleanupExpiredRecords ticks (sv_store d)\<rparr>)"
proof (induction ticks arbitrary: d)
  case (Cons t ticks)
  from d_cleanup [of env d t] Cons [of "d\<lparr>sv_store := cleanup_tick t (sv_store d)\<rparr>"] show ?case
    by (auto simp: cleanupExpiredRecords_def intro: converse_rtranclp_into_rtranclp)
qed (simp add: cleanupExpiredRecords_def)

lemma update_steps: "(daemon_step env)\<^sup>*\<^sup>* d (updateServiceAnnouncements n d)"
proof (induction n)
  case (Suc n)
  from Suc d_update [of env "updateServiceAnnouncements n d"] show ?case
    by (auto simp: updateServiceAnnouncements_def intro: rtranclp.rtrancl_into_rtrancl)
qed (simp add: updateServiceAnnouncements_def)

section \<open>Properties\<close>

text \<open>The network is not flooded: however the ticks of its timer fall, an announcer sends in at most ten rounds plus ten
  for each whole second since it was created.\<close>

theorem announcer_rounds_bounded:
  assumes "NewAnnouncer env listen t0 addr hostname machineID interval km interfaces = Inr a" and "sorted (t0 # map fst ticks)"
  shows "int (length (filter (\<lambda>sent. sent \<noteq> []) (snd (Announcer_Start env hm marshal ticks a))))
    \<le> 10 + (last (t0 # map fst ticks) - t0) div Second * 10"
proof -
  have a: "a_rateLimiter a = NewRateLimiter t0 10 10"
    using assms(1) by (auto simp: NewAnnouncer_def split: sum.splits prod.splits)
  have rl: "rl_ok (NewRateLimiter t0 10 10)" "rl_lastTime (NewRateLimiter t0 10 10) = t0" "rl_tokens (NewRateLimiter t0 10 10) = 10"
    "rl_rate (NewRateLimiter t0 10 10) = 10"
    by (simp_all add: NewRateLimiter_def Let_def rl_ok_def)
  have "int (length (filter (\<lambda>b. b) (snd (allow_run (NewRateLimiter t0 10 10) (map fst ticks)))))
      \<le> 10 + (last (t0 # map fst ticks) - t0) div Second * 10"
    using allow_run_balance [OF rl(1), of "map fst ticks"] assms(2) by (auto simp: rl rl_ok_def)
  with rounds_granted [of env hm marshal ticks a] show ?thesis by (simp add: a)
qed

theorem announcer_rounds_bounded_witness:
  "\<exists>a. NewAnnouncer demo_env (Inr ()) 0 ''255.255.255.255:5354'' ''a'' [] Minute None [] = Inr a
     \<and> int (length (filter (\<lambda>sent. sent \<noteq> []) (snd (Announcer_Start demo_env demo_mac demo_marshal
          [(0, Inr []), (Second, Inr []), (Second, Inr [])] a)))) \<le> 20"
proof -
  obtain a where a: "NewAnnouncer demo_env (Inr ()) 0 ''255.255.255.255:5354'' ''a'' [] Minute None [] = Inr a"
  proof -
    have "SplitHostPort ''255.255.255.255:5354'' = Inr (''255.255.255.255'', ''5354'')" by code_simp
    then show ?thesis using that by (auto simp: NewAnnouncer_def demo_env_def)
  qed
  from announcer_rounds_bounded [OF a, of "[(0, Inr []), (Second, Inr []), (Second, Inr [])]" demo_mac demo_marshal] a show ?thesis by auto
qed

text \<open>C10: Stale hosts disappear: once the cleanup has had a tick at which a record was expired, and the host has not been
  announced in between, neither its name nor any of its aliases is in the store, whatever ticks came before and after.\<close>

theorem expired_record_removed:
  assumes "store_inv rs" and "map_of (rs_records rs) h = Some r" and "t \<in> set ticks" and "ShouldExpire (rs_healthTracker rs) t r"
  shows "map_of (rs_records (cleanupExpiredRecords ticks rs)) h = None
    \<and> (\<forall>name. map_of (rs_aliasIndex (cleanupExpiredRecords ticks rs)) name \<noteq> Some h)
    \<and> (\<forall>now name r'. Get (cleanupExpiredRecords ticks rs) now name = Some r' \<longrightarrow> r_Hostname r' \<noteq> h)"
proof -
  let ?rs = "cleanupExpiredRecords ticks rs"
  have inv: "store_inv ?rs" using assms(1) by (rule cleanup_run_frame(2))
  have gone: "map_of (rs_records ?rs) h = None" using cleanup_run_records [OF assms(1), of ticks h] assms(2-4) by auto
  moreover have "map_of (rs_aliasIndex ?rs) name \<noteq> Some h" for name
    using inv gone by (auto simp: store_inv_def list_all_iff alias_ok_def dest!: map_of_SomeD)
  moreover have "r_Hostname r' \<noteq> h" if "Get ?rs now name = Some r'" for now name r'
  proof -
    have "find_record ?rs name = Some r'" using that by (simp add: Get_def split: option.splits if_splits)
    then obtain k where k: "map_of (rs_records ?rs) k = Some r'" using find_record_in by blast
    then have "record_ok (rs_healthTracker ?rs) (k, r')" using inv by (auto simp: store_inv_def list_all_iff dest: map_of_SomeD)
    with k gone show ?thesis by (auto simp: record_ok_def)
  qed
  ultimately show ?thesis by blast
qed

theorem expired_record_removed_witness:
  "map_of (rs_records demo_store) ''web1'' \<noteq> None
   \<and> map_of (rs_records (cleanupExpiredRecords [1030 * Second, 5000 * Second] demo_store)) ''web1'' = None"
proof -
  have inv: "store_inv demo_store" by (rule store_ts.reach_inv [OF demo_reach])
  obtain r where r: "map_of (rs_records demo_store) ''web1'' = Some r" "ShouldExpire (rs_healthTracker demo_store) (5000 * Second) r"
    by (simp add: demo_store_eval ShouldExpire_def record_age_def time_Sub_def clamp64_def time_Unix_def demo_record_def demo_health_def
        zero_Record_def)
  with expired_record_removed [OF inv r(1), of "5000 * Second" "[1030 * Second, 5000 * Second]"] show ?thesis by simp
qed

end
