(* ===== verification/Socket_File.thy ===== *)
theory Socket_File
  imports Daemon
begin

text \<open>
  The start of the socket server (\<^verbatim>\<open>internal/daemon/socket.go\<close>): the constructor, the setters, and the
  file of the socket with its permissions. The kernel gives the results of the calls; their effect on the
  permissions of files is \<open>do_fs_op\<close>.
\<close>

unbundle bit_operations_syntax

section \<open>Paths\<close>

text \<open>\<^verbatim>\<open>filepath.Clean\<close> and \<^verbatim>\<open>filepath.Dir\<close> of the standard library. The elements kept so far stand in
  reverse order.\<close>

fun clean_elements :: "bool \<Rightarrow> string list \<Rightarrow> string list \<Rightarrow> string list" where
  "clean_elements rooted [] out = rev out"
| "clean_elements rooted (e # es) out =
     (if e = [] \<or> e = ''.'' then clean_elements rooted es out
      else if e = ''..'' then
        (case out of
           [] \<Rightarrow> clean_elements rooted es (if rooted then [] else [''..''])
         | x # xs \<Rightarrow> clean_elements rooted es (if x = ''..'' then e # out else xs))
      else clean_elements rooted es (e # out))"

definition filepath_Clean :: "string \<Rightarrow> string" where
  "filepath_Clean path =
     (let rooted = HasPrefix path ''/''; body = join_with ''/'' (clean_elements rooted (split_on CHR ''/'' path) [])
      in if rooted then ''/'' @ body else if body = [] then ''.'' else body)"

definition filepath_Dir :: "string \<Rightarrow> string" where
  "filepath_Dir path = filepath_Clean (rev (dropWhile (\<lambda>c. c \<noteq> CHR ''/'') (rev path)))"

section \<open>Start\<close>

text \<open>The twelve permission bits of a file; the ninth is the sticky bit.\<close>

type_synonym file_mode = "12 word"

datatype fs_op = Remove string | Listen string | Chmod string file_mode

record os_env =
  oe_listen :: "string \<Rightarrow> string option"
  oe_chmod :: "string \<Rightarrow> file_mode \<Rightarrow> string option"
  oe_sockMode :: file_mode

definition NewSocketServer :: "RecordStore \<Rightarrow> shared" where
  "NewSocketServer store = \<lparr>sv_store = store, sv_locationStore = None, sv_timeSync = None\<rparr>"

definition SetTimeSync :: "TimeSyncService option \<Rightarrow> 'z shared_scheme \<Rightarrow> 'z shared_scheme" where
  "SetTimeSync ts s = s\<lparr>sv_timeSync := ts\<rparr>"

definition SetLocationStore :: "LocationStore option \<Rightarrow> 'z shared_scheme \<Rightarrow> 'z shared_scheme" where
  "SetLocationStore ls s = s\<lparr>sv_locationStore := ls\<rparr>"

text \<open>A change of permissions that fails is a warning in the log; the result has the operations that had an effect, the
  warnings, and the error of the start.\<close>

definition try_chmod :: "os_env \<Rightarrow> string \<Rightarrow> file_mode \<Rightarrow> string \<Rightarrow> fs_op list \<times> (string \<times> string) list" where
  "try_chmod oe path mode warning =
     (case oe_chmod oe path mode of Some err \<Rightarrow> ([], [(warning, err)]) | None \<Rightarrow> ([Chmod path mode], []))"

definition Socket_Start :: "os_env \<Rightarrow> string \<Rightarrow> fs_op list \<times> (string \<times> string) list \<times> (string + unit)" where
  "Socket_Start oe socketPath =
     (case oe_listen oe socketPath of
        Some err \<Rightarrow> ([Remove socketPath], [], Inl (''failed to listen on unix socket: '' @ err))
      | None \<Rightarrow>
          let (ops1, warnings1) = try_chmod oe (filepath_Dir socketPath) 0x1ED ''Failed to set socket directory permissions'';
              (ops2, warnings2) = try_chmod oe socketPath 0x1B6 ''Failed to set socket permissions''
          in ([Remove socketPath, Listen socketPath] @ ops1 @ ops2, warnings1 @ warnings2, Inr ()))"

text \<open>The effect on the permissions of the files.\<close>

fun do_fs_op :: "os_env \<Rightarrow> fs_op \<Rightarrow> (string \<rightharpoonup> file_mode) \<Rightarrow> (string \<rightharpoonup> file_mode)" where
  "do_fs_op oe (Remove path) m = m(path := None)"
| "do_fs_op oe (Listen path) m = m(path \<mapsto> oe_sockMode oe)"
| "do_fs_op oe (Chmod path mode) m = m(path := map_option (\<lambda>_. mode) (m path))"

section \<open>Properties\<close>

text \<open>The constructor of the daemon hands the socket server exactly its own store, location store and time service.\<close>

theorem New_configures_socket:
  assumes "New ne t cfg = Inr d"
  shows "shared.truncate d = (let s = SetLocationStore (Some NewLocationStore) (NewSocketServer (sv_store d))
    in if tsc_Enabled (c_TimeSync cfg) then SetTimeSync (sv_timeSync d) s else s)"
  using assms
  by (auto simp: New_def NewSocketServer_def SetLocationStore_def SetTimeSync_def shared.truncate_def Let_def
      split: sum.splits prod.splits option.splits)

theorem New_configures_socket_witness:
  "\<exists>d. New demo_new_env 0 demo_config = Inr d \<and> shared.truncate d
     = SetLocationStore (Some NewLocationStore) (NewSocketServer (NewRecordStore 0 demo_health demo_hosts))"
proof -
  obtain d where d: "New demo_new_env 0 demo_config = Inr d" "sv_store d = NewRecordStore 0 demo_health demo_hosts"
    using demo_New by blast
  have "\<not> tsc_Enabled (c_TimeSync demo_config)" by (simp add: demo_config_def zero_Config_def)
  with d New_configures_socket [OF d(1)] show ?thesis by (simp add: Let_def)
qed

text \<open>What the start does to the permissions: it fails exactly if the socket cannot be opened, and \<^verbatim>\<open>Run\<close> then fails with
  its error. If the kernel allows both changes, every local user can use the socket, and the directory that holds it is
  writable by its owner only and loses its sticky bit, whatever permissions it had; no other file changes.\<close>

theorem socket_start_permissions:
  assumes "Socket_Start oe path = (ops, warnings, res)" and "filepath_Dir path \<noteq> path"
    and "m (filepath_Dir path) = Some mode" and "\<And>p md. oe_chmod oe p md = None"
  shows "(res = Inr () \<longleftrightarrow> oe_listen oe path = None) \<and> (res = Inr () \<longrightarrow> warnings = [] \<and>
    fold (do_fs_op oe) ops m = m(filepath_Dir path \<mapsto> 0x1ED, path \<mapsto> 0x1B6))
    \<and> (\<forall>err. res = Inl err \<and> \<not> start_panics d \<longrightarrow> Run env res now d = Some (Inl (''failed to start socket server: '' @ err)))"
  using assms
  by (auto simp: Socket_Start_def try_chmod_def Run_def Let_def fun_upd_twist split: option.splits)

text \<open>A socket right under \<^verbatim>\<open>/tmp\<close> takes the directory away from the other users.\<close>

theorem socket_start_permissions_witness:
  "\<exists>ops. Socket_Start \<lparr>oe_listen = (\<lambda>_. None), oe_chmod = (\<lambda>_ _. None), oe_sockMode = 0x1ED\<rparr> ''/tmp/disco.sock'' = (ops, [], Inr ())
     \<and> fold (do_fs_op \<lparr>oe_listen = (\<lambda>_. None), oe_chmod = (\<lambda>_ _. None), oe_sockMode = 0x1ED\<rparr>) ops [''/tmp'' \<mapsto> 0x3FF] ''/tmp'' = Some 0x1ED
     \<and> bit (0x3FF :: file_mode) 9 \<and> bit (0x3FF :: file_mode) 1 \<and> \<not> bit (0x1ED :: file_mode) 9 \<and> \<not> bit (0x1ED :: file_mode) 1"
proof -
  let ?oe = "\<lparr>oe_listen = (\<lambda>_. None), oe_chmod = (\<lambda>_ _. None), oe_sockMode = 0x1ED\<rparr>"
  have dir: "filepath_Dir ''/tmp/disco.sock'' = ''/tmp''" by code_simp
  obtain ops warnings res where s: "Socket_Start ?oe ''/tmp/disco.sock'' = (ops, warnings, res)" by (cases "Socket_Start ?oe ''/tmp/disco.sock''")
  obtain d :: Daemon and env :: node_env and now :: time where True by simp
  from socket_start_permissions [OF s, of "[''/tmp'' \<mapsto> 0x3FF]" "0x3FF" d env now] s show ?thesis
    by (simp add: dir)
qed

end
