(* ===== verification/Shutdown.thy ===== *)
theory Shutdown
  imports Daemon
begin

text \<open>
  The end of the daemon: \<^verbatim>\<open>waitForShutdown\<close> (\<^verbatim>\<open>internal/daemon/daemon.go\<close>) beside the receiving
  goroutine of the listener, the three goroutines that read its channels, and the connections of the socket.
  The main goroutine closes the channels only after the receiver has ended (\<^verbatim>\<open>Listener.Stop\<close> waits for
  it), and a range loop over a closed channel ends when the channel is empty. The tickers and the rate limiter
  that a stop also ends have no part in this and are not in the state, nor have the connections of the DNS
  server, whose shutdown is an action of the main goroutine only.
\<close>

section \<open>Main goroutine\<close>

datatype shutdown_action = NotifyStopping | LogInfo string | CloseStop | StopAnnouncer | StopListener | StopDetector
  | StopTimeSync | CloseSocket | WaitConnections | StopDns | StopStore | RemoveSocket string

definition waitForShutdown :: "Daemon \<Rightarrow> shutdown_action list" where
  "waitForShutdown d =
     [NotifyStopping, LogInfo ''Received signal, shutting down'', CloseStop]
     @ (if d_announcer d \<noteq> None then [StopAnnouncer] else [])
     @ (if d_listener d \<noteq> None then [StopListener] else [])
     @ (if d_detector d \<noteq> None then [StopDetector] else [])
     @ (if sv_timeSync d \<noteq> None then [StopTimeSync] else [])
     @ [CloseSocket, WaitConnections]
     @ (if d_dnsServer d \<noteq> None then [StopDns] else [])
     @ [StopStore, RemoveSocket (dc_SocketPath (c_Daemon (d_config d))), LogInfo ''Shutdown complete'']"

section \<open>Goroutines\<close>

text \<open>
  \<open>sd_recv\<close>: the receiver runs; \<open>sd_reading\<close>: it is past its check of the stop channel and in a
  read; a message that waits to be sent is \<open>l_pending\<close>. \<open>sd_closed\<close>: the channels are closed. The next
  three say which readers have ended, \<open>sd_inflight\<close> that the accept loop has taken a connection and not yet
  started its handler (so one more can start while \<^verbatim>\<open>Stop\<close> waits), \<open>sd_panicked\<close> that a send met a closed channel.
\<close>

record shutdown =
  sd_daemon :: Daemon
  sd_todo :: "shutdown_action list"
  sd_stopped :: bool
  sd_recv :: bool
  sd_reading :: bool
  sd_closed :: bool
  sd_disc :: bool
  sd_time :: bool
  sd_loc :: bool
  sd_accepting :: bool
  sd_inflight :: bool
  sd_conns :: nat
  sd_panicked :: bool

definition shutdown_init :: "Daemon \<Rightarrow> nat \<Rightarrow> bool \<Rightarrow> shutdown" where
  "shutdown_init d conns reading = \<lparr>sd_daemon = d, sd_todo = waitForShutdown d, sd_stopped = False, sd_recv = (d_listener d \<noteq> None),
     sd_reading = (case d_listener d of None \<Rightarrow> False | Some l \<Rightarrow> reading \<and> l_pending l = None),
     sd_closed = False, sd_disc = False, sd_time = False, sd_loc = False, sd_accepting = True,
     sd_inflight = False, sd_conns = conns, sd_panicked = False\<rparr>"

definition action_ready :: "shutdown_action \<Rightarrow> shutdown \<Rightarrow> bool" where
  "action_ready act st = (case act of StopListener \<Rightarrow> \<not> sd_recv st | WaitConnections \<Rightarrow> sd_conns st = 0 | _ \<Rightarrow> True)"

definition do_action :: "shutdown_action \<Rightarrow> shutdown \<Rightarrow> shutdown" where
  "do_action act st =
     (case act of
        CloseStop \<Rightarrow> st\<lparr>sd_stopped := True\<rparr>
      | StopListener \<Rightarrow> st\<lparr>sd_closed := True\<rparr>
      | StopDetector \<Rightarrow> st\<lparr>sd_daemon := (sd_daemon st)\<lparr>d_detector := map_option Detector_Stop (d_detector (sd_daemon st))\<rparr>\<rparr>
      | CloseSocket \<Rightarrow> st\<lparr>sd_accepting := False\<rparr>
      | _ \<Rightarrow> st)"

abbreviation with_listener :: "Listener \<Rightarrow> shutdown \<Rightarrow> shutdown" where
  "with_listener l st \<equiv> st\<lparr>sd_daemon := (sd_daemon st)\<lparr>d_listener := Some l\<rparr>\<rparr>"

inductive shutdown_step :: "node_env \<Rightarrow> shutdown \<Rightarrow> shutdown \<Rightarrow> bool" for env :: node_env where
  sd_main: "sd_todo st = act # rest \<Longrightarrow> action_ready act st \<Longrightarrow> shutdown_step env st (do_action act (st\<lparr>sd_todo := rest\<rparr>))"
| sd_check: "sd_recv st \<Longrightarrow> \<not> sd_reading st \<Longrightarrow> d_listener (sd_daemon st) = Some l \<Longrightarrow> l_pending l = None \<Longrightarrow>
     shutdown_step env st (if sd_stopped st then st\<lparr>sd_recv := False\<rparr> else st\<lparr>sd_reading := True\<rparr>)"
| sd_read: "sd_recv st \<Longrightarrow> sd_reading st \<Longrightarrow> d_listener (sd_daemon st) = Some l \<Longrightarrow>
     receive (nv_dec env) (nv_mac env) (nv_marshal env) now (read_datagram datagram) l = (l', del) \<Longrightarrow>
     shutdown_step env st ((with_listener (l'\<lparr>l_pending := del\<rparr>) st)\<lparr>sd_reading := False\<rparr>)"
| sd_read_error: "sd_recv st \<Longrightarrow> sd_reading st \<Longrightarrow> shutdown_step env st (st\<lparr>sd_reading := False\<rparr>)"
| sd_send: "sd_recv st \<Longrightarrow> d_listener (sd_daemon st) = Some l \<Longrightarrow> l_pending l = Some del \<Longrightarrow> \<not> sd_closed st \<Longrightarrow>
     chan_send del l = Some l' \<Longrightarrow> shutdown_step env st (with_listener (l'\<lparr>l_pending := None\<rparr>) st)"
| sd_send_closed: "sd_recv st \<Longrightarrow> d_listener (sd_daemon st) = Some l \<Longrightarrow> l_pending l = Some del \<Longrightarrow> sd_closed st \<Longrightarrow>
     shutdown_step env st (st\<lparr>sd_panicked := True\<rparr>)"
| sd_drop: "sd_recv st \<Longrightarrow> d_listener (sd_daemon st) = Some l \<Longrightarrow> l_pending l = Some del \<Longrightarrow> sd_stopped st \<Longrightarrow>
     shutdown_step env st ((with_listener (l\<lparr>l_pending := None\<rparr>) st)\<lparr>sd_recv := (case del of DMsg m \<Rightarrow> False | _ \<Rightarrow> True)\<rparr>)"
| sd_message: "\<not> sd_disc st \<Longrightarrow> d_listener (sd_daemon st) = Some l \<Longrightarrow> l_messageChan l = m # ms \<Longrightarrow>
     shutdown_step env st (st\<lparr>sd_daemon := handleDiscoveryMessage now m ((sd_daemon st)\<lparr>d_listener := Some (l\<lparr>l_messageChan := ms\<rparr>)\<rparr>)\<rparr>)"
| sd_message_end: "\<not> sd_disc st \<Longrightarrow> d_listener (sd_daemon st) = Some l \<Longrightarrow> l_messageChan l = [] \<Longrightarrow> sd_closed st \<Longrightarrow>
     shutdown_step env st (st\<lparr>sd_disc := True\<rparr>)"
| sd_timemsg: "\<not> sd_time st \<Longrightarrow> d_listener (sd_daemon st) = Some l \<Longrightarrow> sv_timeSync (sd_daemon st) = Some ts \<Longrightarrow>
     l_timeMessageChan l = m # ms \<Longrightarrow>
     shutdown_step env st (st\<lparr>sd_daemon := (sd_daemon st)\<lparr>d_listener := Some (l\<lparr>l_timeMessageChan := ms\<rparr>),
       sv_timeSync := Some (ProcessMessage now m ts)\<rparr>\<rparr>)"
| sd_timemsg_end: "\<not> sd_time st \<Longrightarrow> d_listener (sd_daemon st) = Some l \<Longrightarrow> sv_timeSync (sd_daemon st) \<noteq> None \<Longrightarrow>
     l_timeMessageChan l = [] \<Longrightarrow> sd_closed st \<Longrightarrow> shutdown_step env st (st\<lparr>sd_time := True\<rparr>)"
| sd_location: "\<not> sd_loc st \<Longrightarrow> d_listener (sd_daemon st) = Some l \<Longrightarrow> sv_locationStore (sd_daemon st) = Some ls \<Longrightarrow>
     l_locationMessageChan l = m # ms \<Longrightarrow>
     shutdown_step env st (st\<lparr>sd_daemon := (sd_daemon st)\<lparr>d_listener := Some (l\<lparr>l_locationMessageChan := ms\<rparr>),
       sv_locationStore := Some (Location_AddOrUpdate now m ls)\<rparr>\<rparr>)"
| sd_location_end: "\<not> sd_loc st \<Longrightarrow> d_listener (sd_daemon st) = Some l \<Longrightarrow> l_locationMessageChan l = [] \<Longrightarrow> sd_closed st \<Longrightarrow>
     shutdown_step env st (st\<lparr>sd_loc := True\<rparr>)"
| sd_admit: "sd_inflight st \<Longrightarrow> sd_conns st < maxConnections \<Longrightarrow>
     shutdown_step env st (st\<lparr>sd_inflight := False, sd_conns := Suc (sd_conns st)\<rparr>)"
| sd_reject: "sd_inflight st \<Longrightarrow> \<not> sd_conns st < maxConnections \<Longrightarrow> shutdown_step env st (st\<lparr>sd_inflight := False\<rparr>)"
| sd_answer: "0 < sd_conns st \<Longrightarrow>
     handleQuery (nv_sock env) (Some (AnnounceService env now)) now query (sd_daemon st) = Some (d', rsp) \<Longrightarrow>
     shutdown_step env st (st\<lparr>sd_daemon := d', sd_conns := sd_conns st - 1\<rparr>)"
| sd_hangup: "0 < sd_conns st \<Longrightarrow> shutdown_step env st (st\<lparr>sd_conns := sd_conns st - 1\<rparr>)"

text \<open>New connections come from outside; the accept loop takes one at a time, until the socket is closed.\<close>

inductive client_step :: "shutdown \<Rightarrow> shutdown \<Rightarrow> bool" where
  sd_accept: "sd_accepting st \<Longrightarrow> \<not> sd_inflight st \<Longrightarrow> client_step st (st\<lparr>sd_inflight := True\<rparr>)"

inductive_cases shutdown_stepE: "shutdown_step env st st'"
inductive_cases client_stepE: "client_step st st'"

abbreviation system_step :: "node_env \<Rightarrow> shutdown \<Rightarrow> shutdown \<Rightarrow> bool" where
  "system_step env st st' \<equiv> shutdown_step env st st' \<or> client_step st st'"

section \<open>Invariant\<close>

definition shutdown_inv :: "shutdown \<Rightarrow> bool" where
  "shutdown_inv st \<longleftrightarrow> \<not> sd_panicked st
     \<and> (sd_closed st \<longrightarrow> \<not> sd_recv st)
     \<and> (case d_listener (sd_daemon st) of
          None \<Rightarrow> \<not> sd_recv st \<and> \<not> sd_reading st
        | Some l \<Rightarrow> (sd_closed st \<or> StopListener \<in> set (sd_todo st))
            \<and> (sd_reading st \<longrightarrow> sd_recv st \<and> l_pending l = None)
            \<and> (sd_disc st \<longrightarrow> sd_closed st \<and> l_messageChan l = [])
            \<and> (sd_time st \<longrightarrow> sd_closed st \<and> l_timeMessageChan l = [])
            \<and> (sd_loc st \<longrightarrow> sd_closed st \<and> l_locationMessageChan l = []))"

lemma query_listener:
  "handleQuery senv (Some (AnnounceService env now)) now query d = Some (d', rsp) \<Longrightarrow> d_listener d' = d_listener d"
  using handleQuery_store [of senv "AnnounceService env now" now query d d' rsp] by auto

lemma shutdown_inv_conns [simp]:
  "shutdown_inv (st\<lparr>sd_conns := n\<rparr>) = shutdown_inv st" "shutdown_inv (st\<lparr>sd_inflight := b\<rparr>) = shutdown_inv st"
  by (simp_all add: shutdown_inv_def split: option.split)

lemma shutdown_inv_init: "shutdown_inv (shutdown_init d conns reading)"
  by (simp add: shutdown_inv_def shutdown_init_def waitForShutdown_def split: option.split)

lemma do_action_sel [simp]:
  "sd_todo (do_action act st) = sd_todo st" "sd_recv (do_action act st) = sd_recv st" "sd_reading (do_action act st) = sd_reading st"
  "d_listener (sd_daemon (do_action act st)) = d_listener (sd_daemon st)" "sd_panicked (do_action act st) = sd_panicked st"
  "sd_disc (do_action act st) = sd_disc st" "sd_time (do_action act st) = sd_time st" "sd_loc (do_action act st) = sd_loc st"
  "sd_conns (do_action act st) = sd_conns st" "sd_inflight (do_action act st) = sd_inflight st" "sd_closed (do_action act st) \<longleftrightarrow> sd_closed st \<or> act = StopListener"
  "sd_stopped (do_action act st) \<longleftrightarrow> sd_stopped st \<or> act = CloseStop"
  by (simp_all add: do_action_def split: shutdown_action.split)

lemma shutdown_inv_step:
  assumes "shutdown_inv st" and "shutdown_step env st st'" shows "shutdown_inv st'"
  using assms(2)
proof cases
  case (sd_main act rest)
  then show ?thesis using assms(1)
    by (auto simp: shutdown_inv_def action_ready_def split: option.splits shutdown_action.splits)
next
  case (sd_read l now datagram l' del)
  obtain f where l': "l' = l\<lparr>l_duplicateFilter := f\<rparr>" using receive_frame [OF sd_read(5)] by blast
  from sd_read(1-4) assms(1) show ?thesis by (auto simp: shutdown_inv_def l')
next
  case (sd_send l del l')
  with assms(1) show ?thesis by (cases del) (auto simp: shutdown_inv_def split: if_splits)
next
  case (sd_answer now query d' rsp)
  with assms(1) query_listener [OF sd_answer(3)] show ?thesis by (auto simp: shutdown_inv_def split: option.splits)
qed (use assms(1) in \<open>auto simp: shutdown_inv_def handleDiscoveryMessage_def split: option.splits delivery.splits if_splits\<close>)

interpretation shutdown_ts: transition_system "\<lambda>st. \<exists>d conns reading. st = shutdown_init d conns reading" "system_step env" shutdown_inv for env
proof
  show "shutdown_inv st" if "\<exists>d conns reading. st = shutdown_init d conns reading" for st
    using that shutdown_inv_init by blast
  show "shutdown_inv t" if "shutdown_inv s" "system_step env s t" for s t
    using that(2)
  proof
    assume "shutdown_step env s t"
    with that(1) show ?thesis by (rule shutdown_inv_step)
  next
    assume "client_step s t"
    with that(1) show ?thesis by (elim client_stepE) simp
  qed
qed

section \<open>Progress\<close>

text \<open>How much is left to do: a bound on the steps of the daemon once the stop channel is closed.\<close>

definition shutdown_work :: "shutdown \<Rightarrow> nat" where
  "shutdown_work st = length (sd_todo st) + (if sd_recv st then 1 else 0) + (if sd_reading st then 4 else 0)
     + (case d_listener (sd_daemon st) of None \<Rightarrow> 0
        | Some l \<Rightarrow> (if l_pending l = None then 0 else 2) + length (l_messageChan l) + length (l_timeMessageChan l)
            + length (l_locationMessageChan l))
     + (if sd_disc st then 0 else 1) + (if sd_time st then 0 else 1) + (if sd_loc st then 0 else 1)
     + (if sd_inflight st then 2 else 0) + sd_conns st"

definition shutdown_complete :: "shutdown \<Rightarrow> bool" where
  "shutdown_complete st \<longleftrightarrow> sd_todo st = [] \<and> \<not> sd_recv st \<and> \<not> sd_inflight st \<and> sd_conns st = 0
     \<and> (case d_listener (sd_daemon st) of None \<Rightarrow> True
        | Some l \<Rightarrow> sd_closed st \<and> sd_disc st \<and> l_messageChan l = []
            \<and> (sv_timeSync (sd_daemon st) \<noteq> None \<longrightarrow> sd_time st \<and> l_timeMessageChan l = [])
            \<and> (sv_locationStore (sd_daemon st) \<noteq> None \<longrightarrow> sd_loc st \<and> l_locationMessageChan l = []))"

lemma work_decreases:
  assumes "shutdown_inv st" and "sd_stopped st" and "shutdown_step env st st'"
  shows "shutdown_work st' < shutdown_work st"
  using assms(3)
proof cases
  case (sd_main act rest)
  then show ?thesis by (simp add: shutdown_work_def)
next
  case (sd_check l)
  with assms(2) show ?thesis by (simp add: shutdown_work_def)
next
  case (sd_read l now datagram l' del)
  obtain f where l': "l' = l\<lparr>l_duplicateFilter := f\<rparr>" using receive_frame [OF sd_read(5)] by blast
  from sd_read(1-4) assms(1) show ?thesis by (simp add: shutdown_work_def l')
next
  case (sd_send l del l')
  then show ?thesis by (cases del) (auto simp: shutdown_work_def split: if_splits)
next
  case (sd_send_closed l del)
  with assms(1) show ?thesis by (simp add: shutdown_inv_def)
next
  case (sd_drop l del)
  then show ?thesis by (simp add: shutdown_work_def split: delivery.split)
next
  case (sd_answer now query d' rsp)
  with query_listener [OF sd_answer(3)] show ?thesis by (simp add: shutdown_work_def)
qed (simp_all add: shutdown_work_def handleDiscoveryMessage_def)

text \<open>A state in which the daemon can do nothing more is complete.\<close>

lemma stuck_complete:
  assumes "shutdown_inv st" and "sd_stopped st" and stuck: "\<And>st'. \<not> shutdown_step env st st'"
  shows "shutdown_complete st"
proof -
  have recv: "\<not> sd_recv st"
  proof
    assume r: "sd_recv st"
    then obtain l where l: "d_listener (sd_daemon st) = Some l" using assms(1) by (auto simp: shutdown_inv_def split: option.splits)
    show False
      using stuck sd_read_error [OF r, of env] sd_check [OF r _ l, of env] sd_drop [OF r l _ assms(2), of _ env]
      by (cases "sd_reading st"; cases "l_pending l") auto
  qed
  have conns: "sd_conns st = 0" using stuck sd_hangup [of st env] by auto
  have inflight: "\<not> sd_inflight st" using stuck sd_admit [of st env] sd_reject [of st env] by blast
  have todo: "sd_todo st = []"
  proof (cases "sd_todo st")
    case (Cons act rest)
    have "action_ready act st" using recv conns by (simp add: action_ready_def split: shutdown_action.split)
    with Cons stuck sd_main show ?thesis by blast
  qed simp
  show ?thesis
  proof (cases "d_listener (sd_daemon st)")
    case None
    then show ?thesis using recv conns inflight todo by (simp add: shutdown_complete_def)
  next
    case (Some l)
    then have inv: "sd_closed st" "sd_disc st \<Longrightarrow> l_messageChan l = []" "sd_time st \<Longrightarrow> l_timeMessageChan l = []"
      "sd_loc st \<Longrightarrow> l_locationMessageChan l = []" using assms(1) todo by (auto simp: shutdown_inv_def)
    have "sd_disc st" using stuck sd_message [OF _ Some, of _ _ env] sd_message_end [OF _ Some _ inv(1), of env]
      by (cases "l_messageChan l") blast+
    moreover have "sd_time st" if "sv_timeSync (sd_daemon st) = Some ts" for ts
      using stuck sd_timemsg [OF _ Some that, of _ _ env] sd_timemsg_end [OF _ Some _ _ inv(1), of env] that
      by (cases "l_timeMessageChan l") blast+
    moreover have "sd_loc st" if "sv_locationStore (sd_daemon st) = Some ls" for ls
      using stuck sd_location [OF _ Some that, of _ _ env] sd_location_end [OF _ Some _ inv(1), of env]
      by (cases "l_locationMessageChan l") blast+
    ultimately show ?thesis using Some inv recv conns inflight todo by (auto simp: shutdown_complete_def)
  qed
qed

section \<open>Properties\<close>

text \<open>C8: Shutting down is orderly and ends: in every interleaving of the main goroutine with the receiver, the readers
  and the clients, no message is ever sent to a closed channel. Once the stop channel is closed every step of the
  daemon leaves less to do, and the daemon can do nothing more only when every action of the shutdown is done, the
  receiver and all connections have ended and the readers have processed what was queued: no goroutine waits for
  ever. When the main goroutine has done its last action, with which the process ends, the receiver has ended and
  its channels are closed.\<close>

theorem shutdown_completes:
  assumes "(system_step env)\<^sup>*\<^sup>* (shutdown_init d conns reading) st"
  shows "\<not> sd_panicked st
    \<and> (sd_stopped st \<longrightarrow> (\<forall>st'. shutdown_step env st st' \<longrightarrow> shutdown_work st' < shutdown_work st)
         \<and> ((\<forall>st'. \<not> shutdown_step env st st') \<longrightarrow> shutdown_complete st))
    \<and> (sd_todo st = [] \<longrightarrow> \<not> sd_recv st \<and> (d_listener (sd_daemon st) \<noteq> None \<longrightarrow> sd_closed st))"
proof -
  have inv: "shutdown_inv st" using shutdown_ts.steps_inv [OF shutdown_inv_init assms] .
  moreover have "\<not> sd_panicked st" using inv by (simp add: shutdown_inv_def)
  moreover have "sd_todo st = [] \<longrightarrow> \<not> sd_recv st \<and> (d_listener (sd_daemon st) \<noteq> None \<longrightarrow> sd_closed st)"
    using inv by (auto simp: shutdown_inv_def split: option.splits)
  ultimately show ?thesis using work_decreases stuck_complete by blast
qed

theorem shutdown_completes_witness:
  "\<exists>(d :: Daemon) st st'. d_listener d \<noteq> None \<and> (shutdown_step demo_node)\<^sup>*\<^sup>* (shutdown_init d 2 True) st \<and> sd_stopped st
     \<and> \<not> sd_panicked st \<and> shutdown_step demo_node st st' \<and> shutdown_work st' < shutdown_work st"
proof -
  obtain d :: Daemon where d: "d_listener d = Some (demo_listener (Some demo_self) True)" using demo_init by blast
  let ?st = "\<lambda>todo stop. (shutdown_init d 2 True)\<lparr>sd_todo := todo, sd_stopped := stop\<rparr>"
  obtain rest where rest: "waitForShutdown d = NotifyStopping # LogInfo ''Received signal, shutting down'' # CloseStop # rest"
    by (simp add: waitForShutdown_def)
  have swap: "(shutdown_init d 2 True)\<lparr>sd_stopped := b, sd_todo := t\<rparr> = ?st t b" for t b by simp
  have "shutdown_init d 2 True = ?st (waitForShutdown d) False" by (simp add: shutdown_init_def)
  then have t1: "shutdown_step demo_node (shutdown_init d 2 True) (?st (tl (waitForShutdown d)) False)"
    using sd_main [of "shutdown_init d 2 True" NotifyStopping _ demo_node] rest
    by (simp add: shutdown_init_def action_ready_def do_action_def)
  have t2: "shutdown_step demo_node (?st (tl (waitForShutdown d)) False) (?st (CloseStop # rest) False)"
    using sd_main [of "?st (tl (waitForShutdown d)) False" "LogInfo ''Received signal, shutting down''" "CloseStop # rest" demo_node] rest
    by (simp add: swap action_ready_def do_action_def)
  have t3: "shutdown_step demo_node (?st (CloseStop # rest) False) (?st rest True)"
    using sd_main [of "?st (CloseStop # rest) False" CloseStop rest demo_node] by (simp add: action_ready_def do_action_def)
  have steps: "(shutdown_step demo_node)\<^sup>*\<^sup>* (shutdown_init d 2 True) (?st rest True)"
    by (rule converse_rtranclp_into_rtranclp [OF t1 converse_rtranclp_into_rtranclp [OF t2 r_into_rtranclp [of "shutdown_step demo_node", OF t3]]])
  have "(system_step demo_node)\<^sup>*\<^sup>* (shutdown_init d 2 True) (?st rest True)"
    using steps by (rule rtranclp_mono [THEN predicate2D, rotated]) blast
  from shutdown_completes [OF this] have "\<not> sd_panicked (?st rest True)"
    and dec: "\<And>st'. shutdown_step demo_node (?st rest True) st' \<Longrightarrow> shutdown_work st' < shutdown_work (?st rest True)" by simp_all
  moreover have h: "shutdown_step demo_node (?st rest True) ((?st rest True)\<lparr>sd_conns := sd_conns (?st rest True) - 1\<rparr>)"
    by (rule sd_hangup) (simp add: shutdown_init_def)
  ultimately show ?thesis using steps d dec [OF h] by (intro exI [of _ d] exI [of _ "?st rest True"] exI conjI) auto
qed

end
