(* ===== verification/Gps_Broadcaster.thy ===== *)
theory Gps_Broadcaster
  imports Broadcast
begin

text \<open>
  The GPS time source (\<^verbatim>\<open>cmd/gps-broadcaster/main.go\<close>): the parser of NMEA sentences, the
  schedule of broadcasts, the datagrams and the main loop as a function of its events. The
  network, the marshaller and \<^verbatim>\<open>fmt.Sscanf\<close> with \<^verbatim>\<open>%f\<close> are arguments, fields of
  \<open>gps_env\<close>. The program around it is in \<open>Gps_Main\<close>.
\<close>

record gps_env =
  gv_net :: net_env
  gv_marshal :: marshaller
  gv_send :: "udp_addr \<Rightarrow> string \<Rightarrow> string option"
  gv_scan_f :: "string \<Rightarrow> float64 option"

section \<open>Schedule\<close>

record BackoffManager =
  b_attempts :: int
  b_lastHasFix :: bool
  b_lastSats :: int
  b_lastInterval :: duration

definition NewBackoffManager :: BackoffManager where
  "NewBackoffManager = \<lparr>b_attempts = 0, b_lastHasFix = False, b_lastSats = 0, b_lastInterval = 0\<rparr>"

definition backoff_interval :: "int \<Rightarrow> duration" where
  "backoff_interval attempts =
     (if attempts \<le> 3 then 10 * Second
      else if attempts \<le> 6 then 30 * Second
      else if attempts \<le> 10 then 2 * Minute
      else if attempts \<le> 15 then 5 * Minute
      else if attempts \<le> 20 then 10 * Minute
      else if attempts \<le> 25 then 20 * Minute
      else if attempts \<le> 30 then 30 * Minute
      else Hour)"

definition NextInterval :: "bool \<Rightarrow> int \<Rightarrow> BackoffManager \<Rightarrow> BackoffManager \<times> duration" where
  "NextInterval hasFix sats b =
     (let signalImproved = (hasFix \<and> \<not> b_lastHasFix b) \<or> (sats > wrap64 (b_lastSats b + 2) \<and> sats > 0);
          b1 = b\<lparr>b_lastHasFix := hasFix, b_lastSats := sats\<rparr>
      in if hasFix then (b1\<lparr>b_attempts := 0, b_lastInterval := 16 * Second\<rparr>, 16 * Second)
         else let b2 = (if signalImproved then b1\<lparr>b_attempts := 0\<rparr> else b1);
                  b3 = b2\<lparr>b_attempts := wrap64 (b_attempts b2 + 1)\<rparr>;
                  i = backoff_interval (b_attempts b3)
         in (b3\<lparr>b_lastInterval := i\<rparr>, i))"

definition CurrentInterval :: "BackoffManager \<Rightarrow> duration" where
  "CurrentInterval b = b_lastInterval b"

section \<open>Sentences\<close>

record GPSReader =
  g_device :: string
  g_baudRate :: int
  g_hasFix :: bool
  g_gpsTime :: time
  g_satellites :: int

definition NewGPSReader :: "string \<Rightarrow> int \<Rightarrow> GPSReader" where
  "NewGPSReader device baudRate =
     \<lparr>g_device = device, g_baudRate = baudRate, g_hasFix = False, g_gpsTime = zero_time, g_satellites = 0\<rparr>"

text \<open>
  \<^verbatim>\<open>fmt.Sscanf(s, "%d", &n)\<close>: spaces are skipped (a line feed is an error), a sign and at least
  one digit are read, what follows is ignored, and a value out of range is an error.
\<close>

definition sscanf_d :: "string \<Rightarrow> int option" where
  "sscanf_d s =
     (let t = dropWhile (\<lambda>c. is_space c \<and> c \<noteq> CHR 0x0A) s;
          sign = (case t of c # _ \<Rightarrow> if c = CHR ''-'' \<or> c = CHR ''+'' then [c] else [] | [] \<Rightarrow> []);
          ds = takeWhile is_digit (drop (length sign) t)
      in case Atoi (sign @ ds) of (n, True) \<Rightarrow> Some n | (_, False) \<Rightarrow> None)"

text \<open>
  \<^verbatim>\<open>time.Date\<close> in UTC: months out of range carry into the year, the other parts into the next
  larger one, which is linear. The day count is the one of the proleptic Gregorian calendar.
\<close>

definition is_leap :: "int \<Rightarrow> bool" where
  "is_leap year \<longleftrightarrow> year mod 4 = 0 \<and> (year mod 100 \<noteq> 0 \<or> year mod 400 = 0)"

definition days_before_year :: "int \<Rightarrow> int" where
  "days_before_year year = (let y = year - 1 in 365 * y + y div 4 - y div 100 + y div 400)"

definition days_before_month :: "int list" where
  "days_before_month = [0, 31, 59, 90, 120, 151, 181, 212, 243, 273, 304, 334]"

definition time_Date :: "int \<Rightarrow> int \<Rightarrow> int \<Rightarrow> int \<Rightarrow> int \<Rightarrow> int \<Rightarrow> int \<Rightarrow> time" where
  "time_Date year month day hour minute sec nsec =
     (let m = (month - 1) mod 12; y = year + (month - 1) div 12;
          days = days_before_year y - days_before_year 1970 + days_before_month ! nat m
            + (if is_leap y \<and> m \<ge> 2 then 1 else 0) + (day - 1)
      in (((days * 24 + hour) * 60 + minute) * 60 + sec) * Second + nsec)"

definition parseGPSTime :: "(string \<Rightarrow> float64 option) \<Rightarrow> string \<Rightarrow> string \<Rightarrow> time option" where
  "parseGPSTime scan_f dateStr timeStr =
     (case sscanf_d (take 2 dateStr) of None \<Rightarrow> None | Some day \<Rightarrow>
     (case sscanf_d (take 2 (drop 2 dateStr)) of None \<Rightarrow> None | Some month \<Rightarrow>
     (case sscanf_d (take 2 (drop 4 dateStr)) of None \<Rightarrow> None | Some year \<Rightarrow>
     (case sscanf_d (take 2 timeStr) of None \<Rightarrow> None | Some hour \<Rightarrow>
     (case sscanf_d (take 2 (drop 2 timeStr)) of None \<Rightarrow> None | Some minute \<Rightarrow>
     (case scan_f (drop 4 timeStr) of None \<Rightarrow> None | Some second \<Rightarrow>
        let fullYear = (if year > 80 then 1900 + year else 2000 + year);
            isec = float_to_int64 second;
            nsec = float_to_int64 ((second - of_int isec) * 1000000000)
        in Some (time_Date fullYear month day hour minute isec nsec)))))))"

definition parseRMC :: "(string \<Rightarrow> float64 option) \<Rightarrow> string list \<Rightarrow> GPSReader \<Rightarrow> GPSReader" where
  "parseRMC scan_f fs g =
     (if length fs < 10 then g
      else if fs ! 2 \<noteq> ''A'' then g\<lparr>g_hasFix := False\<rparr>
      else let dateStr = fs ! 9; timeStr = fs ! 1
           in if length dateStr < 6 \<or> length timeStr < 6 then g
              else (case parseGPSTime scan_f dateStr timeStr of
                      None \<Rightarrow> g
                    | Some gpsTime \<Rightarrow> g\<lparr>g_hasFix := True, g_gpsTime := gpsTime\<rparr>))"

definition parseGGA :: "string list \<Rightarrow> GPSReader \<Rightarrow> GPSReader" where
  "parseGGA fs g =
     (if length fs < 8 then g
      else if fs ! 6 = ''0'' then g
      else g\<lparr>g_satellites := (case sscanf_d (fs ! 7) of None \<Rightarrow> 0 | Some sats \<Rightarrow> sats)\<rparr>)"

definition ParseNMEA :: "(string \<Rightarrow> float64 option) \<Rightarrow> string \<Rightarrow> GPSReader \<Rightarrow> GPSReader" where
  "ParseNMEA scan_f line g =
     (if length line < 6 \<or> \<not> HasPrefix line ''$'' then g
      else let fs = split_on CHR '','' line; sentence = fs ! 0
           in if sentence = ''$GPRMC'' \<or> sentence = ''$GNRMC'' then parseRMC scan_f fs g
              else if sentence = ''$GPGGA'' \<or> sentence = ''$GNGGA'' then parseGGA fs g
              else g)"

definition GetState :: "GPSReader \<Rightarrow> time \<times> bool \<times> int" where
  "GetState g = (g_gpsTime g, g_hasFix g, g_satellites g)"

section \<open>Datagrams\<close>

text \<open>
  A UDP socket: \<^verbatim>\<open>net.DialUDP\<close> gives one with a remote address, on which \<^verbatim>\<open>WriteTo\<close>
  always fails (\<^verbatim>\<open>net.ErrWriteToConnected\<close>). A write returns an error or the datagram sent.
\<close>

record UDPConn =
  uc_remote :: "udp_addr option"

definition conn_send :: "gps_env \<Rightarrow> udp_addr \<Rightarrow> string \<Rightarrow> string + udp_addr \<times> string" where
  "conn_send env addr data = (case gv_send env addr data of Some err \<Rightarrow> Inl err | None \<Rightarrow> Inr (addr, data))"

definition conn_Write :: "gps_env \<Rightarrow> UDPConn \<Rightarrow> string \<Rightarrow> string + udp_addr \<times> string" where
  "conn_Write env conn data =
     (case uc_remote conn of
        None \<Rightarrow> Inl ''destination address required''
      | Some addr \<Rightarrow> conn_send env addr data)"

definition conn_WriteTo :: "gps_env \<Rightarrow> UDPConn \<Rightarrow> string \<Rightarrow> udp_addr \<Rightarrow> string + udp_addr \<times> string" where
  "conn_WriteTo env conn data target =
     (if uc_remote conn \<noteq> None then Inl ''use of WriteTo with pre-connected connection''
      else conn_send env target data)"

record Broadcaster =
  br_broadcastAddr :: string
  br_interfaces :: "string list"
  br_sourceID :: string
  br_conn :: UDPConn

definition NewBroadcaster :: "net_env \<Rightarrow> (string + unit) \<Rightarrow> string \<Rightarrow> string \<Rightarrow> string list \<Rightarrow> string + Broadcaster" where
  "NewBroadcaster net dial broadcastAddr sourceID ifaces =
     (case ne_resolve net broadcastAddr of
        Inl err \<Rightarrow> Inl (''failed to resolve broadcast address: '' @ err)
      | Inr addr \<Rightarrow>
          (case dial of
             Inl err \<Rightarrow> Inl (''failed to create UDP connection: '' @ err)
           | Inr _ \<Rightarrow> Inr \<lparr>br_broadcastAddr = broadcastAddr, br_interfaces = ifaces, br_sourceID = sourceID,
                          br_conn = \<lparr>uc_remote = Some addr\<rparr>\<rparr>))"

text \<open>
  The message has the fields of the daemon's type except the signature, and the same JSON as the
  part of a time announcement that is signed.
\<close>

definition gps_message :: "Broadcaster \<Rightarrow> time \<Rightarrow> time \<Rightarrow> TimeAnnounceMessage" where
  "gps_message b now gpsTime =
     \<lparr>tam_Type = ''TIME_ANNOUNCE'', tam_MessageID = br_sourceID b @ ''-'' @ itoa (wrap64 now), tam_Timestamp = wrap64 gpsTime,
      tam_ClockInfo = \<lparr>ci_Stratum = 1, ci_Precision = - 20, ci_RootDelay = 0, ci_RootDispersion = 1 / 10000,
        ci_ReferenceID = ''GPS'', ci_ReferenceTime = wrap64 gpsTime\<rparr>,
      tam_LeapIndicator = 0, tam_SourceID = br_sourceID b, tam_Signature = None\<rparr>"

definition gps_iface_targets :: "gps_env \<Rightarrow> string list \<Rightarrow> string \<Rightarrow> net_Interface \<Rightarrow> udp_addr list" where
  "gps_iface_targets env interfaces port iface =
     (if if_Flags iface AND FlagUp = 0 \<or> if_Flags iface AND FlagLoopback \<noteq> 0 then []
      else if interfaces \<noteq> [] \<and> if_Name iface \<notin> set interfaces then []
      else case ne_Addrs (gv_net env) iface of
             Inl _ \<Rightarrow> []
           | Inr addrs \<Rightarrow> concat (map (addr_target (gv_net env) port) addrs))"

definition broadcastToInterfaces :: "gps_env \<Rightarrow> Broadcaster \<Rightarrow> string \<Rightarrow> (udp_addr \<times> string) list" where
  "broadcastToInterfaces env b data =
     (case SplitHostPort (br_broadcastAddr b) of
        Inl _ \<Rightarrow> []
      | Inr (_, port) \<Rightarrow>
          (case ne_Interfaces (gv_net env) of
             Inl _ \<Rightarrow> []
           | Inr ifaces \<Rightarrow>
               concat (map (\<lambda>target. case conn_WriteTo env (br_conn b) data target of Inl _ \<Rightarrow> [] | Inr dgram \<Rightarrow> [dgram])
                 (concat (map (gps_iface_targets env (br_interfaces b) port) ifaces)))))"

definition gps_Broadcast :: "gps_env \<Rightarrow> time \<Rightarrow> time \<Rightarrow> int \<Rightarrow> Broadcaster \<Rightarrow> string option \<times> (udp_addr \<times> string) list" where
  "gps_Broadcast env now gpsTime satellites b =
     (case gv_marshal env (signed_time_payload (gps_message b now gpsTime)) of
        Inl err \<Rightarrow> (Some (''failed to marshal message: '' @ err), [])
      | Inr data \<Rightarrow>
          (case conn_Write env (br_conn b) data of
             Inl err \<Rightarrow> (Some (''failed to broadcast: '' @ err), [])
           | Inr dgram \<Rightarrow> (None, dgram # broadcastToInterfaces env b data)))"

section \<open>Main loop\<close>

definition gps_source_id :: "string + string \<Rightarrow> string \<Rightarrow> string" where
  "gps_source_id hostname flag =
     (if flag = [] then (case hostname of Inl _ \<Rightarrow> ''gps-broadcaster'' | Inr h \<Rightarrow> h) else flag)"

definition gps_interfaces :: "string \<Rightarrow> string list" where
  "gps_interfaces flag = (if flag \<noteq> [] then split_on CHR '','' flag else [])"

text \<open>
  An event of the loop: a read tick, with the line read (\<open>None\<close> when the deadline cannot be set
  or the read fails), or the broadcast timer. A step returns the datagrams sent.
\<close>

datatype gps_event = ReadTick "string option" | BroadcastTimer time

record gps_state =
  gs_reader :: GPSReader
  gs_backoff :: BackoffManager
  gs_timer :: duration

definition gps_init :: "string \<Rightarrow> int \<Rightarrow> gps_state" where
  "gps_init device baud = \<lparr>gs_reader = NewGPSReader device baud, gs_backoff = NewBackoffManager, gs_timer = 10 * Second\<rparr>"

fun gps_step :: "gps_env \<Rightarrow> Broadcaster \<Rightarrow> gps_event \<Rightarrow> gps_state \<Rightarrow> gps_state \<times> (udp_addr \<times> string) list" where
  "gps_step env b (ReadTick None) s = (s, [])"
| "gps_step env b (ReadTick (Some line)) s =
     (s\<lparr>gs_reader := ParseNMEA (gv_scan_f env) (TrimSpace line) (gs_reader s)\<rparr>, [])"
| "gps_step env b (BroadcastTimer now) s =
     (let (gpsTime, hasFix, sats) = GetState (gs_reader s);
          sent = (if hasFix then snd (gps_Broadcast env now gpsTime sats b) else []);
          (backoff, nextInterval) = NextInterval hasFix sats (gs_backoff s)
      in (s\<lparr>gs_backoff := backoff, gs_timer := nextInterval\<rparr>, sent))"

fun gps_run :: "gps_env \<Rightarrow> Broadcaster \<Rightarrow> gps_event list \<Rightarrow> gps_state \<Rightarrow> gps_state \<times> (udp_addr \<times> string) list" where
  "gps_run env b [] s = (s, [])"
| "gps_run env b (e # es) s =
     (let (s1, sent) = gps_step env b e s; (s2, rest) = gps_run env b es s1 in (s2, sent @ rest))"

section \<open>Lemmas\<close>

subsection \<open>Calendar\<close>

text \<open>The calendar itself, by counting: the days of the years since 1970 and of the months before.\<close>

definition year_days :: "int \<Rightarrow> int" where
  "year_days y = (if is_leap y then 366 else 365)"

definition month_days :: "int \<Rightarrow> int \<Rightarrow> int" where
  "month_days y m = (if m = 2 then (if is_leap y then 29 else 28) else if m \<in> {4, 6, 9, 11} then 30 else 31)"

definition civil_days :: "nat \<Rightarrow> nat \<Rightarrow> int \<Rightarrow> int" where
  "civil_days y m d = (\<Sum>y' \<leftarrow> [1970..<y]. year_days (int y')) + (\<Sum>m' \<leftarrow> [1..<m]. month_days (int y) (int m')) + d - 1"

lemma div_step: "(x::int) div k = (x - 1) div k + (if x mod k = 0 then 1 else 0)" if "k > 1"
proof (cases "x mod k = 0")
  case True
  then obtain j where "x = k * j" by (auto elim: dvdE simp: mod_eq_0_iff_dvd)
  moreover have "(k * j - 1) div k = j - 1" by (rule int_div_pos_eq [where r = "k - 1"]) (use that in \<open>auto simp: algebra_simps\<close>)
  ultimately show ?thesis using that by simp
next
  case False
  have "(x - 1) div k = x div k"
    by (rule int_div_pos_eq [where r = "x mod k - 1"])
       (use that False pos_mod_bound [of k x] pos_mod_sign [of k x] mult_div_mod_eq [of k x] in linarith)+
  with False show ?thesis by simp
qed

lemma year_arith:
  "n = 365 * y + a - b + c \<Longrightarrow> p = 365 * (y - 1) + a' - b' + c' \<Longrightarrow> l = 365 + i - j + k \<Longrightarrow>
   a = a' + i \<Longrightarrow> b = b' + j \<Longrightarrow> c = c' + k \<Longrightarrow> n = p + l" for n :: int
  by simp

lemma days_before_year_Suc: "days_before_year (y + 1) = days_before_year y + year_days y"
proof -
  have d: "y div 4 = (y - 1) div 4 + (if y mod 4 = 0 then 1 else 0)"
    "y div 100 = (y - 1) div 100 + (if y mod 100 = 0 then 1 else 0)"
    "y div 400 = (y - 1) div 400 + (if y mod 400 = 0 then 1 else 0)"
    by (rule div_step, simp)+
  have m: "y mod 100 = 0 \<Longrightarrow> y mod 4 = 0" "y mod 400 = 0 \<Longrightarrow> y mod 100 = 0" by presburger+
  have "days_before_year (y + 1) = 365 * y + y div 4 - y div 100 + y div 400" by (simp add: days_before_year_def)
  moreover have "days_before_year y = 365 * (y - 1) + (y - 1) div 4 - (y - 1) div 100 + (y - 1) div 400"
    by (simp add: days_before_year_def Let_def)
  moreover have "year_days y = 365 + (if y mod 4 = 0 then 1 else 0) - (if y mod 100 = 0 then 1 else 0) + (if y mod 400 = 0 then 1 else 0)"
  proof -
    define A B C where "A = (y mod 4 = 0)" and "B = (y mod 100 = 0)" and "C = (y mod 400 = 0)"
    have "B \<longrightarrow> A" "C \<longrightarrow> B" unfolding A_def B_def C_def using m by blast+
    moreover have "year_days y = (if A \<and> (\<not> B \<or> C) then 366 else 365)"
      by (simp only: year_days_def is_leap_def A_def B_def C_def)
    ultimately have "year_days y = 365 + (if A then 1 else 0) - (if B then 1 else 0) + (if C then 1 else 0)"
      by (cases A; cases B; cases C) simp_all
    then show ?thesis unfolding A_def B_def C_def .
  qed
  ultimately show ?thesis using d by (rule year_arith)
qed

lemma days_before_year_count:
  "1970 \<le> y \<Longrightarrow> days_before_year (int y) - days_before_year 1970 = (\<Sum>y' \<leftarrow> [1970..<y]. year_days (int y'))"
proof (induction y rule: nat_induct_at_least)
  case (Suc n)
  then show ?case using days_before_year_Suc [of "int n"] by (simp add: algebra_simps)
qed simp

lemma months_count:
  assumes "1 \<le> m" "m \<le> 12"
  shows "days_before_month ! (m - 1) + (if is_leap y \<and> 2 < m then 1 else 0) = (\<Sum>m' \<leftarrow> [1..<m]. month_days y (int m'))"
proof -
  have "m = 1 \<or> m = 2 \<or> m = 3 \<or> m = 4 \<or> m = 5 \<or> m = 6 \<or> m = 7 \<or> m = 8 \<or> m = 9 \<or> m = 10 \<or> m = 11 \<or> m = 12"
    using assms by presburger
  then show ?thesis by (cases "is_leap y"; elim disjE) (simp_all add: days_before_month_def month_days_def upt_rec)
qed

lemma time_Date_civil:
  assumes "1970 \<le> y" and "1 \<le> m" "m \<le> 12"
  shows "time_Date (int y) (int m) d h mi s ns = (((civil_days y m d * 24 + h) * 60 + mi) * 60 + s) * Second + ns"
proof -
  have m: "(int m - 1) mod 12 = int m - 1" "(int m - 1) div 12 = 0" "nat (int m - 1) = m - 1" using assms(2,3) by auto
  have "days_before_year (int y) - days_before_year 1970 + days_before_month ! (m - 1)
      + (if is_leap (int y) \<and> int m - 1 \<ge> 2 then 1 else 0) + (d - 1) = civil_days y m d"
    using days_before_year_count [OF assms(1)] months_count [OF assms(2,3), of "int y"]
    by (auto simp: civil_days_def)
  then show ?thesis by (simp add: time_Date_def Let_def m)
qed

subsection \<open>Sentences\<close>

text \<open>A number below 100 in two digits, as NMEA writes it.\<close>

definition two_digits :: "nat \<Rightarrow> string" where
  "two_digits n = [char_of (48 + n div 10), char_of (48 + n mod 10)]"

lemma sscanf_two_digits: "n < 100 \<Longrightarrow> sscanf_d (two_digits n) = Some (int n)"
proof -
  assume n: "n < 100"
  define a b where "a = n div 10" and "b = n mod 10"
  have ab: "a < 10" "b < 10" "n = 10 * a + b" using n by (auto simp: a_def b_def)
  let ?x = "char_of (48 + a) :: char" and ?y = "char_of (48 + b) :: char"
  have dg: "is_digit ?x" "is_digit ?y" "digit_val ?x = a" "digit_val ?y = b" using digit_char ab(1,2) by auto
  have sp: "\<not> is_space c \<and> c \<noteq> CHR ''-'' \<and> c \<noteq> CHR ''+''" if "is_digit c" for c
    using that by (auto simp: is_digit_def is_space_def)
  have "digits_val [?x, ?y] = n"
    using digits_val_snoc [of "[?x]" ?y] digits_val_snoc [of "[]" ?x] dg(3,4) ab(3) by (simp add: digits_val_def)
  then have "Atoi [?x, ?y] = (int n, True)"
    using dg(1,2) sp [OF dg(1)] n by (simp add: Atoi_def Let_def clamp64_def)
  then show ?thesis
    using dg(1,2) sp [OF dg(1)] by (simp add: sscanf_d_def two_digits_def Let_def a_def [symmetric] b_def [symmetric])
qed

lemma parse_civil:
  assumes "d < 100" "1 \<le> mo" "mo \<le> 12" "1981 \<le> y" "y \<le> 2080" "h < 100" "mi < 100"
    and "scan_f ss = Some sec" and "float_to_int64 sec = isec"
  shows "parseGPSTime scan_f (two_digits d @ two_digits mo @ two_digits (y mod 100)) (two_digits h @ two_digits mi @ ss)
    = Some ((((civil_days y mo (int d) * 24 + int h) * 60 + int mi) * 60 + isec) * Second
        + float_to_int64 ((sec - of_int isec) * 1000000000))"
proof -
  have "(if int (y mod 100) > 80 then 1900 + int (y mod 100) else 2000 + int (y mod 100)) = int y"
  proof (cases "y < 2000")
    case True
    then have "y mod 100 = y - 1900" using assms(4) by (simp add: mod_if)
    with True assms(4) show ?thesis by simp
  next
    case False
    then have "y mod 100 = y - 2000" using assms(5) by (simp add: mod_if)
    with False assms(5) show ?thesis by simp
  qed
  then have year: "80 < y mod 100 \<Longrightarrow> 1900 + int (y mod 100) = int y" "\<not> 80 < y mod 100 \<Longrightarrow> 2000 + int (y mod 100) = int y"
    by (auto simp del: of_nat_mod split: if_splits)
  have len: "length (two_digits n) = 2" for n by (simp add: two_digits_def)
  have "y mod 100 < 100" by simp
  then show ?thesis
    using assms time_Date_civil [of y mo "int d" "int h" "int mi" isec]
    by (simp only: parseGPSTime_def take_append drop_append len) (simp add: len sscanf_two_digits year Let_def)
qed

subsection \<open>Schedule\<close>

text \<open>
  The schedule as a function of the history of polls, newest first: the number of polls without a
  fix since the last one that had a fix, or since the one at which the signal improved.
\<close>

fun previous_sats :: "(bool \<times> int) list \<Rightarrow> int" where
  "previous_sats [] = 0"
| "previous_sats ((_, s) # h) = s"

fun quiet_polls :: "(bool \<times> int) list \<Rightarrow> nat" where
  "quiet_polls [] = 0"
| "quiet_polls ((True, _) # h) = 0"
| "quiet_polls ((False, s) # h) = (if s > previous_sats h + 2 \<and> s > 0 then 1 else Suc (quiet_polls h))"

definition backoff_after :: "(bool \<times> int) list \<Rightarrow> BackoffManager" where
  "backoff_after h = foldr (\<lambda>(hasFix, sats) b. fst (NextInterval hasFix sats b)) h NewBackoffManager"

lemma backoff_after_simps [simp]:
  "backoff_after [] = NewBackoffManager"
  "backoff_after ((hasFix, sats) # h) = fst (NextInterval hasFix sats (backoff_after h))"
  by (simp_all add: backoff_after_def)

lemma quiet_polls_le: "quiet_polls h \<le> length h"
  by (induction h rule: quiet_polls.induct) auto

lemma backoff_after_history:
  assumes "\<forall>p \<in> set h. - (2 ^ 62) \<le> snd p \<and> snd p < 2 ^ 62" and "length h < 2 ^ 62"
  shows "b_attempts (backoff_after h) = int (quiet_polls h) \<and> b_lastSats (backoff_after h) = previous_sats h"
  using assms
proof (induction h)
  case (Cons p h)
  obtain hasFix s where p: "p = (hasFix, s)" by (cases p)
  have "- (2 ^ 62) \<le> previous_sats h \<and> previous_sats h < 2 ^ 62" using Cons.prems(1) by (cases h) auto
  then have "wrap64 (previous_sats h + 2) = previous_sats h + 2" by (intro wrap64_id) simp
  moreover have "wrap64 (int (quiet_polls h) + 1) = int (quiet_polls h) + 1"
    using quiet_polls_le [of h] Cons.prems(2) by (intro wrap64_id) simp
  moreover have "wrap64 1 = 1" by (simp add: wrap64_def)
  moreover have "b_attempts (backoff_after h) = int (quiet_polls h) \<and> b_lastSats (backoff_after h) = previous_sats h"
    using Cons by simp
  ultimately show ?case by (cases hasFix) (simp_all add: p NextInterval_def Let_def)
qed (simp add: NewBackoffManager_def)

lemma backoff_interval_list:
  assumes "1 \<le> n"
  shows "backoff_interval (int n) = (if n \<le> 30 then (replicate 3 10 @ replicate 3 30 @ replicate 4 (2 * 60) @ replicate 5 (5 * 60)
      @ replicate 5 (10 * 60) @ replicate 5 (20 * 60) @ replicate 5 (30 * 60)) ! (n - 1) else 60 * 60) * 1000000000"
proof -
  have "backoff_interval (int n) = 60 * 60 * 1000000000" if "\<not> n \<le> 30" using that by (simp add: backoff_interval_def)
  moreover have "backoff_interval (int n) = (replicate 3 10 @ replicate 3 30 @ replicate 4 (2 * 60) @ replicate 5 (5 * 60)
      @ replicate 5 (10 * 60) @ replicate 5 (20 * 60) @ replicate 5 (30 * 60)) ! (n - 1) * 1000000000" if "n \<le> 30"
    using assms that by (auto simp: backoff_interval_def nth_append)
  ultimately show ?thesis by simp
qed

subsection \<open>Runs\<close>

text \<open>The time that a line gives as a fix, if it is such a sentence.\<close>

definition fix_of :: "(string \<Rightarrow> float64 option) \<Rightarrow> string \<Rightarrow> time option" where
  "fix_of scan_f line =
     (let g = ParseNMEA scan_f (TrimSpace line) (NewGPSReader [] 0) in if g_hasFix g then Some (g_gpsTime g) else None)"

lemma parse_fix:
  "g_hasFix (ParseNMEA scan_f (TrimSpace line) g) \<Longrightarrow>
   fix_of scan_f line = Some (g_gpsTime (ParseNMEA scan_f (TrimSpace line) g))
   \<or> g_hasFix g \<and> g_gpsTime (ParseNMEA scan_f (TrimSpace line) g) = g_gpsTime g"
  by (auto simp: fix_of_def ParseNMEA_def parseRMC_def parseGGA_def NewGPSReader_def Let_def split: if_splits option.splits)

lemma connected_interfaces: "uc_remote (br_conn b) = Some addr \<Longrightarrow> broadcastToInterfaces env b data = []"
  by (simp add: broadcastToInterfaces_def conn_WriteTo_def split: sum.split prod.split)

lemma gps_Broadcast_sent:
  assumes "uc_remote (br_conn b) = Some addr" and "dgram \<in> set (snd (gps_Broadcast env now t sats b))"
  shows "fst dgram = addr \<and> gv_marshal env (signed_time_payload (gps_message b now t)) = Inr (snd dgram)"
  using assms by (auto simp: gps_Broadcast_def connected_interfaces conn_Write_def conn_send_def split: sum.splits option.splits)

lemma NewBroadcaster_conn: "NewBroadcaster net dial addr src ifs = Inr b \<Longrightarrow> \<exists>a. ne_resolve net addr = Inr a \<and> uc_remote (br_conn b) = Some a"
  by (auto simp: NewBroadcaster_def split: sum.splits)

text \<open>What a run sends, given that the fix the reader starts with comes from a sentence in \<open>L\<close>.\<close>

lemma gps_run_sound:
  assumes "uc_remote (br_conn b) = Some addr"
    and "g_hasFix (gs_reader s) \<Longrightarrow> \<exists>line \<in> L. fix_of (gv_scan_f env) line = Some (g_gpsTime (gs_reader s))"
    and "dgram \<in> set (snd (gps_run env b es s))"
  shows "\<exists>now line t. BroadcastTimer now \<in> set es \<and> line \<in> L \<union> {l. ReadTick (Some l) \<in> set es}
    \<and> fix_of (gv_scan_f env) line = Some t \<and> fst dgram = addr
    \<and> gv_marshal env (signed_time_payload (gps_message b now t)) = Inr (snd dgram)"
  using assms(2,3)
proof (induction es arbitrary: s L)
  case (Cons e es)
  obtain s1 sent where st: "gps_step env b e s = (s1, sent)" by (cases "gps_step env b e s")
  obtain s2 rest where rn: "gps_run env b es s1 = (s2, rest)" by (cases "gps_run env b es s1")
  let ?L = "L \<union> {l. e = ReadTick (Some l)}"
  have fix1: "g_hasFix (gs_reader s1) \<Longrightarrow> \<exists>line \<in> ?L. fix_of (gv_scan_f env) line = Some (g_gpsTime (gs_reader s1))"
    using Cons.prems(1) st parse_fix
    by (cases "(env, b, e, s)" rule: gps_step.cases) (fastforce simp: GetState_def Let_def split_beta)+
  from Cons.prems(2) st rn consider "dgram \<in> set sent" | "dgram \<in> set rest" by auto
  then show ?case
  proof cases
    case 1
    then obtain now where e: "e = BroadcastTimer now" "g_hasFix (gs_reader s)"
        "dgram \<in> set (snd (gps_Broadcast env now (g_gpsTime (gs_reader s)) (g_satellites (gs_reader s)) b))"
      using st by (cases "(env, b, e, s)" rule: gps_step.cases) (auto simp: GetState_def Let_def split_beta split: if_splits)
    from gps_Broadcast_sent [OF assms(1) e(3)] Cons.prems(1) [OF e(2)] e(1) show ?thesis by fastforce
  next
    case 2
    with rn Cons.IH [OF fix1] show ?thesis by fastforce
  qed
qed simp

text \<open>The timer events of a run.\<close>

fun timers :: "gps_event list \<Rightarrow> time list" where
  "timers [] = []"
| "timers (BroadcastTimer now # es) = now # timers es"
| "timers (ReadTick _ # es) = timers es"

lemma frozen_run:
  assumes "uc_remote (br_conn b) = Some addr" and "g_hasFix (gs_reader s)"
    and "\<forall>e \<in> set es. \<nexists>line. e = ReadTick (Some line)"
    and "\<And>data. gv_send env addr data = None" and "\<And>j. gv_marshal env j = Inr (enc j)"
  shows "snd (gps_run env b es s) =
    map (\<lambda>now. (addr, enc (signed_time_payload (gps_message b now (g_gpsTime (gs_reader s)))))) (timers es)"
  using assms(2,3)
proof (induction es arbitrary: s)
  case (Cons e es)
  show ?case
  proof (cases e)
    case (ReadTick l)
    with Cons.prems(2) have "l = None" by (cases l) auto
    with ReadTick Cons show ?thesis by (simp add: split_beta)
  next
    case (BroadcastTimer now)
    let ?s1 = "fst (gps_step env b (BroadcastTimer now) s)"
    have "gs_reader ?s1 = gs_reader s" by (simp add: Let_def split_beta)
    with Cons.IH [of ?s1] Cons.prems BroadcastTimer assms(1,4,5) show ?thesis
      by (simp add: Let_def split_beta GetState_def gps_Broadcast_def conn_Write_def conn_send_def connected_interfaces)
  qed
qed simp

section \<open>Properties\<close>

text \<open>C30: A valid recommended-minimum sentence sets the reader's time to exactly the civil time it states, for
  every date from 1981 to 2080: the day number, computed from the leap-year formula and the month table, is
  the one obtained by counting the days of the years and months.\<close>

theorem gps_time_exact:
  assumes "10 \<le> length fs" and "fs ! 2 = ''A''"
    and "fs ! 9 = two_digits d @ two_digits mo @ two_digits (y mod 100)" and "fs ! 1 = two_digits h @ two_digits mi @ ss"
    and "1 \<le> d" "d \<le> 31" "1 \<le> mo" "mo \<le> 12" "1981 \<le> y" "y \<le> 2080" "h < 24" "mi < 60" "sec < 60"
    and "2 \<le> length ss" and "scan_f ss = Some (of_nat sec)"
  shows "parseRMC scan_f fs g = g\<lparr>g_hasFix := True,
    g_gpsTime := (((civil_days y mo (int d) * 24 + int h) * 60 + int mi) * 60 + int sec) * Second\<rparr>"
proof -
  have i: "float_to_int64 (of_nat sec) = int sec" and n: "float_to_int64 0 = 0"
    using assms(13) by (simp_all add: float_to_int64_def float_trunc_def Let_def)
  have "parseGPSTime scan_f (fs ! 9) (fs ! 1) =
      Some ((((civil_days y mo (int d) * 24 + int h) * 60 + int mi) * 60 + int sec) * Second)"
    using parse_civil [of d mo y h mi scan_f ss "of_nat sec" "int sec"] assms i n by simp
  moreover have "length (fs ! 9) = 6" "length (fs ! 1) \<ge> 6" using assms(3,4,14) by (simp_all add: two_digits_def)
  ultimately show ?thesis using assms(1,2) by (simp add: parseRMC_def Let_def)
qed

theorem gps_time_exact_witness:
  "g_gpsTime (parseRMC (\<lambda>_. Some 7) [''$GPRMC'', two_digits 12 @ two_digits 30 @ ''07'', ''A'', [], [], [], [], [], [],
      two_digits 29 @ two_digits 2 @ two_digits 24] (NewGPSReader [] 9600))
   = (((civil_days 2024 2 29 * 24 + 12) * 60 + 30) * 60 + 7) * Second"
  using gps_time_exact [of "[''$GPRMC'', two_digits 12 @ two_digits 30 @ ''07'', ''A'', [], [], [], [], [], [],
      two_digits 29 @ two_digits 2 @ two_digits 24]" 29 2 2024 12 30 "''07''" 7 "\<lambda>_. Some 7"] by simp

text \<open>C32: The pause before the next broadcast follows the announced schedule 10s, 30s, 2m, 5m, 10m, 20m, 30m, 1h:
  16 seconds while there is a fix; otherwise, in the polls since the fix was lost or the signal improved, three
  times 10 seconds, three times 30 seconds, four times 2 minutes, five times each 5, 10, 20 and 30 minutes, and one
  hour from the thirty-first poll on. This holds in every history of polls with satellite counts between \<open>- 2 ^ 62\<close>
  and \<open>2 ^ 62\<close>, beyond which the comparison of two counts may wrap.\<close>

theorem backoff_schedule:
  assumes "\<forall>p \<in> set ((hasFix, sats) # h). - (2 ^ 62) \<le> snd p \<and> snd p < 2 ^ 62" and "length h + 1 < 2 ^ 62"
    and "NextInterval hasFix sats (backoff_after h) = (b, i)"
    and "pauses = replicate 3 10 @ replicate 3 30 @ replicate 4 (2 * 60) @ replicate 5 (5 * 60) @ replicate 5 (10 * 60)
      @ replicate 5 (20 * 60) @ replicate 5 (30 * 60)"
    and "n = quiet_polls ((hasFix, sats) # h)"
  shows "(hasFix \<longrightarrow> i = 16 * 1000000000)
    \<and> (\<not> hasFix \<longrightarrow> 1 \<le> n \<and> i = (if n \<le> 30 then pauses ! (n - 1) else 60 * 60) * 1000000000)
    \<and> CurrentInterval b = i"
proof -
  have "b_attempts b = int n"
    using backoff_after_history [of "(hasFix, sats) # h"] assms by simp
  moreover have "i = (if hasFix then 16 * Second else backoff_interval (b_attempts b)) \<and> CurrentInterval b = i"
    using assms(3) by (auto simp: NextInterval_def CurrentInterval_def Let_def split: if_splits)
  moreover have "1 \<le> n" if "\<not> hasFix" using that assms(5) by simp
  ultimately show ?thesis using backoff_interval_list [of n] unfolding assms(4) by simp
qed

theorem backoff_schedule_witness:
  "\<exists>b. NextInterval False 3 (backoff_after [(False, 3), (False, 3), (False, 3), (False, 3), (False, 3), (False, 3), (True, 3)]) = (b, 2 * Minute)"
proof -
  obtain b i where ni: "NextInterval False 3 (backoff_after [(False, 3), (False, 3), (False, 3), (False, 3), (False, 3), (False, 3), (True, 3)]) = (b, i)"
    by (cases "NextInterval False 3 (backoff_after [(False, 3), (False, 3), (False, 3), (False, 3), (False, 3), (False, 3), (True, 3)])")
  have "i = 2 * Minute"
    using backoff_schedule [OF _ _ ni refl refl] by (simp del: backoff_after_simps add: nth_append)
  with ni show ?thesis by blast
qed

text \<open>The broadcaster never invents a time: every datagram of every run goes to the configured address and
  carries the time of a sentence with a valid fix that was read before. (None goes to the interface broadcast
  addresses: the socket is connected, and writing to another address fails on it.)\<close>

theorem gps_broadcasts_received_fixes:
  assumes "NewBroadcaster net dial addr src ifs = Inr b"
    and "dgram \<in> set (snd (gps_run env b es (gps_init device baud)))"
  shows "\<exists>now line t. BroadcastTimer now \<in> set es \<and> ReadTick (Some line) \<in> set es
    \<and> fix_of (gv_scan_f env) line = Some t \<and> ne_resolve net addr = Inr (fst dgram)
    \<and> gv_marshal env (signed_time_payload (gps_message b now t)) = Inr (snd dgram)"
proof -
  obtain a where a: "ne_resolve net addr = Inr a" "uc_remote (br_conn b) = Some a" using NewBroadcaster_conn [OF assms(1)] by blast
  have "\<not> g_hasFix (gs_reader (gps_init device baud))" by (simp add: gps_init_def NewGPSReader_def)
  with gps_run_sound [OF a(2) _ assms(2), of "{}"] a(1) show ?thesis by auto
qed

text \<open>A receiver, a network and a run in which one sentence is read and the timer fires twice.\<close>

definition demo_gps :: gps_env where
  "demo_gps = \<lparr>gv_net = demo_env, gv_marshal = demo_marshal, gv_send = (\<lambda>_ _. None), gv_scan_f = (\<lambda>_. Some 7)\<rparr>"

definition demo_sentence :: string where
  "demo_sentence = ''$GPRMC,123007,A,,,,,,,290224''"

lemma demo_broadcaster:
  "NewBroadcaster demo_env (Inr ()) ''255.255.255.255:5354'' ''gps'' []
     = Inr \<lparr>br_broadcastAddr = ''255.255.255.255:5354'', br_interfaces = [], br_sourceID = ''gps'',
            br_conn = \<lparr>uc_remote = Some ([255, 255, 255, 255], 5354)\<rparr>\<rparr>"
  by (simp add: NewBroadcaster_def demo_env_def)

lemma demo_reader: "g_hasFix (ParseNMEA (\<lambda>_. Some 7) (TrimSpace demo_sentence) (NewGPSReader [] 9600))"
  by code_simp

lemma demo_step:
  "g_hasFix (gs_reader (fst (gps_step demo_gps b (ReadTick (Some demo_sentence)) (gps_init [] 9600))))"
  using demo_reader by (simp add: gps_init_def demo_gps_def)

theorem gps_broadcasts_received_fixes_witness:
  "\<exists>b dgram t. dgram \<in> set (snd (gps_run demo_gps b [ReadTick (Some demo_sentence), BroadcastTimer 5] (gps_init [] 9600)))
     \<and> fix_of (\<lambda>_. Some 7) demo_sentence = Some t \<and> fst dgram = ([255, 255, 255, 255], 5354)"
proof -
  let ?b = "\<lparr>br_broadcastAddr = ''255.255.255.255:5354'', br_interfaces = [], br_sourceID = ''gps'',
            br_conn = \<lparr>uc_remote = Some ([255, 255, 255, 255], 5354)\<rparr>\<rparr>"
  let ?d = "(([255, 255, 255, 255], 5354), ''hello'')"
  have d: "?d \<in> set (snd (gps_run demo_gps ?b [ReadTick (Some demo_sentence), BroadcastTimer 5] (gps_init [] 9600)))"
    using demo_reader
    by (simp add: gps_init_def demo_gps_def GetState_def Let_def split_beta gps_Broadcast_def demo_marshal_def conn_Write_def conn_send_def)
  from gps_broadcasts_received_fixes [OF demo_broadcaster d] obtain t where "fix_of (\<lambda>_. Some 7) demo_sentence = Some t"
    by (auto simp: demo_gps_def)
  with d show ?thesis by (intro exI [of _ ?b] exI [of _ ?d]) simp
qed

text \<open>A fix is never given up when the receiver falls silent: as long as no line is read, every broadcast,
  however late, repeats the time of the last sentence as the current time.\<close>

theorem silent_receiver_freezes_time:
  assumes "NewBroadcaster net dial addr src ifs = Inr b" and "ne_resolve net addr = Inr a"
    and "g_hasFix (gs_reader s)" and "\<forall>e \<in> set es. \<nexists>line. e = ReadTick (Some line)"
    and "\<And>data. gv_send env a data = None" and "\<And>j. gv_marshal env j = Inr (enc j)"
  shows "snd (gps_run env b es s) =
    map (\<lambda>now. (a, enc (signed_time_payload (gps_message b now (g_gpsTime (gs_reader s)))))) (timers es)"
  using frozen_run [of b a s es env enc] NewBroadcaster_conn [OF assms(1)] assms(2-) by simp

theorem silent_receiver_freezes_time_witness:
  "\<exists>b s. g_hasFix (gs_reader s) \<and> snd (gps_run demo_gps b [BroadcastTimer 5, ReadTick None, BroadcastTimer (9 * Hour)] s)
     = map (\<lambda>now. (([255, 255, 255, 255], 5354), ''hello'')) [5, 9 * Hour]"
proof -
  let ?b = "\<lparr>br_broadcastAddr = ''255.255.255.255:5354'', br_interfaces = [], br_sourceID = ''gps'',
            br_conn = \<lparr>uc_remote = Some ([255, 255, 255, 255], 5354)\<rparr>\<rparr>"
  let ?s = "fst (gps_step demo_gps ?b (ReadTick (Some demo_sentence)) (gps_init [] 9600))"
  have "snd (gps_run demo_gps ?b [BroadcastTimer 5, ReadTick None, BroadcastTimer (9 * Hour)] ?s)
     = map (\<lambda>now. (([255, 255, 255, 255], 5354),
         (\<lambda>_. ''hello'') (signed_time_payload (gps_message ?b now (g_gpsTime (gs_reader ?s))))))
         (timers [BroadcastTimer 5, ReadTick None, BroadcastTimer (9 * Hour)])"
    by (rule silent_receiver_freezes_time [OF demo_broadcaster])
       (use demo_step in \<open>simp_all add: demo_gps_def demo_marshal_def demo_env_def\<close>)
  with demo_step show ?thesis by (intro exI [of _ ?b] exI [of _ ?s]) simp
qed

end
