(* ===== verification/Gps_Main.thy ===== *)
theory Gps_Main
  imports Go_Flags Gps_Broadcaster
begin

text \<open>
  The program around the GPS broadcaster (\<^verbatim>\<open>cmd/gps-broadcaster/main.go\<close>): its flags, the serial
  device read line by line through a buffer, the verbose output, and the main loop on the bytes that the
  device delivers. The state and the datagrams are those of \<open>gps_step\<close>.
\<close>

section \<open>Flags\<close>

record gps_flags =
  gpf_device :: string
  gpf_baudRate :: int
  gpf_broadcast :: string
  gpf_sourceID :: string
  gpf_interfaces :: string
  gpf_verbose :: bool

definition default_gps_flags :: gps_flags where
  "default_gps_flags = \<lparr>gpf_device = ''/dev/ttyACM0'', gpf_baudRate = 9600, gpf_broadcast = ''255.255.255.255:5354'',
     gpf_sourceID = [], gpf_interfaces = [], gpf_verbose = False\<rparr>"

definition gps_flag_set :: "(string \<Rightarrow> string + int) \<Rightarrow> string \<rightharpoonup> gps_flags go_flag" where
  "gps_flag_set parse_int = map_of [(''device'', string_flag (\<lambda>x v. v\<lparr>gpf_device := x\<rparr>)),
     (''baud'', int_flag parse_int (\<lambda>n v. v\<lparr>gpf_baudRate := n\<rparr>)),
     (''broadcast'', string_flag (\<lambda>x v. v\<lparr>gpf_broadcast := x\<rparr>)),
     (''id'', string_flag (\<lambda>x v. v\<lparr>gpf_sourceID := x\<rparr>)),
     (''interfaces'', string_flag (\<lambda>x v. v\<lparr>gpf_interfaces := x\<rparr>)),
     (''v'', bool_flag (\<lambda>b v. v\<lparr>gpf_verbose := b\<rparr>))]"

section \<open>Serial device\<close>

text \<open>
  The reads that the device will answer, each with bytes or with an error (the passing of the read deadline
  among them); when none is left every read runs into its deadline. \<^verbatim>\<open>ReadString\<close> of the buffered
  reader reads until the buffer holds a line feed; what is in the buffer when an error comes is returned with
  the error, and \<^verbatim>\<open>ReadLine\<close> drops it.
\<close>

type_synonym reads = "(string + string) list"

fun ReadString :: "reads \<Rightarrow> string \<Rightarrow> reads \<times> string \<times> string option" where
  "ReadString reads buf =
     (if CHR 0x0A \<in> set buf
      then (reads, tl (dropWhile (\<lambda>c. c \<noteq> CHR 0x0A) buf), Some (takeWhile (\<lambda>c. c \<noteq> CHR 0x0A) buf @ nl))
      else (case reads of
              [] \<Rightarrow> ([], [], None)
            | Inl err # rest \<Rightarrow> (rest, [], None)
            | Inr data # rest \<Rightarrow> ReadString rest (buf @ data)))"

definition ReadLine :: "reads \<Rightarrow> string \<Rightarrow> reads \<times> string \<times> string option" where
  "ReadLine reads buf = (case ReadString reads buf of (rest, buf1, r) \<Rightarrow> (rest, buf1, map_option TrimSpace r))"

definition Gps_Open :: "(string \<Rightarrow> string option) \<Rightarrow> GPSReader \<Rightarrow> string option" where
  "Gps_Open openFile g = map_option (\<lambda>err. ''failed to open '' @ g_device g @ '': '' @ err) (openFile (g_device g))"

section \<open>Start\<close>

text \<open>
  The system: opening the device, the host name, the socket, the text of the flag package, and times
  formatted as hours, minutes and seconds and with the date and the zone.
\<close>

record gps_os =
  gos_openFile :: "string \<Rightarrow> string option"
  gos_hostname :: "string + string"
  gos_dial :: "string + unit"
  gos_quote :: "string \<Rightarrow> string"
  gos_usage :: string
  gos_parse_int :: "string \<Rightarrow> string + int"
  gos_clock :: "time \<Rightarrow> string"
  gos_datetime :: "time \<Rightarrow> string"

record gps_main_state =
  gms_core :: gps_state
  gms_reads :: reads
  gms_buf :: string
  gms_lastLoggedFix :: bool
  gms_checkCount :: int

datatype gps_start = GpsExit int | GpsRunning gps_flags Broadcaster gps_main_state

definition gps_banner :: "gps_flags \<Rightarrow> string \<Rightarrow> written" where
  "gps_banner v sourceID =
     (if gpf_verbose v then
        print_line ''GPS Broadcaster starting...''
        @ print_line (''  Device: '' @ gpf_device v)
        @ print_line (''  Source ID: '' @ sourceID)
        @ print_line (''  Broadcast: '' @ gpf_broadcast v)
        @ print_line ''  Backoff: 10s -> 30s -> 2m -> 5m -> 10m -> 20m -> 30m -> 1h''
      else [])"

definition gps_program :: "gps_env \<Rightarrow> gps_os \<Rightarrow> reads \<Rightarrow> string list \<Rightarrow> written \<times> gps_start" where
  "gps_program env os reads args =
     (case parse_flags (gos_quote os) (gps_flag_set (gos_parse_int os)) args default_gps_flags of
        Inl err \<Rightarrow> (case flag_exit (gos_usage os) err of (out, status) \<Rightarrow> (out, GpsExit status))
      | Inr (v, _) \<Rightarrow>
          let sourceID = gps_source_id (gos_hostname os) (gpf_sourceID v);
              ifaces = gps_interfaces (gpf_interfaces v);
              out = gps_banner v sourceID
          in case Gps_Open (gos_openFile os) (NewGPSReader (gpf_device v) (gpf_baudRate v)) of
               Some err \<Rightarrow> (out @ print_err (''Error opening GPS device: '' @ err), GpsExit 1)
             | None \<Rightarrow>
                 (case NewBroadcaster (gv_net env) (gos_dial os) (gpf_broadcast v) sourceID ifaces of
                    Inl err \<Rightarrow> (out @ print_err (''Error creating broadcaster: '' @ err), GpsExit 1)
                  | Inr b \<Rightarrow>
                      (out, GpsRunning v b \<lparr>gms_core = gps_init (gpf_device v) (gpf_baudRate v), gms_reads = reads,
                         gms_buf = [], gms_lastLoggedFix = False, gms_checkCount = 0\<rparr>)))"

section \<open>Verbose output\<close>

text \<open>The failed writes to the broadcast addresses of the interfaces.\<close>

fun addr_failure :: "gps_env \<Rightarrow> UDPConn \<Rightarrow> string \<Rightarrow> string \<Rightarrow> net_addr \<Rightarrow> written" where
  "addr_failure env conn data port (IPNet ip msk) =
     (case To4 ip of
        None \<Rightarrow> []
      | Some ip4 \<Rightarrow>
          if length msk = 4 then
            (case ne_resolve (gv_net env) (ip4_String (broadcast_ip ip4 msk) @ '':'' @ port) of
               Inl _ \<Rightarrow> []
             | Inr target \<Rightarrow>
                 (case conn_WriteTo env conn data target of
                    Inl err \<Rightarrow> print_line (''Broadcast to '' @ ip4_String (broadcast_ip ip4 msk) @ '' failed: '' @ err)
                  | Inr _ \<Rightarrow> []))
          else [])"
| "addr_failure env conn data port _ = []"

definition iface_failures :: "gps_env \<Rightarrow> Broadcaster \<Rightarrow> string \<Rightarrow> written" where
  "iface_failures env b data =
     (case SplitHostPort (br_broadcastAddr b) of
        Inl _ \<Rightarrow> []
      | Inr (_, port) \<Rightarrow>
          (case ne_Interfaces (gv_net env) of
             Inl _ \<Rightarrow> []
           | Inr ifaces \<Rightarrow>
               concat (map (\<lambda>iface.
                 if if_Flags iface AND FlagUp = 0 \<or> if_Flags iface AND FlagLoopback \<noteq> 0 then []
                 else if br_interfaces b \<noteq> [] \<and> if_Name iface \<notin> set (br_interfaces b) then []
                 else case ne_Addrs (gv_net env) iface of
                        Inl _ \<Rightarrow> []
                      | Inr addrs \<Rightarrow> concat (map (addr_failure env (br_conn b) data port) addrs)) ifaces)))"

text \<open>The change of the fix, which is remembered only in verbose mode, and the outcome of a broadcast.\<close>

definition log_fix :: "gps_os \<Rightarrow> bool \<Rightarrow> time \<Rightarrow> bool \<Rightarrow> int \<Rightarrow> bool \<Rightarrow> bool \<times> written" where
  "log_fix os verbose now hasFix sats lastLoggedFix =
     (if hasFix \<and> \<not> lastLoggedFix \<and> verbose
      then (True, print_line (gos_clock os now @ '': GPS fix acquired (sats: '' @ itoa sats @ '')''))
      else if \<not> hasFix \<and> lastLoggedFix \<and> verbose then (False, print_line (gos_clock os now @ '': GPS fix lost''))
      else (lastLoggedFix, []))"

definition log_broadcast :: "gps_env \<Rightarrow> gps_os \<Rightarrow> time \<Rightarrow> time \<Rightarrow> int \<Rightarrow> Broadcaster \<Rightarrow> written" where
  "log_broadcast env os now gpsTime sats b =
     (case gps_Broadcast env now gpsTime sats b of
        (Some err, _) \<Rightarrow> print_line (gos_clock os now @ '': Broadcast error: '' @ err)
      | (None, sent) \<Rightarrow>
          iface_failures env b (snd (hd sent))
          @ print_line (gos_clock os now @ '': Broadcast GPS time '' @ gos_datetime os gpsTime @ '' (offset: ''
              @ fixed_text 3 (of_int (time_Sub now gpsTime) / 1000000000) @ ''s, sats: '' @ itoa sats @ '')''))"

section \<open>Main loop\<close>

text \<open>An event: the read tick, with the error of setting the deadline if any, or the broadcast timer.\<close>

datatype main_event = Tick "string option" | Timer time

text \<open>What the tick reads, as the event of \<open>gps_step\<close>.\<close>

definition gps_tick :: "gps_main_state \<Rightarrow> gps_main_state \<times> gps_event" where
  "gps_tick s =
     (case ReadString (gms_reads s) (gms_buf s) of
        (reads, buf, line) \<Rightarrow> (s\<lparr>gms_reads := reads, gms_buf := buf\<rparr>, ReadTick line))"

fun gps_main_step :: "gps_env \<Rightarrow> gps_os \<Rightarrow> gps_flags \<Rightarrow> Broadcaster \<Rightarrow> main_event \<Rightarrow> gps_main_state
    \<Rightarrow> gps_main_state \<times> (udp_addr \<times> string) list \<times> written" where
  "gps_main_step env os v b (Tick (Some err)) s =
     (s, [], if gpf_verbose v then print_line (''Failed to set GPS read deadline: '' @ err) else [])"
| "gps_main_step env os v b (Tick None) s =
     (let (s1, e) = gps_tick s; (core, sent) = gps_step env b e (gms_core s1) in (s1\<lparr>gms_core := core\<rparr>, sent, []))"
| "gps_main_step env os v b (Timer now) s =
     (let (gpsTime, hasFix, sats) = GetState (gs_reader (gms_core s));
          (lastLogged, out) = log_fix os (gpf_verbose v) now hasFix sats (gms_lastLoggedFix s);
          (core, sent) = gps_step env b (BroadcastTimer now) (gms_core s)
      in (s\<lparr>gms_core := core, gms_lastLoggedFix := lastLogged, gms_checkCount := wrap64 (gms_checkCount s + 1)\<rparr>, sent,
          out @ (if hasFix \<and> gpf_verbose v then log_broadcast env os now gpsTime sats b else [])))"

fun gps_main_run :: "gps_env \<Rightarrow> gps_os \<Rightarrow> gps_flags \<Rightarrow> Broadcaster \<Rightarrow> main_event list \<Rightarrow> gps_main_state
    \<Rightarrow> gps_main_state \<times> (udp_addr \<times> string) list \<times> written" where
  "gps_main_run env os v b [] s = (s, [], [])"
| "gps_main_run env os v b (e # es) s =
     (let (s1, sent, out) = gps_main_step env os v b e s; (s2, sent2, out2) = gps_main_run env os v b es s1
      in (s2, sent @ sent2, out @ out2))"

section \<open>Lemmas\<close>

declare ReadString.simps [simp del]

text \<open>The bytes that the device delivers.\<close>

definition bytes :: "reads \<Rightarrow> string" where
  "bytes reads = concat (map (case_sum (\<lambda>_. []) id) reads)"

lemma bytes_simps [simp]:
  "bytes [] = []" "bytes (Inl err # reads) = bytes reads" "bytes (Inr data # reads) = data @ bytes reads"
  by (simp_all add: bytes_def)

lemma bytes_chunks [simp]: "bytes (map Inr chunks) = concat chunks"
  by (induction chunks) simp_all

lemma ReadString_line: "CHR 0x0A \<notin> set x \<Longrightarrow> ReadString reads (x @ CHR 0x0A # rest) = (reads, rest, Some (x @ nl))"
proof -
  assume x: "CHR 0x0A \<notin> set x"
  then have "takeWhile (\<lambda>c. c \<noteq> CHR 0x0A) (x @ CHR 0x0A # rest) = x" "dropWhile (\<lambda>c. c \<noteq> CHR 0x0A) (x @ CHR 0x0A # rest) = CHR 0x0A # rest"
    by (induction x) auto
  then show ?thesis by (subst ReadString.simps) simp
qed

lemma ReadString_more:
  "CHR 0x0A \<notin> set buf \<Longrightarrow> ReadString [] buf = ([], [], None)"
  "CHR 0x0A \<notin> set buf \<Longrightarrow> ReadString (Inl err # reads) buf = (reads, [], None)"
  "CHR 0x0A \<notin> set buf \<Longrightarrow> ReadString (Inr data # reads) buf = ReadString reads (buf @ data)"
  by (simp_all add: ReadString.simps [of _ buf])

text \<open>A line of a text, with its line feed, and the bytes that a state still has to read lines from.\<close>

definition line_in :: "string \<Rightarrow> string \<Rightarrow> bool" where
  "line_in line text \<longleftrightarrow> (\<exists>pre x post. text = pre @ line @ post \<and> line = x @ nl \<and> CHR 0x0A \<notin> set x)"

definition stream :: "gps_main_state \<Rightarrow> string" where
  "stream s = gms_buf s @ bytes (gms_reads s)"

lemma line_in_suffix: "line_in line text \<Longrightarrow> line_in line (pre @ text)"
  by (auto simp: line_in_def) (metis append.assoc)

text \<open>What a read returns is a line of the bytes, and what it leaves is a suffix of them.\<close>

lemma ReadString_pieces:
  assumes "ReadString reads buf = (rest, buf', r)"
  shows "\<exists>pre. buf @ bytes reads = pre @ buf' @ bytes rest" and "r = Some line \<Longrightarrow> line_in line (buf @ bytes reads)"
proof -
  have "(\<exists>pre. buf @ bytes reads = pre @ buf' @ bytes rest) \<and> (r = Some line \<longrightarrow> line_in line (buf @ bytes reads))"
    using assms
  proof (induction reads arbitrary: buf)
    case Nil
    show ?case
    proof (cases "CHR 0x0A \<in> set buf")
      case True
      then obtain x y where "buf = x @ CHR 0x0A # y" "CHR 0x0A \<notin> set x" using split_list_first by metis
      with Nil show ?thesis by (fastforce simp: ReadString_line line_in_def)
    qed (use Nil in \<open>simp add: ReadString_more\<close>)
  next
    case (Cons a reads)
    show ?case
    proof (cases "CHR 0x0A \<in> set buf")
      case True
      then obtain x y where "buf = x @ CHR 0x0A # y" "CHR 0x0A \<notin> set x" using split_list_first by metis
      with Cons.prems show ?thesis by (fastforce simp: ReadString_line line_in_def)
    next
      case False
      then show ?thesis using Cons.prems Cons.IH [of "buf @ _"] by (cases a) (auto simp: ReadString_more)
    qed
  qed
  then show "\<exists>pre. buf @ bytes reads = pre @ buf' @ bytes rest" "r = Some line \<Longrightarrow> line_in line (buf @ bytes reads)" by blast+
qed

text \<open>A run of the program is a run of \<open>gps_step\<close> on the lines that it reads.\<close>

lemma gps_run_append:
  "gps_run env b es s = (s1, sent) \<Longrightarrow> gps_run env b es' s1 = (s2, sent') \<Longrightarrow> gps_run env b (es @ es') s = (s2, sent @ sent')"
  by (induction es arbitrary: s sent) (auto simp del: gps_step.simps split: prod.splits)

lemma main_step_core:
  assumes "gps_main_step env os v b e s = (s', sent, out)"
  shows "\<exists>es'. gps_run env b es' (gms_core s) = (gms_core s', sent) \<and> (\<forall>now. BroadcastTimer now \<in> set es' \<longrightarrow> e = Timer now)
    \<and> (\<forall>line. ReadTick (Some line) \<in> set es' \<longrightarrow> line_in line (stream s)) \<and> (\<exists>pre. stream s = pre @ stream s')"
proof (cases "(env, os, v, b, e, s)" rule: gps_main_step.cases)
  case (1 env os v b err s)
  with assms show ?thesis by (intro exI [of _ "[]"]) auto
next
  case (2 env os v b s)
  obtain rest buf r where rd: "ReadString (gms_reads s) (gms_buf s) = (rest, buf, r)" by (cases "ReadString (gms_reads s) (gms_buf s)")
  with assms 2 ReadString_pieces [OF rd] show ?thesis
    by (intro exI [of _ "[ReadTick r]"]) (auto simp: gps_tick_def stream_def simp del: gps_step.simps split: prod.splits)
next
  case (3 env os v b now s)
  with assms show ?thesis
    by (intro exI [of _ "[BroadcastTimer now]"]) (auto simp: stream_def simp del: gps_step.simps split: prod.splits)
qed

lemma main_run_core:
  assumes "gps_main_run env os v b es s = (s', sent, out)"
  shows "\<exists>es'. gps_run env b es' (gms_core s) = (gms_core s', sent) \<and> (\<forall>now. BroadcastTimer now \<in> set es' \<longrightarrow> Timer now \<in> set es)
    \<and> (\<forall>line. ReadTick (Some line) \<in> set es' \<longrightarrow> line_in line (stream s))"
  using assms
proof (induction es arbitrary: s sent out)
  case Nil
  then show ?case by (intro exI [of _ "[]"]) simp
next
  case (Cons e es)
  obtain s1 sent1 out1 sent2 out2 where st: "gps_main_step env os v b e s = (s1, sent1, out1)"
    and rn: "gps_main_run env os v b es s1 = (s', sent2, out2)" and sent: "sent = sent1 @ sent2"
    using Cons.prems by (auto split: prod.splits)
  obtain es1 pre where es1: "gps_run env b es1 (gms_core s) = (gms_core s1, sent1)" "\<forall>now. BroadcastTimer now \<in> set es1 \<longrightarrow> e = Timer now"
    "\<forall>line. ReadTick (Some line) \<in> set es1 \<longrightarrow> line_in line (stream s)" and pre: "stream s = pre @ stream s1"
    using main_step_core [OF st] by blast
  obtain es2 where es2: "gps_run env b es2 (gms_core s1) = (gms_core s', sent2)"
    "\<forall>now. BroadcastTimer now \<in> set es2 \<longrightarrow> Timer now \<in> set es" "\<forall>line. ReadTick (Some line) \<in> set es2 \<longrightarrow> line_in line (stream s1)"
    using Cons.IH [OF rn] by blast
  show ?case
    using gps_run_append [OF es1(1) es2(1)] es1 es2 pre sent by (intro exI [of _ "es1 @ es2"]) (auto intro: line_in_suffix)
qed

text \<open>Trimming a line with and without its line feed.\<close>

lemma TrimSpace_nl: "TrimSpace (x @ nl) = TrimSpace x"
proof (cases "list_all is_space x")
  case True
  then have "dropWhile is_space (x @ nl) = []" "dropWhile is_space x = []" by (auto simp: is_space_def list_all_iff)
  then show ?thesis by (simp only: TrimSpace_def)
next
  case False
  then obtain c where "c \<in> set x" "\<not> is_space c" by (auto simp: list_all_iff)
  then have "dropWhile is_space (x @ nl) = dropWhile is_space x @ nl" by (rule dropWhile_append1)
  moreover have "is_space CHR 0x0A" by (simp add: is_space_def)
  ultimately show ?thesis by (simp add: TrimSpace_def)
qed

text \<open>Successive reads, and the lines of a text.\<close>

fun read_lines :: "nat \<Rightarrow> reads \<Rightarrow> string \<Rightarrow> string option list" where
  "read_lines 0 reads buf = []"
| "read_lines (Suc n) reads buf = (case ReadLine reads buf of (rest, buf1, r) \<Rightarrow> r # read_lines n rest buf1)"

lemma ReadString_chunks:
  assumes "CHR 0x0A \<in> set (buf @ concat chunks)"
  shows "\<exists>chunks' buf' x. ReadString (map Inr chunks) buf = (map Inr chunks', buf', Some (x @ nl)) \<and> CHR 0x0A \<notin> set x
    \<and> buf @ concat chunks = x @ CHR 0x0A # buf' @ concat chunks'"
  using assms
proof (induction chunks arbitrary: buf)
  case Nil
  then obtain x y where "buf = x @ CHR 0x0A # y" "CHR 0x0A \<notin> set x" using split_list_first by force
  then show ?case by (intro exI [of _ "[]"] exI [of _ y] exI [of _ x]) (simp add: ReadString_line)
next
  case (Cons c chunks)
  show ?case
  proof (cases "CHR 0x0A \<in> set buf")
    case True
    then obtain x y where "buf = x @ CHR 0x0A # y" "CHR 0x0A \<notin> set x" using split_list_first by metis
    then show ?thesis by (intro exI [of _ "c # chunks"] exI [of _ y] exI [of _ x]) (simp add: ReadString_line)
  next
    case False
    then show ?thesis using Cons.IH [of "buf @ c"] Cons.prems by (simp add: ReadString_more)
  qed
qed

lemma read_lines_chunks:
  "n < length (split_on CHR 0x0A (buf @ concat chunks)) \<Longrightarrow>
   read_lines n (map Inr chunks) buf = map (\<lambda>x. Some (TrimSpace x)) (take n (split_on CHR 0x0A (buf @ concat chunks)))"
proof (induction n arbitrary: chunks buf)
  case (Suc n)
  have "CHR 0x0A \<in> set (buf @ concat chunks)" using Suc.prems split_on_plain [of "CHR 0x0A" "buf @ concat chunks"] by fastforce
  from ReadString_chunks [OF this] obtain chunks' buf' x where r: "ReadString (map Inr chunks) buf = (map Inr chunks', buf', Some (x @ nl))"
    and x: "CHR 0x0A \<notin> set x" and whole: "buf @ concat chunks = x @ CHR 0x0A # buf' @ concat chunks'" by blast
  have sp: "split_on CHR 0x0A (buf @ concat chunks) = x # split_on CHR 0x0A (buf' @ concat chunks')"
    unfolding whole using x by (rule split_on_append)
  then show ?case using Suc.IH [of buf' chunks'] Suc.prems r by (simp add: ReadLine_def TrimSpace_nl)
qed simp

section \<open>Properties\<close>

text \<open>The lines do not depend on how the bytes arrive: if the device delivers its bytes without an error, in pieces of
  any size, then as many reads as there are line feeds return exactly the lines of the text, trimmed, in their order.\<close>

theorem serial_lines_exact:
  assumes "n < length (split_on CHR 0x0A (concat chunks))"
  shows "read_lines n (map Inr chunks) [] = map (\<lambda>x. Some (TrimSpace x)) (take n (split_on CHR 0x0A (concat chunks)))"
  using read_lines_chunks [of n "[]" chunks] assms by simp

theorem serial_lines_exact_witness:
  "read_lines 2 (map Inr [''$GP'', ''GGA'' @ nl @ ''$G'', ''NRMC,'' @ nl]) [] = [Some ''$GPGGA'', Some ''$GNRMC,'']"
proof -
  have "split_on CHR 0x0A (concat [''$GP'', ''GGA'' @ nl @ ''$G'', ''NRMC,'' @ nl]) = [''$GPGGA'', ''$GNRMC,'', []]" by simp
  moreover have "TrimSpace ''$GPGGA'' = ''$GPGGA''" "TrimSpace ''$GNRMC,'' = ''$GNRMC,''" by (simp_all add: TrimSpace_def is_space_def)
  ultimately show ?thesis using serial_lines_exact [of 2 "[''$GP'', ''GGA'' @ nl @ ''$G'', ''NRMC,'' @ nl]"] by simp
qed

text \<open>C31: The program never invents a time: whatever its arguments, whatever the device delivers and with whatever
  errors in between, every datagram of a run goes to the address of the \<^verbatim>\<open>-broadcast\<close> flag and carries the
  time of a sentence with a valid fix that stands, up to its line feed, in the bytes of the device.\<close>

theorem gps_times_from_device:
  assumes "gps_program env os reads args = (banner, GpsRunning v b s0)"
    and "gps_main_run env os v b es s0 = (s, sent, out)" and "dgram \<in> set sent"
  shows "\<exists>now line t pre post. Timer now \<in> set es \<and> bytes reads = pre @ line @ CHR 0x0A # post \<and> CHR 0x0A \<notin> set line
    \<and> fix_of (gv_scan_f env) line = Some t \<and> ne_resolve (gv_net env) (gpf_broadcast v) = Inr (fst dgram)
    \<and> gv_marshal env (signed_time_payload (gps_message b now t)) = Inr (snd dgram)"
proof -
  have b: "\<exists>src ifs. NewBroadcaster (gv_net env) (gos_dial os) (gpf_broadcast v) src ifs = Inr b"
    and s0: "gms_core s0 = gps_init (gpf_device v) (gpf_baudRate v)" "stream s0 = bytes reads"
    using assms(1) by (auto simp: gps_program_def Let_def stream_def split: sum.splits option.splits prod.splits)
  obtain a where a: "ne_resolve (gv_net env) (gpf_broadcast v) = Inr a" "uc_remote (br_conn b) = Some a" using b NewBroadcaster_conn by blast
  obtain es' where es': "gps_run env b es' (gms_core s0) = (gms_core s, sent)" "\<forall>now. BroadcastTimer now \<in> set es' \<longrightarrow> Timer now \<in> set es"
    "\<forall>line. ReadTick (Some line) \<in> set es' \<longrightarrow> line_in line (bytes reads)" using main_run_core [OF assms(2)] s0(2) by auto
  have "\<not> g_hasFix (gs_reader (gms_core s0))" by (simp add: s0 gps_init_def NewGPSReader_def)
  with gps_run_sound [OF a(2), of "gms_core s0" "{}" env dgram es'] assms(3) es'(1) obtain now line t
    where l: "BroadcastTimer now \<in> set es'" "ReadTick (Some line) \<in> set es'" "fix_of (gv_scan_f env) line = Some t" "fst dgram = a"
      "gv_marshal env (signed_time_payload (gps_message b now t)) = Inr (snd dgram)" by auto
  with es'(3) obtain pre x post where x: "bytes reads = pre @ line @ post" "line = x @ nl" "CHR 0x0A \<notin> set x" by (auto simp: line_in_def)
  moreover have "fix_of (gv_scan_f env) x = Some t" using l(3) by (simp add: fix_of_def x(2) TrimSpace_nl)
  ultimately show ?thesis using l a(1) es'(2) by auto
qed

definition demo_os :: gps_os where
  "demo_os = \<lparr>gos_openFile = (\<lambda>_. None), gos_hostname = Inr ''gps'', gos_dial = Inr (), gos_quote = id, gos_usage = [],
     gos_parse_int = (\<lambda>_. Inl []), gos_clock = (\<lambda>_. []), gos_datetime = (\<lambda>_. [])\<rparr>"

lemma demo_program:
  assumes "NewBroadcaster demo_env (Inr ()) ''255.255.255.255:5354'' ''gps'' [] = Inr b"
  shows "gps_program demo_gps demo_os reads [] = ([], GpsRunning default_gps_flags b
    \<lparr>gms_core = gps_init ''/dev/ttyACM0'' 9600, gms_reads = reads, gms_buf = [], gms_lastLoggedFix = False, gms_checkCount = 0\<rparr>)"
  unfolding gps_program_def parse_flags.simps sum.case prod.case Let_def
  by (simp add: assms default_gps_flags_def demo_os_def demo_gps_def gps_source_id_def gps_interfaces_def gps_banner_def Gps_Open_def)

lemma demo_acquired: "g_hasFix (ParseNMEA (\<lambda>_. Some 7) (TrimSpace demo_sentence) (NewGPSReader ''/dev/ttyACM0'' 9600))"
  by code_simp

theorem gps_times_from_device_witness:
  "\<exists>b s0 dgram line t. gps_program demo_gps demo_os [Inr (demo_sentence @ nl)] [] = ([], GpsRunning default_gps_flags b s0)
     \<and> dgram \<in> set (fst (snd (gps_main_run demo_gps demo_os default_gps_flags b [Tick None, Timer 5] s0)))
     \<and> fix_of (\<lambda>_. Some 7) line = Some t \<and> fst dgram = ([255, 255, 255, 255], 5354)"
proof -
  let ?b = "\<lparr>br_broadcastAddr = ''255.255.255.255:5354'', br_interfaces = [], br_sourceID = ''gps'',
            br_conn = \<lparr>uc_remote = Some ([255, 255, 255, 255], 5354)\<rparr>\<rparr>"
  let ?d = "(([255, 255, 255, 255], 5354), ''hello'')"
  let ?s0 = "\<lparr>gms_core = gps_init ''/dev/ttyACM0'' 9600, gms_reads = [Inr (demo_sentence @ nl)], gms_buf = [],
    gms_lastLoggedFix = False, gms_checkCount = 0\<rparr>"
  note p = demo_program [OF demo_broadcaster, of "[Inr (demo_sentence @ nl)]"]
  have "ReadString [Inr (demo_sentence @ nl)] [] = ([], [], Some (demo_sentence @ nl))"
    using ReadString_line [of demo_sentence "[]" "[]"] by (simp add: ReadString_more demo_sentence_def)
  then have d: "?d \<in> set (fst (snd (gps_main_run demo_gps demo_os default_gps_flags ?b [Tick None, Timer 5] ?s0)))"
    using demo_acquired
    by (simp add: gps_tick_def gps_init_def demo_gps_def GetState_def Let_def split_beta gps_Broadcast_def demo_marshal_def conn_Write_def
        conn_send_def TrimSpace_nl)
  obtain s sent out where run: "gps_main_run demo_gps demo_os default_gps_flags ?b [Tick None, Timer 5] ?s0 = (s, sent, out)"
    by (cases "gps_main_run demo_gps demo_os default_gps_flags ?b [Tick None, Timer 5] ?s0")
  with d have "?d \<in> set sent" by simp
  from gps_times_from_device [OF p run this] obtain line t where "fix_of (\<lambda>_. Some 7) line = Some t" by (auto simp: demo_gps_def)
  with p d show ?thesis by (intro exI [of _ ?b] exI [of _ ?s0] exI [of _ ?d]) auto
qed

text \<open>A sentence that the read deadline interrupts is lost: when the deadline passes while only the first part of a
  line has arrived, that part is dropped, and the rest, which no longer starts with a dollar sign, is ignored at the
  next tick. The state of the program is then as before, as if the sentence had not come.\<close>

theorem timeout_loses_sentence:
  assumes "gms_buf s = []" and "gms_reads s = Inr first # Inl err # Inr (second @ nl) # rest"
    and "CHR 0x0A \<notin> set (first @ second)" and "CHR ''$'' \<notin> set second"
  shows "gps_main_run env os v b [Tick None, Tick None] s = (s\<lparr>gms_reads := rest\<rparr>, [], [])"
proof -
  have "set (TrimSpace second) \<subseteq> set second" by (auto simp: TrimSpace_def dest!: set_dropWhileD [where P = is_space])
  then have "\<not> HasPrefix (TrimSpace (second @ nl)) ''$''"
    using assms(4) by (cases "TrimSpace second") (auto simp: HasPrefix_def TrimSpace_nl)
  then have "ParseNMEA scan (TrimSpace (second @ nl)) g = g" for scan g by (simp add: ParseNMEA_def)
  moreover have "ReadString (gms_reads s) (gms_buf s) = (Inr (second @ nl) # rest, [], None)"
    "ReadString (Inr (second @ nl) # rest) [] = (rest, [], Some (second @ nl))"
    using assms(1-3) ReadString_line [of second rest "[]"] by (simp_all add: ReadString_more)
  ultimately show ?thesis using assms(1) by (simp add: gps_tick_def)
qed

theorem timeout_loses_sentence_witness:
  "\<exists>b s. bytes (gms_reads s) = demo_sentence @ nl \<and> \<not> g_hasFix (gs_reader (gms_core s))
     \<and> \<not> g_hasFix (gs_reader (gms_core (fst (gps_main_run demo_gps demo_os default_gps_flags b [Tick None, Tick None] s))))"
proof -
  obtain b :: Broadcaster where True by simp
  let ?s = "\<lparr>gms_core = gps_init [] 9600, gms_reads = [Inr (take 5 demo_sentence), Inl ''timeout'', Inr (drop 5 demo_sentence @ nl)],
    gms_buf = [], gms_lastLoggedFix = False, gms_checkCount = 0\<rparr>"
  have "CHR 0x0A \<notin> set (take 5 demo_sentence @ drop 5 demo_sentence)" "CHR ''$'' \<notin> set (drop 5 demo_sentence)"
    by (simp_all only: append_take_drop_id) (simp_all add: demo_sentence_def)
  then have "gps_main_run demo_gps demo_os default_gps_flags b [Tick None, Tick None] ?s = (?s\<lparr>gms_reads := []\<rparr>, [], [])"
    by (intro timeout_loses_sentence [where err = "''timeout''" and first = "take 5 demo_sentence"]) simp_all
  then show ?thesis by (intro exI [of _ b] exI [of _ ?s]) (simp add: gps_init_def NewGPSReader_def)
qed

end
