(* ===== verification/Spec2Isabelle.thy ===== *)
theory Spec2Isabelle
  imports Network Cli_Listen Cli_Announce Daemon_Entry Goroutines Socket_File Shutdown Gps_Main
begin

text \<open>
  A verification development of disco, a name service for networks without infrastructure. A node
  runs a daemon that announces its host name, addresses and services by UDP broadcast, keeps a cache
  of what the other nodes announce, and serves the cache to local programs over a Unix socket and to
  the network over DNS. Announcements can be signed. Time announcements, for example of the GPS
  broadcaster, are combined into an adjustment of the clock.

  \<^bold>\<open>Parts and theories.\<close> The sources are the Go files under \<^verbatim>\<open>src/\<close>.

  \<^item> \<open>Disco_Prelude\<close>: Go's types as the components use them. A duration and an instant are integers
    of nanoseconds, a map is an association list (\<open>gomap\<close>, with \<open>gm_wf\<close> for distinct keys) whose order
    is the order of an iteration, integers are 64 bits wide with the wrap written out (\<open>wrap64\<close>),
    strings are lists of bytes. String functions of the standard library, the locale \<open>keyed_store\<close> of
    map laws and the locale \<open>transition_system\<close> for invariants of step relations.
  \<^item> \<open>Go_Float\<close>: the rounding of \<^verbatim>\<open>float64\<close> operations and a bound on its error.
  \<^item> \<open>Nss_Protocol\<close>: \<^verbatim>\<open>internal/nss/protocol.go\<close>; queries, responses, records.
  \<^item> \<open>Config\<close>: \<^verbatim>\<open>internal/config\<close>; the sections, loading, defaults, validation.
  \<^item> \<open>Record_Store\<close>: \<^verbatim>\<open>internal/daemon/store.go\<close>, \<^verbatim>\<open>health.go\<close>; the cache.
  \<^item> \<open>Rate_Limit\<close>: \<^verbatim>\<open>internal/discovery/ratelimit.go\<close>; token bucket, duplicate filter.
  \<^item> \<open>Signing\<close>: \<^verbatim>\<open>internal/security/signing.go\<close>, \<^verbatim>\<open>cmd/disco/internal/keys\<close>; keys, MACs.
  \<^item> \<open>Broadcast\<close>: \<^verbatim>\<open>internal/discovery/broadcast.go\<close>; announcer and listener.
  \<^item> \<open>Location_Store\<close>: \<^verbatim>\<open>internal/daemon/location_store.go\<close>.
  \<^item> \<open>Time_Sync\<close>: \<^verbatim>\<open>internal/timesync\<close>; sources, selection, adjustment, service.
  \<^item> \<open>Dns_Server\<close>: \<^verbatim>\<open>internal/dns/server.go\<close>.
  \<^item> \<open>Socket_Server\<close>: \<^verbatim>\<open>internal/daemon/socket.go\<close>; all query handlers.
  \<^item> \<open>Socket_File\<close>: the same file; the set-up of the server and the permissions of its socket.
  \<^item> \<open>Nss_Json\<close>: \<^verbatim>\<open>internal/nss/protocol.go\<close>; the encoding of messages as JSON values and their
    decoding, with \<open>Base64\<close> for byte slices.
  \<^item> \<open>Time_Client\<close>: \<^verbatim>\<open>internal/client/client.go\<close>.
  \<^item> \<open>Detector\<close>: \<^verbatim>\<open>internal/service/detector.go\<close>.
  \<^item> \<open>Daemon\<close>: \<^verbatim>\<open>internal/daemon/daemon.go\<close>; construction, handlers, the whole system.
  \<^item> \<open>Goroutines\<close>: the loops on a ticker that the daemon starts, each a run of \<open>daemon_step\<close>.
  \<^item> \<open>Shutdown\<close>: the same file and the \<^verbatim>\<open>Stop\<close> methods; the end of the goroutines.
  \<^item> \<open>Logging\<close>: \<^verbatim>\<open>internal/logging\<close>, \<^verbatim>\<open>internal/notify\<close>.
  \<^item> \<open>Startup\<close>, \<open>Daemon_Entry\<close>: \<^verbatim>\<open>cmd/daemon/main.go\<close>; from the arguments to the running daemon, with
    \<open>Go_Flags\<close> for the flag package of the standard library.
  \<^item> \<open>Gps_Broadcaster\<close>, \<open>Gps_Main\<close>: \<^verbatim>\<open>cmd/gps-broadcaster/main.go\<close>; sentences, schedule and
    datagrams, and the program that reads the serial device.
  \<^item> \<open>Cli\<close>, \<open>Cli_Announce\<close>: \<^verbatim>\<open>cmd/disco/internal/cli/validation.go\<close>, \<^verbatim>\<open>commands/announce.go\<close>.
  \<^item> \<open>Cli_Output\<close>, \<open>Cli_Client\<close>: \<^verbatim>\<open>cmd/disco/internal/cli/output.go\<close>, \<^verbatim>\<open>errors.go\<close>,
    \<^verbatim>\<open>client.go\<close>, \<^verbatim>\<open>commands/root.go\<close>; what the commands of the tool share.
  \<^item> \<open>Cli_Queries\<close>: the commands \<^verbatim>\<open>hosts\<close>, \<^verbatim>\<open>lookup\<close>, \<^verbatim>\<open>status\<close>, \<^verbatim>\<open>services\<close>,
    \<^verbatim>\<open>service\<close>, \<^verbatim>\<open>location\<close>, \<^verbatim>\<open>time\<close>, \<^verbatim>\<open>timeset\<close> and \<^verbatim>\<open>check\<close>;
    \<open>Cli_Ping\<close>, \<open>Cli_Listen\<close> and \<open>Cli_Admin\<close>: \<^verbatim>\<open>ping\<close>, \<^verbatim>\<open>listen\<close>, and \<^verbatim>\<open>key\<close>,
    \<^verbatim>\<open>config\<close> and \<^verbatim>\<open>start\<close>.
  \<^item> \<open>Daemon_Link\<close>, \<open>Cli_System\<close>: the daemon behind its socket as the commands meet it, and what the
    commands then do.
  \<^item> \<open>Network\<close>: from the announcer of one node to the lookup command on another.

  \<^bold>\<open>State and operations.\<close> A Go struct is a record with a prefix on its fields, a method a function
  from the old to the new record, an error a string in a sum or an option, a panic the value \<open>None\<close> (or
  a constructor of its own). The clock, the network, the file system, the kernel, randomness, HMAC and
  the encoders are arguments, so each definition evaluates on concrete inputs. A mutex makes an operation
  one step; goroutines that interleave are the rules of a step relation: \<open>store_step\<close> for the cache,
  \<open>listener_step\<close> for receiving, handing over and reading, \<open>conn_step\<close> for connections, \<open>daemon_step\<close>
  for the whole daemon, whose state extends the state that the socket server shares with it,
  \<open>shutdown_step\<close> for its end, and \<open>listen_step\<close> for the listen command. Go iterates over maps in random
  order: the relations have a step that reorders the lists of the store. A command of the tool is a function
  of its arguments, of a \<open>daemon_link\<close> (dialling, sending, and what the daemon answers to a JSON value) and
  of the daemon's state; it returns the new state, what it wrote and where to, and its exit code.

  \<^bold>\<open>Interfaces.\<close> \<open>name_cache\<close> (what a lookup returns after an announcement or a removal; interpreted on
  the record store), \<open>record_provider\<close> (what the DNS server relies on; interpreted on
  \<^verbatim>\<open>GetAllRecords\<close>), \<open>query_service\<close> (what a command relies on when it asks the daemon: the response that
  arrives is the one the daemon gave; interpreted on the socket of the daemon, for all queries in a typed state
  and for names in every state), \<open>slice_sorter\<close> (any sort by
  time stamp; interpreted on insertion sort), \<open>keyed_store\<close> (interpreted on the maps), \<open>transition_system\<close>
  (interpreted on the store, the configured hosts, the listener, the connections, the daemon, its typing,
  the daemon started by \<^verbatim>\<open>main\<close>, its shutdown and the listen command).

  \<^bold>\<open>What is shown.\<close>
  \<^item> Cache: the invariant of records and alias index in every interleaving; announcement and cleanup
    refine pointwise operations on a pair of maps; an announced name resolves until it expires, lookups
    return exactly the live record of the name or alias, configured hosts are always served.
  \<^item> Authenticity: with required signatures only messages with the MAC of a trusted peer reach the
    channels of the listener and, in the whole daemon, the answers; what the listen command calls verified
    is verified; which verifiers accept a signature and when; a verbatim copy is rejected except in one
    second that the two limits leave open; keys survive saving and loading.
  \<^item> Limits: the number of broadcasts in a window, the lifetime of a message identifier, the backoff.
  \<^item> Time: the search for agreeing sources is optimal, a selected time lies between stamps of enough
    agreeing sources up to the rounding of the mean, enough agreeing sources suffice, the clock is not set back without permission; the
    GPS time is the civil time of the sentence, every announced time stands in the bytes of the device, and
    its lines do not depend on how the bytes arrive.
  \<^item> Servers: every query has one answer with its identifier; a forgotten host is gone; service lists,
    address, pointer and service queries of DNS are exact; a service goes from the command line to DNS.
  \<^item> Discovery: a signed announcement that arrives leads to a state of the other daemon in which the lookup command
    there prints exactly the addresses that the announcer found.
  \<^item> Loops: the rounds of the announcer are bounded however its ticks fall, and a tick at which a record has
    expired removes it with its aliases.
  \<^item> Commands: queries and responses survive JSON; the accepted host names; lookup, show, forget, status, check and ping are characterised by the
    state of the daemon behind the socket; announce refines its specification; tables are aligned.
  \<^item> Start and end: a daemon that \<^verbatim>\<open>main\<close> has started keeps its validated configuration and answers
    every query and poll; the configurations that pass the validation and still panic are characterised;
    \<^verbatim>\<open>config validate\<close> predicts the start; what \<^verbatim>\<open>disco start\<close> hands over; the shutdown sends nothing to a
    closed channel and ends.
  \<^item> Deviations from what the code means to do are theorems as well: marking a host lost has no effect,
    the stamp of a signature is not authenticated, unread time messages stall the listener, exchanged public
    keys verify nothing, the time commands show nothing, an interrupted sentence is lost, and others.

  \<^bold>\<open>Bounds.\<close> No definition uses fuel: loops are recursion over the list they iterate, and a loop that
  runs until a signal is a step relation or a function of the list of its events. A \<^verbatim>\<open>float64\<close>
  is a rational. Selection and adjustment of the time round the result of each operation to 53 bits, ties to even,
  without the limits of the exponent, which are out of reach when dispersions are not negative, and without fusing a
  product with a sum, which Go permits on some architectures; the seconds of a sentence, coordinates and latencies are not rounded.
  Instants are unbounded integers; differences saturate or wrap as in
  Go. A datagram is cut at the 4096 bytes of the receive buffer, a channel holds 100 messages.

  \<^bold>\<open>Not modelled.\<close> Opening and closing sockets, files and the serial device: their results are given to the
  definitions. The text of JSON, YAML and DNS packets, which belongs
  to libraries; the socket between the commands and the daemon carries JSON values. Three details of timing: an
  announcement over the socket is one step, so that two of them do not overlap between the copy of the service list
  and the update of the store; of a panic at the start and a socket that fails at the same time, the panic wins; the
  shutdown covers the receiver, the readers, the connections and the actions of the main goroutine, not the tickers
  and the connections of the DNS server. The registration of commands and flags with the cobra library. The C module under
  \<^verbatim>\<open>libnss\<close>, firmware and test programs.

  \<^bold>\<open>This theory\<close> holds the properties that span the components: they are about the reachable states of
  \<open>daemon_step\<close> after \<^verbatim>\<open>New\<close> and \<^verbatim>\<open>Run\<close>.
\<close>

section \<open>A running daemon, for the witnesses\<close>

text \<open>The daemon after it has received, queued and handled the announcement of \<open>a\<close>.\<close>

lemma demo_announced:
  "\<exists>d0 d. daemon_init demo_node demo_new_env demo_config d0 \<and> (daemon_step demo_node)\<^sup>*\<^sup>* d0 d \<and> d_hostname d = ''b''
     \<and> (\<exists>r. Get (sv_store d) (1200 * Second) ''a'' = Some r \<and> \<not> r_IsStatic r \<and> r_Hostname r = ''a'')"
proof -
  let ?l = "demo_listener (Some demo_self) True"
  obtain d0 r0 where d0: "daemon_init demo_node demo_new_env demo_config d0" "d_listener d0 = Some ?l" "d_hostname d0 = ''b''"
    and store: "r_Hostname r0 = ''b''" "sv_store d0 = AddOrUpdate 0 r0 (NewRecordStore 0 demo_health demo_hosts)"
    using demo_init by blast
  have "Verify demo_mac (1200 * Second) demo_self ''hello'' (Some demo_signed)"
    using demo_signed_ok by (simp add: Verify_def)
  then have r: "snd (receive demo_dec demo_mac demo_marshal (1200 * Second) (read_datagram ''a-1'') ?l) = Some (DMsg demo_msg)"
    by (simp add: receive_def demo_dec_def demo_listener_def Seen_def NewDuplicateFilter_def signature_ok_def
        marshalled_def demo_marshal_def demo_msg_def buf_size_def is_digit_def)
  then obtain d where d: "(daemon_step demo_node)\<^sup>*\<^sup>* d0 d" "d_hostname d = ''b''"
    "sv_store d = AddOrUpdate (1200 * Second) (discovery_record demo_msg) (sv_store d0)"
    using accepted_message_stored [OF d0(2), of demo_node "1200 * Second" "''a-1''" demo_msg] d0(3)
    by (auto simp: demo_node_def demo_sock_env_def demo_listener_def)
  have "store_inv (sv_store d0)"
    using AddOrUpdate_inv [OF store_init_inv [of 0 demo_health demo_hosts]] by (simp add: store(2) store_init_def demo_hosts_def)
  moreover have "rs_healthTracker (sv_store d0) = NewHealthTracker demo_health demo_hosts"
    by (simp add: store(2) NewRecordStore_sel demo_hosts_def)
  moreover have "\<not> IsStatic (NewHealthTracker demo_health demo_hosts) ''a''" by (simp add: IsStatic_New demo_hosts_def)
  ultimately have "\<exists>r. Get (sv_store d) (1200 * Second) ''a'' = Some r \<and> \<not> r_IsStatic r \<and> r_Hostname r = ''a''"
    using store_get_announced(1) [of "sv_store d0" "discovery_record demo_msg" "1200 * Second" "1200 * Second"]
    by (simp add: d(3) demo_msg_def demo_new(5) time_Sub_def time_Unix_def unix_secs_def clamp64_def)
  with d0(1) d(1,2) show ?thesis by blast
qed

section \<open>Properties of the whole daemon\<close>

text \<open>C1: The daemon answers a name query for a configured host with exactly its configured addresses, in
  every state that any interleaving of datagrams, queries, cleanups, announcements, polls and scans can reach
  after its start: no announcement and no administrative command can take the name over.\<close>

theorem configured_host_answered:
  assumes "daemon_init env ne cfg d0" and "(daemon_step env)\<^sup>*\<^sup>* d0 d" and "map_of (c_StaticHosts cfg) h = Some sh"
  shows "handleQuery (nv_sock env) (Some (AnnounceService env now)) now
      (zero_Query\<lparr>q_Type := QueryByName, q_Name := h, q_RequestID := rid\<rparr>) d
    = Some (d, NewOKResponse rid h (sth_Addresses sh))"
proof -
  have "static_inv (c_StaticHosts cfg) (sv_store d)"
    by (rule system_ts.steps_inv [OF system_ts.inv_init [OF assms(1)] assms(2)])
  with assms(3) have "Get (sv_store d) now h = Some (static_record h sh)"
    by (simp add: static_inv_def Get_eq find_record_hostname live_def)
  then show ?thesis by (simp add: handleQuery_def handleQueryByName_def)
qed

theorem configured_host_answered_witness:
  "\<exists>d :: Daemon. handleQuery demo_sock_env (Some (AnnounceService demo_node 0)) 0
      (zero_Query\<lparr>q_Type := QueryByName, q_Name := ''printer'', q_RequestID := ''1''\<rparr>) d
    = Some (d, NewOKResponse ''1'' ''printer'' [''10.0.0.9''])"
proof -
  obtain d0 d where "daemon_init demo_node demo_new_env demo_config d0" "(daemon_step demo_node)\<^sup>*\<^sup>* d0 d"
    using demo_announced by blast
  from configured_host_answered [OF this, of "''printer''" "snd (hd demo_hosts)" 0 "''1''"] show ?thesis
    by (intro exI [of _ d]) (simp add: demo_config_def demo_hosts_def demo_node_def)
qed

text \<open>C2: With \<^verbatim>\<open>require_signed\<close>, whatever name is looked up in whatever reachable state, the record
  served is configured, or the daemon's own, or has the name and the addresses of an announcement whose
  signature verifies under the key of a trusted peer.\<close>

theorem served_names_are_vouched:
  assumes "daemon_init env ne cfg d0" and "(daemon_step env)\<^sup>*\<^sup>* d0 d" and "sec_RequireSigned (c_Security cfg)"
    and "Get (sv_store d) now n = Some r"
  shows "r_IsStatic r \<or> r_Hostname r = d_hostname d \<or>
    (\<exists>km m t. new_keys ne (c_Security cfg) = Inr (Some km)
       \<and> Verify (nv_mac env) t km (marshalled (nv_marshal env) (signed_payload m)) (bm_Signature m)
       \<and> bm_Hostname m = r_Hostname r \<and> elems (bm_IPs m) = r_Addresses r)"
proof -
  obtain t0 d00 t1 where n: "New ne t0 cfg = Inr d00" and "Run env (Inr ()) t1 d00 = Some (Inr d0)"
    using assms(1) by (auto simp: daemon_init_def)
  then have self: "ne_hostname ne = Inr (d_hostname d0)" using New_fields(1) [OF n] Run_Inr(2) by simp
  obtain km where keys: "new_keys ne (c_Security cfg) = Inr km" using New_fields(2) [OF n] by blast
  have "signed_daemon env km (d_hostname d0) d"
    by (rule signed_system.steps_inv [OF signed_system.inv_init [of env ne cfg] assms(2)])
       (use assms(1,3) keys self in blast)
  moreover obtain h where "map_of (rs_records (sv_store d)) h = Some r"
    using assms(4) by (auto simp: Get_eq dest: find_record_in split: option.splits if_splits)
  ultimately have "vouched env km (d_hostname d) r" by (auto simp: signed_daemon_def vouched_store_def)
  then show ?thesis using keys by (auto simp: vouched_def authentic_def)
qed

theorem served_names_are_vouched_witness:
  "\<exists>(d :: Daemon) r m t. Get (sv_store d) (1200 * Second) ''a'' = Some r \<and> bm_Hostname m = ''a''
     \<and> Verify demo_mac t demo_self (marshalled demo_marshal (signed_payload m)) (bm_Signature m)"
proof -
  obtain d0 d r where d: "daemon_init demo_node demo_new_env demo_config d0" "(daemon_step demo_node)\<^sup>*\<^sup>* d0 d"
    and r: "Get (sv_store d) (1200 * Second) ''a'' = Some r" "\<not> r_IsStatic r" "r_Hostname r = ''a''" "d_hostname d = ''b''"
    using demo_announced by blast
  have "sec_RequireSigned (c_Security demo_config)" by (simp add: demo_config_def)
  from served_names_are_vouched [OF d this r(1)] r(2-)
  obtain m t where "bm_Hostname m = ''a''"
    "Verify demo_mac t demo_self (marshalled demo_marshal (signed_payload m)) (bm_Signature m)"
    by (auto simp: demo_keys demo_node_def demo_sock_env_def)
  with r(1) show ?thesis by blast
qed

text \<open>A service that a local client announces over the socket resolves at once on the same node: after the
  accepted request each of its aliases that is not itself a host name resolves to the daemon's own host, until
  the record expires.\<close>

theorem announced_alias_resolves_locally:
  assumes "handleQuery senv (Some (AnnounceService env now)) now query d = Some (d', rsp)"
    and "q_Type query = ServiceAnnounce" and "rsp_Type rsp = ResponseOK" and "store_inv (sv_store d)"
    and "\<not> IsStatic (rs_healthTracker (sv_store d)) (d_hostname d)"
    and "time_Sub t (time_Unix (unix_secs now)) < hc_ExpireAfter (ht_config (rs_healthTracker (sv_store d)))"
    and "a \<in> set (q_Aliases query)" and "map_of (rs_records (sv_store d)) a = None"
  shows "rsp_Type (handleQueryByName t (zero_Query\<lparr>q_Name := a\<rparr>) d') = ResponseOK
    \<and> rsp_Name (handleQueryByName t (zero_Query\<lparr>q_Name := a\<rparr>) d') = d_hostname d"
proof -
  have "d' = fst (AnnounceService env now (q_Name query) (q_Port query) (q_Aliases query) d)"
    using assms(1-3)
    by (auto simp: handleQuery_def handleServiceAnnounce_def response_defs split: if_splits prod.splits option.splits)
  then obtain r where r: "r_Hostname r = d_hostname d" "set (q_Aliases query) \<subseteq> set (r_Aliases r)"
      "sv_store d' = AddOrUpdate now r (sv_store d)"
    using AnnounceService_self [of d "q_Aliases query" env now "q_Name query" "q_Port query"] by auto
  then obtain r' where "Get (sv_store d') t a = Some r'" "r_Hostname r' = d_hostname d"
    using cache.alias_moves [OF assms(4), of r a t now] assms(5-8) by auto
  then show ?thesis by (simp add: handleQueryByName_def response_defs)
qed

theorem announced_alias_resolves_locally_witness:
  "\<exists>(d :: Daemon) d' rsp. handleQuery demo_sock_env (Some (AnnounceService demo_node 0)) 0
        (zero_Query\<lparr>q_Type := ServiceAnnounce, q_Name := ''www'', q_Port := 80, q_Aliases := [''web'']\<rparr>) d = Some (d', rsp)
     \<and> rsp_Name (handleQueryByName 0 (zero_Query\<lparr>q_Name := ''web''\<rparr>) d') = ''b''"
proof -
  let ?query = "zero_Query\<lparr>q_Type := ServiceAnnounce, q_Name := ''www'', q_Port := 80, q_Aliases := [''web'']\<rparr>"
  obtain d :: Daemon and r0 where d: "d_hostname d = ''b''" "r_Hostname r0 = ''b''"
      "sv_store d = AddOrUpdate 0 r0 (NewRecordStore 0 demo_health demo_hosts)"
    using demo_init by blast
  obtain d' where q: "handleQuery demo_sock_env (Some (AnnounceService demo_node 0)) 0 ?query d
      = Some (d', (ok_response ?query)\<lparr>rsp_Name := ''www''\<rparr>)"
    by (simp add: handleQuery_def handleServiceAnnounce_def AnnounceService_def split_beta Let_def)
  have inv: "store_inv (sv_store d)"
    using AddOrUpdate_inv [OF store_init_inv [of 0 demo_health demo_hosts]] by (simp add: d(3) store_init_def demo_hosts_def)
  have st: "\<not> IsStatic (NewHealthTracker demo_health demo_hosts) ''b''" by (simp add: IsStatic_New demo_hosts_def)
  have ht: "rs_healthTracker (sv_store d) = NewHealthTracker demo_health demo_hosts"
    by (simp add: d(3) NewRecordStore_sel demo_hosts_def)
  have "map_of (rs_records (sv_store d)) ''web'' = None"
    using st d(2) by (simp add: d(3) AddOrUpdate_records NewRecordStore_sel demo_hosts_def)
  with announced_alias_resolves_locally [OF q, of 0 "''web''"] inv st ht d(1)
  have "rsp_Name (handleQueryByName 0 (zero_Query\<lparr>q_Name := ''web''\<rparr>) d') = ''b''"
    by (simp add: demo_new(5) time_Sub_def time_Unix_def unix_secs_def clamp64_def ok_response_def)
  with q show ?thesis by blast
qed

text \<open>Announced services are never withdrawn: once the announcer has a service, it announces it in every
  later state, also after the detector has found its port closed.\<close>

theorem services_never_withdrawn:
  assumes "(daemon_step env)\<^sup>*\<^sup>* d d'" and "d_announcer d = Some a" and "map_of (a_services a) n \<noteq> None"
  shows "\<exists>a'. d_announcer d' = Some a' \<and> map_of (a_services a') n \<noteq> None"
  using daemon_steps_names [OF assms(1)] assms(2,3)
  by (auto simp: announced_names_def map_of_eq_None_iff split: option.splits)

theorem services_never_withdrawn_witness:
  "\<exists>(d :: Daemon) d' dt a. (daemon_step demo_node)\<^sup>*\<^sup>* d d' \<and> d_detector d' = Some dt \<and> GetServices dt = []
     \<and> d_announcer d' = Some a \<and> map_of (a_services a) ''www'' \<noteq> None"
proof -
  obtain d0 :: Daemon and a0 :: Announcer where True by simp
  define d where "d = d0\<lparr>d_announcer := Some (AddService ''www'' 80 ''127.0.0.1'' [] a0),
    d_detector := Some (NewDetector [(''www'', [80])] Minute)\<rparr>"
  let ?d' = "d\<lparr>d_detector := Some (scan (nv_dial demo_node) (NewDetector [(''www'', [80])] Minute))\<rparr>"
  have s: "(daemon_step demo_node)\<^sup>*\<^sup>* d ?d'"
    by (rule r_into_rtranclp) (rule daemon_step.d_scan, simp add: d_def)
  have "d_announcer d = Some (AddService ''www'' 80 ''127.0.0.1'' [] a0)" by (simp add: d_def)
  from services_never_withdrawn [OF s this, of "''www''"] obtain a where "d_announcer ?d' = Some a" "map_of (a_services a) ''www'' \<noteq> None"
    by (auto simp: AddService_def)
  moreover have "GetServices (scan (nv_dial demo_node) (NewDetector [(''www'', [80])] Minute)) = []"
    by (simp add: GetServices_def scan_def NewDetector_def detect_port_def checkPort_def demo_node_def)
  ultimately show ?thesis using s by (intro exI [of _ d] exI [of _ ?d']) simp
qed

end
